(* ===== verification/Prelude.thy ===== *)
theory Prelude
  imports Main "HOL-Library.Word" "HOL-Library.Multiset" "HOL-Library.Monad_Syntax"
begin

text \<open>
  Shared foundations of the development: the collections of simplification and
  introduction rules, the result type of fallible Go functions, decimal printing
  (\<open>%d\<close> and \<open>strconv.Itoa\<close>) and reading, 64-bit wrap-around, lemmas on lists of
  rows, and the two generic interfaces every stateful component is checked against:
  reachable states with an inductive invariant, and tables of rows with a key.
\<close>


subsection \<open>Results of fallible functions\<close>

text \<open>A Go function returning \<open>(T, error)\<close> is a sum: \<open>Inl\<close> the error, \<open>Inr\<close> the value.\<close>

type_synonym ('e, 'a) result = "'e + 'a"

fun is_ok :: "('e, 'a) result \<Rightarrow> bool" where
  "is_ok (Inl _) = False"
| "is_ok (Inr _) = True"

text \<open>
  What decoding the JSON body of a request gives: an error, the end of the input before
  any value, or a value.
\<close>

datatype 'a request_body = Malformed | NoBody | Decoded 'a

lemma is_ok_iff: "is_ok r \<longleftrightarrow> (\<exists>v. r = Inr v)"
  by (cases r) auto

subsection \<open>Integers of the language\<close>

text \<open>
  Go's \<open>int\<close>, \<open>int64\<close> and \<open>time.Duration\<close> are 64-bit two's complement. They are
  modelled as \<open>int\<close>; where a product or sum can leave the range the wrap-around is
  written with \<open>wrap64\<close>.
\<close>

definition wrap64 :: "int \<Rightarrow> int" where
  "wrap64 x = (x + 2 ^ 63) mod 2 ^ 64 - 2 ^ 63"

lemma wrap64_id: "- (2 ^ 63) \<le> x \<Longrightarrow> x < 2 ^ 63 \<Longrightarrow> wrap64 x = x"
  by (simp add: wrap64_def)

lemma wrap64_range: "- (2 ^ 63) \<le> wrap64 x \<and> wrap64 x < 2 ^ 63"
proof -
  have "0 \<le> (x + 2 ^ 63) mod 2 ^ 64" and "(x + 2 ^ 63) mod 2 ^ 64 < (2 ^ 64 :: int)"
    by simp_all
  then show ?thesis by (simp add: wrap64_def)
qed

subsection \<open>Decimal digits\<close>

definition digit_char :: "nat \<Rightarrow> char" where
  "digit_char d = char_of (48 + d)"

definition is_digit :: "char \<Rightarrow> bool" where
  "is_digit c \<longleftrightarrow> 48 \<le> (of_char c :: nat) \<and> (of_char c :: nat) \<le> 57"

definition digit_val :: "char \<Rightarrow> nat" where
  "digit_val c = of_char c - 48"

fun dec :: "nat \<Rightarrow> string" where
  "dec n = (if n < 10 then [digit_char n] else dec (n div 10) @ [digit_char (n mod 10)])"

declare dec.simps [simp del]

definition itoa :: "int \<Rightarrow> string" where
  "itoa i = (if i < 0 then CHR ''-'' # dec (nat (- i)) else dec (nat i))"

definition undec :: "string \<Rightarrow> nat" where
  "undec s = foldl (\<lambda>v c. v * 10 + digit_val c) 0 s"

lemma of_char_digit_char: "d < 10 \<Longrightarrow> (of_char (digit_char d) :: nat) = 48 + d"
  by (simp add: digit_char_def)

lemma digit_char_eval:
  "digit_char 0 = CHR ''0''" "digit_char 1 = CHR ''1''" "digit_char 2 = CHR ''2''"
  "digit_char 3 = CHR ''3''" "digit_char 4 = CHR ''4''" "digit_char 5 = CHR ''5''"
  "digit_char 6 = CHR ''6''" "digit_char 7 = CHR ''7''" "digit_char 8 = CHR ''8''"
  "digit_char 9 = CHR ''9''" "digit_char (Suc 0) = CHR ''1''"
  by code_simp+

lemma digit_val_char [simp]: "d < 10 \<Longrightarrow> digit_val (digit_char d) = d"
  by (simp add: digit_val_def of_char_digit_char)

lemma is_digit_char [simp]: "d < 10 \<Longrightarrow> is_digit (digit_char d)"
  by (simp add: is_digit_def of_char_digit_char)

lemma digit_char_val [simp]: "is_digit c \<Longrightarrow> digit_char (digit_val c) = c"
  by (simp add: digit_char_def digit_val_def is_digit_def)

lemma digit_val_less [simp]: "is_digit c \<Longrightarrow> digit_val c < 10"
  by (simp add: digit_val_def is_digit_def) arith

lemma undec_snoc: "undec (s @ [c]) = undec s * 10 + digit_val c"
  by (simp add: undec_def)

lemma undec_dec [simp]: "undec (dec n) = n"
proof (induction n rule: dec.induct)
  case (1 n)
  show ?case
  proof (cases "n < 10")
    case True
    then show ?thesis by (simp add: dec.simps [of n] undec_def)
  next
    case False
    with 1 show ?thesis by (simp add: dec.simps [of n] undec_snoc)
  qed
qed

lemma dec_inject [simp]: "dec m = dec n \<longleftrightarrow> m = n"
  by (metis undec_dec)

lemma dec_digits: "c \<in> set (dec n) \<Longrightarrow> is_digit c"
proof (induction n rule: dec.induct)
  case (1 n)
  then show ?case by (cases "n < 10") (auto simp: dec.simps [of n])
qed

lemmas dec_eval = dec.simps digit_char_eval

lemma dec_not_Nil [simp]: "dec n \<noteq> []"
  by (simp add: dec.simps [of n])

lemma itoa_inject [simp]: "itoa i = itoa j \<longleftrightarrow> i = j"
proof -
  have "\<not> is_digit (CHR ''-'')" by (simp add: is_digit_def)
  then have "dec n \<noteq> CHR ''-'' # s" for n s
    using dec_digits [of "CHR ''-''" n] by auto
  then show ?thesis
    by (auto simp: itoa_def eq_nat_nat_iff) (metis eq_nat_nat_iff neg_0_le_iff_le nle_le)+
qed

subsection \<open>Lists of rows\<close>

lemma distinct_map_filterI: "distinct (map f xs) \<Longrightarrow> distinct (map f (filter P xs))"
  by (induction xs) auto

lemma distinct_map_filter_conjI:
  "distinct (map f (filter P xs)) \<Longrightarrow> distinct (map f (filter (\<lambda>x. Q x \<and> P x) xs))"
  by (induction xs) (auto split: if_splits)

lemma image_restrict_subset:
  "f ` A \<subseteq> g ` B \<Longrightarrow> f ` {x \<in> A. f x \<noteq> k} \<subseteq> g ` {y \<in> B. g y \<noteq> k}"
  by (auto simp: image_iff subset_iff)

lemma image_disjoint_subset:
  "f ` A \<inter> g ` B = {} \<Longrightarrow> C \<subseteq> A \<Longrightarrow> D \<subseteq> B \<Longrightarrow> f ` C \<inter> g ` D = {}"
  by blast

lemma find_filter_key:
  "find (\<lambda>r. f r = k) (filter (\<lambda>r. f r \<noteq> j) rs) = (if k = j then None else find (\<lambda>r. f r = k) rs)"
  by (induction rs) auto

lemma find_append: "find P (xs @ ys) = (case find P xs of None \<Rightarrow> find P ys | Some x \<Rightarrow> Some x)"
  by (induction xs) auto

lemma find_map_same:
  assumes "\<And>r. P (f r) = P r"
  shows "find P (map f rs) = map_option f (find P rs)"
  by (induction rs) (auto simp: assms)

lemma filter_key_absent: "k \<notin> f ` set rs \<Longrightarrow> filter (\<lambda>r. f r \<noteq> k) rs = rs"
  by (auto simp: filter_id_conv)

lemma find_key_distinct:
  "distinct (map f rs) \<Longrightarrow> r \<in> set rs \<Longrightarrow> find (\<lambda>x. f x = f r) rs = Some r"
  by (induction rs) (auto simp: rev_image_eqI)

lemma find_SomeD: "find P xs = Some x \<Longrightarrow> x \<in> set xs \<and> P x"
  by (auto simp: find_Some_iff)

lemma find_unique:
  assumes "c \<in> set xs" "P c" "\<And>x. x \<in> set xs \<Longrightarrow> P x \<Longrightarrow> x = c"
  shows "find P xs = Some c"
proof (cases "find P xs")
  case None
  then show ?thesis using assms(1,2) by (auto simp: find_None_iff)
next
  case (Some x)
  then show ?thesis using assms(3) find_SomeD by fastforce
qed

subsection \<open>Reachable states and inductive invariants\<close>

inductive reach :: "('s \<Rightarrow> bool) \<Rightarrow> ('s \<Rightarrow> 's \<Rightarrow> bool) \<Rightarrow> 's \<Rightarrow> bool"
  for init :: "'s \<Rightarrow> bool" and step :: "'s \<Rightarrow> 's \<Rightarrow> bool" where
  reach_init: "init s \<Longrightarrow> reach init step s"
| reach_step: "reach init step s \<Longrightarrow> step s t \<Longrightarrow> reach init step t"

locale inductive_invariant =
  fixes init :: "'s \<Rightarrow> bool" and step :: "'s \<Rightarrow> 's \<Rightarrow> bool" and inv :: "'s \<Rightarrow> bool"
  assumes init_inv: "init s \<Longrightarrow> inv s"
    and step_inv: "inv s \<Longrightarrow> step s t \<Longrightarrow> inv t"
begin

lemma reach_inv: "reach init step s \<Longrightarrow> inv s"
  by (induction rule: reach.induct) (auto intro: init_inv step_inv)

end

subsection \<open>Simulation of event sequences\<close>

text \<open>
  A concrete component and an abstract specification that consume the same events; events
  the environment may send satisfy \<open>allowed\<close>. After any sequence of allowed events the two
  are still related.
\<close>

locale simulation =
  fixes cstep :: "'e \<Rightarrow> 'c \<Rightarrow> 'c" and astep :: "'e \<Rightarrow> 'a \<Rightarrow> 'a"
    and allowed :: "'e \<Rightarrow> bool" and rel :: "'a \<Rightarrow> 'c \<Rightarrow> bool"
  assumes sim_step: "rel a c \<Longrightarrow> allowed e \<Longrightarrow> rel (astep e a) (cstep e c)"
begin

lemma sim_fold: "rel a c \<Longrightarrow> \<forall>e \<in> set es. allowed e \<Longrightarrow> rel (fold astep es a) (fold cstep es c)"
  by (induction es arbitrary: a c) (auto intro: sim_step)

end

subsection \<open>Tables of rows with a key\<close>

text \<open>
  What the code relies on when it reads back a row it has inserted or deletes one by
  its key. \<open>rows\<close> is the content of the table and \<open>ok\<close> its well-formedness
  (unique keys and whatever else the schema demands).
\<close>

locale keyed_table =
  fixes key :: "'r \<Rightarrow> 'k" and rows :: "'t \<Rightarrow> 'r list"
    and ins :: "'r \<Rightarrow> 't \<Rightarrow> ('e, 't) result" and del :: "'k \<Rightarrow> 't \<Rightarrow> 't"
    and ok :: "'t \<Rightarrow> bool"
  assumes ok_distinct: "ok t \<Longrightarrow> distinct (map key (rows t))"
    and ins_rows: "ins r t = Inr t' \<Longrightarrow> rows t' = rows t @ [r]"
    and ins_fresh: "ins r t = Inr t' \<Longrightarrow> x \<in> set (rows t) \<Longrightarrow> key x \<noteq> key r"
    and ins_ok: "ok t \<Longrightarrow> ins r t = Inr t' \<Longrightarrow> ok t'"
    and del_rows: "rows (del k t) = filter (\<lambda>r. key r \<noteq> k) (rows t)"
    and del_ok: "ok t \<Longrightarrow> ok (del k t)"
begin

lemma ins_key_absent: "ins r t = Inr t' \<Longrightarrow> find (\<lambda>x. key x = key r) (rows t) = None"
  by (auto simp: find_None_iff dest: ins_fresh)

lemma lookup_ins:
  assumes "ins r t = Inr t'"
  shows "find (\<lambda>x. key x = k) (rows t') =
     (if k = key r then Some r else find (\<lambda>x. key x = k) (rows t))"
  using ins_key_absent [OF assms]
  by (auto simp: find_append ins_rows [OF assms] split: option.splits)

lemma lookup_del:
  "find (\<lambda>x. key x = k) (rows (del j t)) =
     (if k = j then None else find (\<lambda>x. key x = k) (rows t))"
  by (simp add: del_rows find_filter_key)

lemma del_ins: "ins r t = Inr t' \<Longrightarrow> rows (del (key r) t') = rows t"
  by (auto simp: del_rows ins_rows filter_id_conv dest: ins_fresh)

lemma ins_ok_del: "ok t \<Longrightarrow> ins r t = Inr t' \<Longrightarrow> ok (del k t')"
  by (rule del_ok [OF ins_ok])

lemma key_unique: "ok t \<Longrightarrow> a \<in> set (rows t) \<Longrightarrow> b \<in> set (rows t) \<Longrightarrow> key a = key b \<Longrightarrow> a = b"
  by (metis ok_distinct distinct_map inj_onD)

lemma lookup_member:
  "ok t \<Longrightarrow> r \<in> set (rows t) \<Longrightarrow> find (\<lambda>x. key x = key r) (rows t) = Some r"
  using find_key_distinct [OF ok_distinct] by blast

end

end
