(* ===== verification/Netaddr.thy ===== *)
theory Netaddr
  imports Prelude
begin

unbundle bit_operations_syntax

text \<open>
  Guest addresses (\<open>internal/registry/registry.go\<close>, functions \<open>ipToUint32\<close> and
  \<open>uint32ToIP\<close>). The registry hands out addresses from a range by converting the
  configured bounds to \<open>uint32\<close>, counting, and printing the number back. The parser
  behind \<open>net.ParseIP(s).To4()\<close> is written out for both address families, because
  \<open>To4\<close> accepts IPv4-mapped IPv6 addresses as well.
\<close>

type_synonym u8 = "8 word"
type_synonym u32 = "32 word"

lemma unat_u32_less: "unat (x :: u32) < 2 ^ 32"
  using unsigned_less [of x, where 'a = nat] by simp

lemma of_nat_u32_inj: "(of_nat a :: u32) = of_nat b \<Longrightarrow> a < 2 ^ 32 \<Longrightarrow> b < 2 ^ 32 \<Longrightarrow> a = b"
  by (drule arg_cong [of _ _ unat]) (simp add: unat_of_nat take_bit_eq_mod)

subsection \<open>net.ParseIP\<close>

text \<open>
  The dotted form, character by character: the previous character (\<open>None\<close> at the
  start), the value and number of digits of the current octet, the octets finished so far.
\<close>

fun parse_v4 :: "char option \<Rightarrow> nat \<Rightarrow> nat \<Rightarrow> u8 list \<Rightarrow> string \<Rightarrow> u8 list option" where
  "parse_v4 prev val digLen fields [] =
     (if length fields < 3 then None else Some (fields @ [of_nat val]))"
| "parse_v4 prev val digLen fields (c # cs) =
     (if is_digit c then
        (if digLen = 1 \<and> val = 0 then None
         else if val * 10 + digit_val c > 255 then None
         else parse_v4 (Some c) (val * 10 + digit_val c) (Suc digLen) fields cs)
      else if c = CHR ''.'' then
        (if prev = None \<or> cs = [] \<or> prev = Some (CHR ''.'') then None
         else if length fields = 3 then None
         else parse_v4 (Some c) 0 0 (fields @ [of_nat val]) cs)
      else None)"

definition hex_val :: "char \<Rightarrow> nat option" where
  "hex_val c =
     (if is_digit c then Some (digit_val c)
      else if 97 \<le> (of_char c :: nat) \<and> (of_char c :: nat) \<le> 102 then Some (of_char c - 87)
      else if 65 \<le> (of_char c :: nat) \<and> (of_char c :: nat) \<le> 70 then Some (of_char c - 55)
      else None)"

text \<open>One group of hexadecimal digits: how many, its value, and what follows.\<close>

fun scan_hex :: "nat \<Rightarrow> nat \<Rightarrow> string \<Rightarrow> (nat \<times> nat \<times> string) option" where
  "scan_hex off acc [] = Some (off, acc, [])"
| "scan_hex off acc (c # cs) =
     (case hex_val c of
        None \<Rightarrow> Some (off, acc, c # cs)
      | Some v \<Rightarrow> (if off > 3 \<or> acc * 16 + v > 65535 then None
                   else scan_hex (Suc off) (acc * 16 + v) cs))"

text \<open>The groups of an IPv6 address: bytes so far and the position of the ellipsis.\<close>

function parse_v6_groups ::
  "u8 list \<Rightarrow> nat option \<Rightarrow> string \<Rightarrow> (u8 list \<times> nat option \<times> string) option" where
  "parse_v6_groups ip ell s =
     (if length ip \<ge> 16 then Some (ip, ell, s)
      else case scan_hex 0 0 s of
        None \<Rightarrow> None
      | Some (off, acc, rest) \<Rightarrow>
          (if off = 0 then None
           else case rest of
             [] \<Rightarrow> Some (ip @ [of_nat (acc div 256), of_nat acc], ell, [])
           | c # cs \<Rightarrow>
               (if c = CHR ''.'' then
                  (if (ell = None \<and> length ip \<noteq> 12) \<or> length ip + 4 > 16 then None
                   else case parse_v4 None 0 0 [] s of
                     None \<Rightarrow> None
                   | Some f \<Rightarrow> Some (ip @ f, ell, []))
                else if c \<noteq> CHR '':'' \<or> cs = [] then None
                else if hd cs = CHR '':'' then
                  (if ell \<noteq> None then None
                   else if tl cs = []
                     then Some (ip @ [of_nat (acc div 256), of_nat acc], Some (length ip + 2), [])
                   else parse_v6_groups (ip @ [of_nat (acc div 256), of_nat acc])
                          (Some (length ip + 2)) (tl cs))
                else parse_v6_groups (ip @ [of_nat (acc div 256), of_nat acc]) ell cs)))"
  by pat_completeness auto
termination
  by (relation "measure (\<lambda>(ip, ell, s). 16 - length ip)") auto

declare parse_v6_groups.simps [simp del]

definition parse_v6 :: "string \<Rightarrow> u8 list option" where
  "parse_v6 s =
     (let lead = take 2 s = ''::'' in
      if lead \<and> drop 2 s = [] then Some (replicate 16 0)
      else case parse_v6_groups [] (if lead then Some 0 else None) (if lead then drop 2 s else s) of
        None \<Rightarrow> None
      | Some (ip, ell, rest) \<Rightarrow>
          (if rest \<noteq> [] then None
           else if length ip < 16 then
             (case ell of
                None \<Rightarrow> None
              | Some e \<Rightarrow> Some (take e ip @ replicate (16 - length ip) 0 @ drop e ip))
           else if ell \<noteq> None then None
           else Some ip))"

text \<open>
  \<open>ParseIP\<close> looks for the first of \<open>.\<close>, \<open>:\<close> and \<open>%\<close>; zones are rejected. The result
  has sixteen bytes, an IPv4 address in its mapped form.
\<close>

definition ParseIP :: "string \<Rightarrow> u8 list option" where
  "ParseIP s =
     (if CHR ''%'' \<in> set s then None
      else case find (\<lambda>c. c = CHR ''.'' \<or> c = CHR '':'') s of
        None \<Rightarrow> None
      | Some c \<Rightarrow>
          (if c = CHR ''.'' then map_option (\<lambda>f. replicate 10 0 @ [255, 255] @ f) (parse_v4 None 0 0 [] s)
           else parse_v6 s))"

definition To4 :: "u8 list option \<Rightarrow> u8 list option" where
  "To4 r = (case r of
     None \<Rightarrow> None
   | Some ip \<Rightarrow> (if length ip = 16 \<and> take 10 ip = replicate 10 0 \<and> ip ! 10 = 255 \<and> ip ! 11 = 255
                  then Some (drop 12 ip) else None))"

subsection \<open>The conversions of the registry\<close>

datatype addr_error = InvalidIPv4 string

definition ipToUint32 :: "string \<Rightarrow> (addr_error, u32) result" where
  "ipToUint32 s =
     (case To4 (ParseIP s) of
        None \<Rightarrow> Inl (InvalidIPv4 s)
      | Some ip \<Rightarrow> Inr (push_bit 24 (ucast (ip ! 0)) OR push_bit 16 (ucast (ip ! 1))
                        OR push_bit 8 (ucast (ip ! 2)) OR ucast (ip ! 3)))"

definition octet :: "nat \<Rightarrow> u32 \<Rightarrow> u8" where
  "octet k n = ucast (drop_bit k n)"

definition dotted :: "u8 list \<Rightarrow> string" where
  "dotted bs = dec (unat (bs ! 0)) @ ''.'' @ dec (unat (bs ! 1)) @ ''.'' @
     dec (unat (bs ! 2)) @ ''.'' @ dec (unat (bs ! 3))"

definition uint32ToIP :: "u32 \<Rightarrow> string" where
  "uint32ToIP n = dotted [octet 24 n, octet 16 n, octet 8 n, octet 0 n]"

subsection \<open>Printing then parsing\<close>

lemma dec_small: "n < 10 \<Longrightarrow> dec n = [digit_char n]"
  by (simp add: dec.simps [of n])

lemma dec_two: "10 \<le> n \<Longrightarrow> n < 100 \<Longrightarrow> dec n = [digit_char (n div 10), digit_char (n mod 10)]"
  by (simp add: dec.simps [of n] dec_small)

lemma dec_three: "100 \<le> n \<Longrightarrow> n < 1000 \<Longrightarrow>
    dec n = [digit_char (n div 100), digit_char (n div 10 mod 10), digit_char (n mod 10)]"
  by (simp add: dec.simps [of n] dec_two flip: div_mult2_eq)

lemma parse_v4_octet:
  assumes "k < 256"
  shows "\<exists>c l. is_digit c \<and> parse_v4 p 0 0 fields (dec k @ rest) = parse_v4 (Some c) k l fields rest"
proof -
  consider "k < 10" | "10 \<le> k" "k < 100" | "100 \<le> k" by linarith
  then show ?thesis
  proof cases
    case 1
    then show ?thesis by (auto simp: dec_small intro!: exI [of _ "digit_char k"])
  next
    case 2
    then have "k div 10 * 10 + k mod 10 = k" "k div 10 < 10" by simp_all
    with 2 assms show ?thesis
      by (auto simp: dec_two ac_simps intro!: exI [of _ "digit_char (k mod 10)"])
  next
    case 3
    have q: "k div 100 = k div 10 div 10" by (simp flip: div_mult2_eq)
    have d: "k div 100 < 10" "k div 10 mod 10 < 10" "k mod 10 < 10" "k < 1000"
      "k div 100 * 10 + k div 10 mod 10 = k div 10" "k div 10 * 10 + k mod 10 = k"
      "k div 100 \<noteq> 0" "k div 10 < 256" "k div 10 \<noteq> 0"
      using 3 assms by (simp_all add: q)
    with 3 assms show ?thesis
      by (auto simp: dec_three ac_simps intro!: exI [of _ "digit_char (k mod 10)"])
  qed
qed

lemma not_digit_dot [simp]: "\<not> is_digit (CHR ''.'')"
  by (simp add: is_digit_def)

lemma parse_v4_octet_dot:
  assumes "k < 256" "rest \<noteq> []" "length fields < 3"
  shows "parse_v4 p 0 0 fields (dec k @ CHR ''.'' # rest) =
           parse_v4 (Some (CHR ''.'')) 0 0 (fields @ [of_nat k]) rest"
  using parse_v4_octet [OF assms(1), of p fields "CHR ''.'' # rest"] assms by auto

lemma parse_v4_octet_end:
  "k < 256 \<Longrightarrow> length fields = 3 \<Longrightarrow> parse_v4 p 0 0 fields (dec k) = Some (fields @ [of_nat k])"
  using parse_v4_octet [of k p fields "[]"] by auto

lemma parse_v4_dotted:
  "parse_v4 None 0 0 [] (dotted [a, b, c, d]) = Some [a, b, c, d]"
proof -
  have "unat x < 256" for x :: u8
    using unsigned_less [of x] by simp
  then show ?thesis
    by (simp add: dotted_def parse_v4_octet_dot parse_v4_octet_end)
qed

lemma dotted_chars: "x \<in> set (dotted bs) \<Longrightarrow> is_digit x \<or> x = CHR ''.''"
  by (auto simp: dotted_def dest: dec_digits)

lemma ParseIP_dotted:
  "ParseIP (dotted [a, b, c, d]) = Some (replicate 10 0 @ [255, 255] @ [a, b, c, d])"
proof -
  let ?s = "dotted [a, b, c, d]"
  have 1: "CHR ''%'' \<notin> set ?s"
    using dotted_chars [of "CHR ''%''"] by (auto simp: is_digit_def)
  have "CHR ''.'' \<in> set ?s" by (simp add: dotted_def)
  moreover have "CHR '':'' \<notin> set ?s"
    using dotted_chars [of "CHR '':''"] by (auto simp: is_digit_def)
  ultimately have "find (\<lambda>c. c = CHR ''.'' \<or> c = CHR '':'') ?s = Some (CHR ''.'')"
    by (intro find_unique) auto
  then show ?thesis by (simp add: ParseIP_def 1 parse_v4_dotted)
qed

lemma octets_join:
  "push_bit 24 (ucast (octet 24 n)) OR push_bit 16 (ucast (octet 16 n))
     OR push_bit 8 (ucast (octet 8 n)) OR ucast (octet 0 n) = n"
proof (rule bit_word_eqI)
  fix i assume "i < LENGTH(32)"
  then consider "i < 8" | "8 \<le> i" "i < 16" | "16 \<le> i" "i < 24" | "24 \<le> i" "i < 32"
    by fastforce
  then show "bit (push_bit 24 (ucast (octet 24 n)) OR push_bit 16 (ucast (octet 16 n))
     OR push_bit 8 (ucast (octet 8 n)) OR ucast (octet 0 n) :: u32) i = bit n i"
    by cases (auto simp: octet_def bit_simps)
qed

lemma ipToUint32_uint32ToIP [simp]: "ipToUint32 (uint32ToIP n) = Inr n"
  by (simp add: ipToUint32_def uint32ToIP_def ParseIP_dotted To4_def octets_join nth_append)

lemma uint32ToIP_inject [simp]: "uint32ToIP m = uint32ToIP n \<longleftrightarrow> m = n"
  by (metis ipToUint32_uint32ToIP sum.inject(2))

subsection \<open>Only the canonical dotted form parses\<close>

text \<open>
  Leading zeros are rejected, so a string without a colon that parses is the printed
  form of its value.
\<close>

fun join_octets :: "u8 list \<Rightarrow> string" where
  "join_octets [] = []"
| "join_octets [b] = dec (unat b)"
| "join_octets (b # bs) = dec (unat b) @ CHR ''.'' # join_octets bs"

lemma join_octets_dotted: "length bs = 4 \<Longrightarrow> join_octets bs = dotted bs"
  by (auto simp: dotted_def numeral_eq_Suc length_Suc_conv)

lemma dec_snoc: "v \<noteq> 0 \<Longrightarrow> d < 10 \<Longrightarrow> dec (v * 10 + d) = dec v @ [digit_char d]"
  by (simp add: dec.simps [of "v * 10 + d"])

definition v4_scanning :: "char option \<Rightarrow> nat \<Rightarrow> nat \<Rightarrow> u8 list \<Rightarrow> string \<Rightarrow> bool" where
  "v4_scanning prev val digLen fields s \<longleftrightarrow>
     val \<le> 255 \<and> length fields \<le> 3 \<and>
     (digLen = 0 \<longrightarrow> val = 0 \<and> (prev = None \<or> prev = Some (CHR ''.'')) \<and> (s = [] \<longrightarrow> fields = [])) \<and>
     (digLen \<noteq> 0 \<and> val = 0 \<longrightarrow> digLen = 1)"

lemma unat_of_nat_u8: "v \<le> 255 \<Longrightarrow> unat (of_nat v :: u8) = v"
  by (simp add: unat_of_nat take_bit_eq_mod)

lemma parse_v4_canonical:
  "parse_v4 prev val digLen fields s = Some fs \<Longrightarrow> v4_scanning prev val digLen fields s \<Longrightarrow>
     \<exists>new. fs = fields @ new \<and> length fs = 4 \<and> new \<noteq> [] \<and>
       (if digLen = 0 then [] else dec val) @ s = join_octets new"
proof (induction prev val digLen fields s rule: parse_v4.induct)
  case (1 prev val digLen fields)
  then have "\<not> length fields < 3" and fs: "fs = fields @ [of_nat val]"
    by (simp_all split: if_splits)
  with "1.prems"(2) have "val \<le> 255" "length fields = 3" "digLen \<noteq> 0"
    by (auto simp: v4_scanning_def)
  then show ?case by (simp add: fs unat_of_nat_u8)
next
  case (2 prev val digLen fields c cs)
  show ?case
  proof (cases "is_digit c")
    case True
    let ?v = "val * 10 + digit_val c"
    have lz: "\<not> (digLen = 1 \<and> val = 0)" and le: "\<not> ?v > 255"
      and rec: "parse_v4 (Some c) ?v (Suc digLen) fields cs = Some fs"
      using "2.prems"(1) by (simp_all only: parse_v4.simps True if_True split: if_splits) simp_all
    have l: "length fields \<le> 3" and z: "val = 0 \<Longrightarrow> digLen = 0" and z': "digLen = 0 \<Longrightarrow> val = 0"
      using "2.prems"(2) lz unfolding v4_scanning_def by blast+
    have ok: "v4_scanning (Some c) ?v (Suc digLen) fields cs"
    proof -
      have "?v \<le> 255" using le by (rule leI)
      moreover have "?v = 0 \<Longrightarrow> digLen = 0" using z by (metis add_is_0 mult_is_0 zero_neq_numeral)
      ultimately show ?thesis unfolding v4_scanning_def using l by simp
    qed
    have "dec ?v = (if digLen = 0 then [] else dec val) @ [c]"
    proof (cases "val = 0")
      case False
      with True z' show ?thesis by (auto simp: dec_snoc)
    qed (use True z in \<open>simp add: dec_small\<close>)
    with "2.IH"(1) [OF True lz le rec ok] show ?thesis by simp
  next
    case False
    let ?f = "fields @ [of_nat val]"
    have c: "c = CHR ''.''" and p: "\<not> (prev = None \<or> cs = [] \<or> prev = Some (CHR ''.''))"
      and l: "length fields \<noteq> 3" and rec: "parse_v4 (Some c) 0 0 ?f cs = Some fs"
      using "2.prems"(1) False by (simp_all split: if_splits)
    have v: "val \<le> 255" and d: "digLen \<noteq> 0"
      using "2.prems"(2) p by (auto simp: v4_scanning_def)
    have "v4_scanning (Some c) 0 0 ?f cs"
      using "2.prems"(2) p l c by (simp add: v4_scanning_def)
    from "2.IH"(2) [OF False c p l rec this]
    obtain new where new: "fs = ?f @ new" "length fs = 4" "new \<noteq> []" "cs = join_octets new"
      by auto
    then have "join_octets (of_nat val # new) = dec val @ c # cs"
      by (cases new) (simp_all add: unat_of_nat_u8 [OF v] c)
    with new d show ?thesis
      by (intro exI [of _ "of_nat val # new"]) simp
  qed
qed

lemma parse_v4_inv: "parse_v4 None 0 0 [] s = Some fs \<Longrightarrow> length fs = 4 \<and> s = dotted fs"
  using parse_v4_canonical [of None 0 0 "[]" s fs]
  by (auto simp: v4_scanning_def join_octets_dotted)

lemma octet_join:
  fixes a b c d :: u8
  defines "n \<equiv> push_bit 24 (ucast a) OR push_bit 16 (ucast b) OR push_bit 8 (ucast c) OR ucast d"
  shows "octet 24 n = a" "octet 16 n = b" "octet 8 n = c" "octet 0 n = d"
  unfolding n_def octet_def
  by (rule bit_word_eqI; auto simp: bit_simps dest: bit_imp_le_length)+

lemma ipToUint32_canonical:
  assumes "CHR '':'' \<notin> set s" "ipToUint32 s = Inr n"
  shows "s = uint32ToIP n"
proof -
  have "find (\<lambda>c. c = CHR ''.'' \<or> c = CHR '':'') s \<noteq> Some (CHR '':'')"
    using assms(1) find_SomeD by fastforce
  with assms(2) obtain fs where "parse_v4 None 0 0 [] s = Some fs"
    and n: "n = push_bit 24 (ucast (fs ! 0)) OR push_bit 16 (ucast (fs ! 1))
                  OR push_bit 8 (ucast (fs ! 2)) OR ucast (fs ! 3)"
    by (auto simp: ipToUint32_def ParseIP_def To4_def nth_append
        split: option.splits if_splits dest: find_SomeD)
  then have "length fs = 4" and s: "s = dotted fs"
    using parse_v4_inv by auto
  then obtain a b c d where fs: "fs = [a, b, c, d]"
    by (auto simp: numeral_eq_Suc length_Suc_conv)
  have "n = push_bit 24 (ucast a) OR push_bit 16 (ucast b) OR push_bit 8 (ucast c) OR ucast d"
    by (simp only: n fs) (simp add: numeral_eq_Suc)
  then show ?thesis
    by (simp only: s fs uint32ToIP_def octet_join)
qed

text \<open>
  For an address written without a colon, parsing with ipToUint32 yields a number
  exactly when the string is what uint32ToIP prints for that number: the two conversions
  are inverse, and no other spelling (leading zeros, missing octets) is accepted.
\<close>
theorem address_roundtrip:
  assumes "CHR '':'' \<notin> set s"
  shows "ipToUint32 s = Inr n \<longleftrightarrow> s = uint32ToIP n"
  using ipToUint32_canonical [OF assms] by auto

theorem address_roundtrip_witness:
  "ipToUint32 ''172.16.0.10'' = Inr 0xAC10000A \<longleftrightarrow> ''172.16.0.10'' = uint32ToIP 0xAC10000A"
  by (rule address_roundtrip) simp

end
