(* ===== verification/Pools.thy ===== *)
theory Pools
  imports Netaddr
begin

text \<open>
  The resource pools of \<open>internal/registry/registry.go\<close>: tap names, guest addresses and
  host ports, each drawn by a loop that returns the first member not in use
  (\<open>pickFreeTap\<close>, \<open>pickFreeIP\<close>, \<open>pickFreePort\<close>), and the capacity \<open>Slots\<close> reported to
  the gateway. The interface \<open>free_pool\<close> is what the registry relies on; each of the
  three loops is shown to implement it. Pool bounds and ports are Go \<open>int\<close>s far from the
  ends of their range and are modelled as \<open>int\<close>; the address loop counts in \<open>uint32\<close>,
  which does wrap.
\<close>

record pools =
  TapPrefix :: string
  TapMax :: int
  GuestIPMin :: string
  GuestIPMax :: string
  PortMin :: int
  PortMax :: int

datatype pool_error =
    TapPoolExhausted
  | IpPoolExhausted
  | PortPoolExhausted
  | BadAddress addr_error

definition Slots :: "pools \<Rightarrow> int" where
  "Slots p =
     (let n = TapMax p;
          n = (let c = PortMax p - PortMin p + 1 in if c < n then c else n);
          n = (case ipToUint32 (GuestIPMin p) of
                 Inl _ \<Rightarrow> n
               | Inr minIP \<Rightarrow>
                   (case ipToUint32 (GuestIPMax p) of
                      Inl _ \<Rightarrow> n
                    | Inr maxIP \<Rightarrow> (let c = uint (maxIP - minIP) + 1 in if c < n then c else n)))
      in if n < 0 then 0 else n)"

subsection \<open>The three loops\<close>

definition tap_name :: "pools \<Rightarrow> int \<Rightarrow> string" where
  "tap_name p i = TapPrefix p @ itoa i"

function pick_tap_from :: "string set \<Rightarrow> pools \<Rightarrow> int \<Rightarrow> (pool_error, string) result" where
  "pick_tap_from used p i =
     (if i < TapMax p then
        (if tap_name p i \<notin> used then Inr (tap_name p i) else pick_tap_from used p (i + 1))
      else Inl TapPoolExhausted)"
  by pat_completeness auto
termination
  by (relation "measure (\<lambda>(used, p, i). nat (TapMax p - i))") auto

declare pick_tap_from.simps [simp del]

definition pickFreeTap :: "string set \<Rightarrow> pools \<Rightarrow> (pool_error, string) result" where
  "pickFreeTap used p = pick_tap_from used p 0"

text \<open>
  The address loop: \<open>n++\<close> on a \<open>uint32\<close> wraps, so with the last address of the space as
  upper bound the guard never fails. \<open>None\<close> is a loop that does not end.
\<close>

partial_function (option) pick_ip_from ::
  "string set \<Rightarrow> u32 \<Rightarrow> u32 \<Rightarrow> (pool_error, string) result option" where
  "pick_ip_from used maxIP n =
     (if n \<le> maxIP then
        (if uint32ToIP n \<notin> used then Some (Inr (uint32ToIP n)) else pick_ip_from used maxIP (n + 1))
      else Some (Inl IpPoolExhausted))"

declare pick_ip_from.simps [code]

definition pickFreeIP :: "string set \<Rightarrow> pools \<Rightarrow> (pool_error, string) result option" where
  "pickFreeIP used p =
     (case ipToUint32 (GuestIPMin p) of
        Inl e \<Rightarrow> Some (Inl (BadAddress e))
      | Inr minIP \<Rightarrow>
          (case ipToUint32 (GuestIPMax p) of
             Inl e \<Rightarrow> Some (Inl (BadAddress e))
           | Inr maxIP \<Rightarrow> pick_ip_from used maxIP minIP))"

function pick_port_from :: "int set \<Rightarrow> pools \<Rightarrow> int \<Rightarrow> (pool_error, int) result" where
  "pick_port_from used p port =
     (if port \<le> PortMax p then
        (if port \<notin> used then Inr port else pick_port_from used p (port + 1))
      else Inl PortPoolExhausted)"
  by pat_completeness auto
termination
  by (relation "measure (\<lambda>(used, p, port). nat (PortMax p + 1 - port))") auto

declare pick_port_from.simps [simp del]

definition pickFreePort :: "int set \<Rightarrow> pools \<Rightarrow> (pool_error, int) result" where
  "pickFreePort used p = pick_port_from used p (PortMin p)"

subsection \<open>The interface of a pool\<close>

locale free_pool =
  fixes pick :: "'a set \<Rightarrow> ('e, 'a) result" and slots :: "'a list" and exhausted :: 'e
    and valid :: bool
  assumes slots_distinct: "distinct slots"
    and pick_first: "valid \<Longrightarrow>
      pick used = (case find (\<lambda>x. x \<notin> used) slots of None \<Rightarrow> Inl exhausted | Some x \<Rightarrow> Inr x)"
begin

lemma pick_free: "valid \<Longrightarrow> pick used = Inr x \<Longrightarrow> x \<notin> used \<and> x \<in> set slots"
  by (auto simp: pick_first split: option.splits dest: find_SomeD)

lemma pick_error: "valid \<Longrightarrow> pick used = Inl e \<longleftrightarrow> e = exhausted \<and> set slots \<subseteq> used"
  by (auto simp: pick_first find_None_iff split: option.splits dest: find_SomeD)

lemma pick_total: "valid \<Longrightarrow> finite used \<Longrightarrow> card used < length slots \<Longrightarrow> \<exists>x. pick used = Inr x"
proof -
  assume v: "valid" and u: "finite used" "card used < length slots"
  have "\<not> set slots \<subseteq> used"
    using u card_mono [of used "set slots"] distinct_card [OF slots_distinct] by auto
  with v show ?thesis
    using pick_error by (cases "pick used") auto
qed

text \<open>The pool hands out its members in order: everything before the pick is in use.\<close>

lemma pick_in_order:
  assumes "valid" "pick used = Inr x"
  shows "\<exists>i < length slots. x = slots ! i \<and> set (take i slots) \<subseteq> used"
proof -
  from assms have "find (\<lambda>x. x \<notin> used) slots = Some x"
    by (auto simp: pick_first split: option.splits)
  then show ?thesis
    by (fastforce simp: find_Some_iff in_set_conv_nth)
qed

end

subsection \<open>Taps\<close>

definition tap_slots :: "pools \<Rightarrow> string list" where
  "tap_slots p = map (tap_name p) [0..TapMax p - 1]"

lemma pick_tap_from_find:
  "pick_tap_from used p i =
     (case find (\<lambda>x. x \<notin> used) (map (tap_name p) [i..TapMax p - 1]) of
        None \<Rightarrow> Inl TapPoolExhausted | Some x \<Rightarrow> Inr x)"
proof (induction used p i rule: pick_tap_from.induct)
  case (1 used p i)
  then show ?case
    by (cases "i < TapMax p") (auto simp: pick_tap_from.simps [of used p i] upto_rec1)
qed

lemma tap_name_inject [simp]: "tap_name p i = tap_name p j \<longleftrightarrow> i = j"
  by (simp add: tap_name_def)

interpretation taps: free_pool "\<lambda>used. pickFreeTap used p" "tap_slots p" TapPoolExhausted True
  for p
  by unfold_locales
    (auto simp: pickFreeTap_def tap_slots_def pick_tap_from_find distinct_map inj_on_def)

subsection \<open>Host ports\<close>

definition port_slots :: "pools \<Rightarrow> int list" where
  "port_slots p = [PortMin p..PortMax p]"

lemma pick_port_from_find:
  "pick_port_from used p i =
     (case find (\<lambda>x. x \<notin> used) [i..PortMax p] of
        None \<Rightarrow> Inl PortPoolExhausted | Some x \<Rightarrow> Inr x)"
proof (induction used p i rule: pick_port_from.induct)
  case (1 used p i)
  then show ?case
    by (cases "i \<le> PortMax p") (auto simp: pick_port_from.simps [of used p i] upto_rec1)
qed

interpretation ports: free_pool "\<lambda>used. pickFreePort used p" "port_slots p" PortPoolExhausted True
  for p
  by unfold_locales (auto simp: pickFreePort_def port_slots_def pick_port_from_find)

subsection \<open>Guest addresses\<close>

fun ip_range :: "pools \<Rightarrow> (u32 \<times> u32) option" where
  "ip_range p = (case (ipToUint32 (GuestIPMin p), ipToUint32 (GuestIPMax p)) of
     (Inr lo, Inr hi) \<Rightarrow> Some (lo, hi) | _ \<Rightarrow> None)"

definition ip_slots_between :: "u32 \<Rightarrow> u32 \<Rightarrow> string list" where
  "ip_slots_between lo hi = map (\<lambda>k. uint32ToIP (of_nat k)) [unat lo..<Suc (unat hi)]"

definition ip_slots :: "pools \<Rightarrow> string list" where
  "ip_slots p = (case ip_range p of None \<Rightarrow> [] | Some (lo, hi) \<Rightarrow> ip_slots_between lo hi)"

text \<open>A usable range parses and does not end at the last address of the space.\<close>

definition ip_pool_ok :: "pools \<Rightarrow> bool" where
  "ip_pool_ok p \<longleftrightarrow> (case ip_range p of None \<Rightarrow> False | Some (lo, hi) \<Rightarrow> hi \<noteq> - 1)"

lemma ip_slots_between_same [simp]: "ip_slots_between n n = [uint32ToIP n]"
  by (simp add: ip_slots_between_def)

lemma ip_slots_between_step:
  assumes "n \<le> hi" "hi \<noteq> - 1"
  shows "ip_slots_between n hi = uint32ToIP n # ip_slots_between (n + 1) hi"
proof -
  have "n + 1 \<noteq> 0" using assms by (auto simp: add_eq_0_iff2 word_order.extremum_unique)
  then have "unat (n + 1) = Suc (unat n)" using unatSuc [of n] by (simp add: add.commute)
  moreover have "unat n \<le> unat hi" using assms by (simp add: word_le_nat_alt)
  ultimately show ?thesis
    by (simp add: ip_slots_between_def upt_conv_Cons del: upt_Suc)
qed

lemma pick_ip_from_find:
  assumes "hi \<noteq> - 1"
  shows "pick_ip_from used hi n =
     Some (case find (\<lambda>x. x \<notin> used) (ip_slots_between n hi) of
        None \<Rightarrow> Inl IpPoolExhausted | Some x \<Rightarrow> Inr x)"
proof (induction "length (ip_slots_between n hi)" arbitrary: n rule: less_induct)
  case (less n)
  show ?case
  proof (cases "n \<le> hi")
    case True
    note step = ip_slots_between_step [OF True assms]
    then show ?thesis
      using less [of "n + 1"] True by (auto simp: pick_ip_from.simps [of used hi n])
  next
    case False
    then have "ip_slots_between n hi = []"
      by (simp add: ip_slots_between_def word_le_nat_alt)
    with False show ?thesis by (simp add: pick_ip_from.simps)
  qed
qed

lemma ip_slots_distinct: "distinct (ip_slots_between lo hi)"
proof -
  have "inj_on (\<lambda>k. of_nat k :: u32) {unat lo..<Suc (unat hi)}"
  proof (rule inj_onI)
    fix a b assume ab: "a \<in> {unat lo..<Suc (unat hi)}" "b \<in> {unat lo..<Suc (unat hi)}"
      and eq: "(of_nat a :: u32) = of_nat b"
    have "a < 2 ^ 32" "b < 2 ^ 32"
      using ab unat_u32_less [of hi] by auto
    with eq show "a = b" by (rule of_nat_u32_inj)
  qed
  then show ?thesis
    by (auto simp: ip_slots_between_def distinct_map inj_on_def)
qed

text \<open>The loop as the registry calls it: a loop that does not end is no result at all.\<close>

definition pickFreeIP_result :: "string set \<Rightarrow> pools \<Rightarrow> (pool_error option, string) result" where
  "pickFreeIP_result used p = (case pickFreeIP used p of
     None \<Rightarrow> Inl None | Some (Inl e) \<Rightarrow> Inl (Some e) | Some (Inr ip) \<Rightarrow> Inr ip)"

interpretation ips: free_pool "\<lambda>used. pickFreeIP_result used p" "ip_slots p"
    "Some IpPoolExhausted" "ip_pool_ok p"
  for p
  by unfold_locales
    (auto simp: pickFreeIP_result_def pickFreeIP_def ip_slots_def ip_pool_ok_def ip_slots_distinct
      pick_ip_from_find split: option.splits sum.splits)

subsection \<open>Properties\<close>

lemma pick_ip_from_returns:
  "uint32ToIP (n + of_nat k) \<notin> used \<Longrightarrow> \<exists>r. pick_ip_from used maxIP n = Some r"
proof (induction k arbitrary: n)
  case 0
  then show ?case by (simp add: pick_ip_from.simps)
next
  case (Suc k)
  then show ?case
    using Suc.IH [of "n + 1"] by (subst pick_ip_from.simps) (auto simp: add.assoc)
qed

lemma some_address_free:
  assumes "finite used" "card used < 2 ^ 32"
  shows "\<exists>k. uint32ToIP (n + of_nat k) \<notin> used"
proof (rule ccontr)
  let ?f = "\<lambda>k. uint32ToIP (n + of_nat k)"
  assume "\<nexists>k. ?f k \<notin> used"
  then have "?f ` {..<2 ^ 32} \<subseteq> used" by auto
  moreover have "inj_on ?f {..<2 ^ 32}"
    by (auto simp: inj_on_def intro: of_nat_u32_inj)
  ultimately show False
    using assms card_mono [of used "?f ` {..<2 ^ 32}"] by (simp add: card_image)
qed

lemma pick_ip_from_wraps:
  assumes "\<And>x. x \<in> set (ip_slots_between n (- 1)) \<Longrightarrow> x \<in> used" "''0.0.0.0'' \<notin> used"
  shows "pick_ip_from used (- 1) n = Some (Inr ''0.0.0.0'')"
proof -
  have zero: "uint32ToIP 0 = ''0.0.0.0''"
    by (simp add: uint32ToIP_def octet_def dotted_def dec_small digit_char_eval)
  have "k = unat (- 1 - n) \<Longrightarrow> (\<And>m. n \<le> m \<Longrightarrow> uint32ToIP m \<in> used) \<Longrightarrow>
      pick_ip_from used (- 1) n = Some (Inr ''0.0.0.0'')" for k
  proof (induction k arbitrary: n)
    case 0
    then have "n = - 1" by (simp add: unat_eq_0)
    with 0(2) [of n] assms(2) show ?case
      by (simp add: pick_ip_from.simps [of used _ "- 1"] pick_ip_from.simps [of used _ 0] zero)
  next
    case (Suc k)
    then have n: "n \<noteq> - 1" by auto
    then have "n + 1 \<noteq> 0" by (auto simp: add_eq_0_iff2)
    then have u: "unat (n + 1) = Suc (unat n)" using unatSuc [of n] by (simp add: add.commute)
    have "n \<le> m" if "n + 1 \<le> m" for m
      using that u by (simp add: word_le_nat_alt)
    moreover have "k = unat (- 1 - (n + 1))"
    proof -
      have "unat (- 1 - n - 1) = unat (- 1 - n) - 1"
        using n by (intro unat_minus_one) simp
      with Suc.prems(1) show ?thesis by (simp add: algebra_simps)
    qed
    ultimately have "pick_ip_from used (- 1) (n + 1) = Some (Inr ''0.0.0.0'')"
      using Suc.prems(2) by (intro Suc.IH) auto
    with Suc.prems(2) [of n] show ?case
      by (subst pick_ip_from.simps) simp
  qed
  moreover have "uint32ToIP m \<in> used" if "n \<le> m" for m
  proof (rule assms(1))
    have "unat m \<le> unat (- 1 :: u32)"
      using word_order.extremum [of m] by (simp add: word_le_nat_alt)
    with that have "unat m \<in> {unat n..<Suc (unat (- 1 :: u32))}"
      by (simp add: word_le_nat_alt)
    then show "uint32ToIP m \<in> set (ip_slots_between n (- 1))"
      unfolding ip_slots_between_def by (force intro!: image_eqI [of _ _ "unat m"] simp del: upt_Suc)
  qed
  ultimately show ?thesis by blast
qed

text \<open>
  In a usable range, pickFreeIP returns the first address of the range that is not
  in use, and reports exhaustion exactly when none is left; it never loops.
\<close>
theorem pickFreeIP_first_free:
  assumes "ip_pool_ok p"
  shows "pickFreeIP used p = Some (case find (\<lambda>ip. ip \<notin> used) (ip_slots p) of
           None \<Rightarrow> Inl IpPoolExhausted | Some ip \<Rightarrow> Inr ip)"
  using assms by (auto simp: pickFreeIP_def ip_slots_def ip_pool_ok_def pick_ip_from_find
      split: option.splits sum.splits)

definition sample_pools :: pools where
  "sample_pools = \<lparr>TapPrefix = ''fc'', TapMax = 2, GuestIPMin = ''172.16.0.10'',
     GuestIPMax = ''172.16.0.11'', PortMin = 5200, PortMax = 5201\<rparr>"

lemma parse_sample [simp]:
  "ipToUint32 ''172.16.0.10'' = Inr 0xAC10000A" "ipToUint32 ''172.16.0.11'' = Inr 0xAC10000B"
  "ipToUint32 ''255.255.255.255'' = Inr (- 1)" "ipToUint32 ''172.16.0.1'' = Inr 0xAC100001"
  by (simp_all add: ipToUint32_def ParseIP_def To4_def is_digit_def digit_val_def nth_append)

lemma print_sample [simp]:
  "uint32ToIP (- 1) = ''255.255.255.255''"
  "uint32ToIP 0xAC10000A = ''172.16.0.10''" "uint32ToIP 0xAC10000B = ''172.16.0.11''"
  by code_simp+

lemma sample_pools_ok: "ip_pool_ok sample_pools"
  by (simp add: ip_pool_ok_def sample_pools_def)

theorem pickFreeIP_first_free_witness:
  "pickFreeIP {''172.16.0.10''} sample_pools =
     Some (case find (\<lambda>ip. ip \<notin> {''172.16.0.10''}) (ip_slots sample_pools) of
           None \<Rightarrow> Inl IpPoolExhausted | Some ip \<Rightarrow> Inr ip)"
  by (rule pickFreeIP_first_free [OF sample_pools_ok])

text \<open>
  C38: The address loop ends for every configured range, even the one whose upper bound is
  the last address of the space, as long as fewer than 2^32 addresses are in use.
\<close>
theorem pickFreeIP_terminates:
  assumes "finite used" "card used < 2 ^ 32"
  shows "\<exists>r. pickFreeIP used p = Some r"
  using some_address_free [OF assms] pick_ip_from_returns
  by (auto simp: pickFreeIP_def split: sum.splits) blast

theorem pickFreeIP_terminates_witness:
  "\<exists>r. pickFreeIP {''172.16.0.10'', ''172.16.0.11''} sample_pools = Some r"
  by (rule pickFreeIP_terminates) simp_all

text \<open>
  When the configured range ends at 255.255.255.255 and every address of it is in use,
  the counter wraps to zero and pickFreeIP hands out 0.0.0.0, an address outside the pool,
  instead of reporting exhaustion.
\<close>
theorem pickFreeIP_wraps_out_of_range:
  assumes "GuestIPMax p = ''255.255.255.255''" "ipToUint32 (GuestIPMin p) = Inr lo"
    and "set (ip_slots p) \<subseteq> used" "''0.0.0.0'' \<notin> used"
  shows "pickFreeIP used p = Some (Inr ''0.0.0.0'')"
proof -
  have "pick_ip_from used (- 1) lo = Some (Inr ''0.0.0.0'')"
    using assms by (intro pick_ip_from_wraps) (auto simp: ip_slots_def)
  with assms(1,2) show ?thesis by (simp add: pickFreeIP_def)
qed

definition top_pools :: pools where
  "top_pools = sample_pools\<lparr>GuestIPMin := ''255.255.255.255'', GuestIPMax := ''255.255.255.255''\<rparr>"

theorem pickFreeIP_wraps_out_of_range_witness:
  "pickFreeIP {''255.255.255.255''} top_pools = Some (Inr ''0.0.0.0'')"
  by (rule pickFreeIP_wraps_out_of_range [of _ "- 1"])
    (simp_all add: top_pools_def sample_pools_def ip_slots_def ip_slots_between_same)

lemma min_chain:
  "(let n = t; n = (let c = c in if c < n then c else n); n = (let c = d in if c < n then c else n)
    in if n < 0 then 0 else n) = int (min (nat t) (min (nat c) (nat d)))" for t c d :: int
  unfolding Let_def by (auto simp: min_def)

lemma Slots_range:
  assumes "ip_range p = Some (lo, hi)"
  shows "Slots p = int (min (length (tap_slots p)) (min (length (port_slots p)) (nat (uint (hi - lo) + 1))))"
proof -
  from assms have "ipToUint32 (GuestIPMin p) = Inr lo" "ipToUint32 (GuestIPMax p) = Inr hi"
    by (auto split: sum.splits)
  then show ?thesis
    unfolding Slots_def by (simp add: min_chain tap_slots_def port_slots_def)
qed

lemma Slots_min:
  assumes "ip_range p = Some (lo, hi)" "lo \<le> hi"
  shows "Slots p = int (min (length (tap_slots p)) (min (length (port_slots p)) (length (ip_slots p))))"
proof -
  have "uint (hi - lo) = uint hi - uint lo"
    using assms(2) by (simp add: uint_sub_lem word_le_def)
  moreover have "length (ip_slots p) = Suc (unat hi) - unat lo"
    using assms(1) by (simp add: ip_slots_def ip_slots_between_def del: upt_Suc)
  moreover have "unat lo \<le> unat hi" "int (unat hi) = uint hi" "int (unat lo) = uint lo"
    using assms(2) by (simp_all add: word_le_nat_alt)
  ultimately have "length (ip_slots p) = nat (uint (hi - lo) + 1)"
    by linarith
  then show ?thesis
    by (simp only: Slots_range [OF assms(1)])
qed

text \<open>
  With an address range in the right order, Slots is the size of the smallest of the
  three pools the loops draw from.
\<close>
theorem Slots_is_smallest_pool:
  assumes "ip_range p = Some (lo, hi)" "lo \<le> hi"
  shows "Slots p = int (min (length (tap_slots p)) (min (length (port_slots p)) (length (ip_slots p))))"
  by (rule Slots_min [OF assms])

lemma ip_range_sample: "ip_range sample_pools = Some (0xAC10000A, 0xAC10000B)"
  by (simp add: sample_pools_def)

theorem Slots_is_smallest_pool_witness:
  "Slots sample_pools = int (min (length (tap_slots sample_pools))
     (min (length (port_slots sample_pools)) (length (ip_slots sample_pools))))"
  by (rule Slots_is_smallest_pool [OF ip_range_sample]) simp

text \<open>
  With the address bounds the wrong way round no address can ever be picked, yet the
  subtraction in Slots wraps and the capacity reported to the gateway is not zero: it is the
  smaller of the tap and port pools whenever the bounds are close.
\<close>
theorem Slots_inverted_range:
  assumes "ip_range p = Some (lo, hi)" "hi < lo"
    and "int (length (port_slots p)) + (uint lo - uint hi) \<le> 2 ^ 32"
  shows "pickFreeIP used p = Some (Inl IpPoolExhausted) \<and>
    Slots p = int (min (length (tap_slots p)) (length (port_slots p)))"
proof
  show "pickFreeIP used p = Some (Inl IpPoolExhausted)"
    using assms by (auto simp: pickFreeIP_def pick_ip_from.simps [of _ hi lo] split: sum.splits)
  have "uint (hi - lo) = uint hi - uint lo + 2 ^ 32"
    using assms(2) by (simp add: uint_sub_if_size word_less_def size_word_def)
  then have "length (port_slots p) \<le> nat (uint (hi - lo) + 1)"
    using assms(3) by linarith
  then show "Slots p = int (min (length (tap_slots p)) (length (port_slots p)))"
    by (simp add: Slots_range [OF assms(1)])
qed

definition inverted_pools :: pools where
  "inverted_pools = sample_pools\<lparr>GuestIPMin := ''172.16.0.11'', GuestIPMax := ''172.16.0.10''\<rparr>"

theorem Slots_inverted_range_witness:
  "pickFreeIP {} inverted_pools = Some (Inl IpPoolExhausted) \<and> Slots inverted_pools = 2"
proof -
  have a: "ip_range inverted_pools = Some (0xAC10000B, 0xAC10000A)"
    by (simp add: inverted_pools_def sample_pools_def)
  have b: "int (length (port_slots inverted_pools)) + (uint (0xAC10000B :: u32) - uint (0xAC10000A :: u32)) \<le> 2 ^ 32"
    by (simp add: inverted_pools_def sample_pools_def port_slots_def)
  show ?thesis
    using Slots_inverted_range [OF a _ b]
    by (simp add: inverted_pools_def sample_pools_def port_slots_def tap_slots_def)
qed

end
