(* ===== verification/Clock.thy ===== *)
theory Clock
  imports Prelude
begin

text \<open>
  Times. A \<open>time.Time\<close> is an \<open>int\<close> of nanoseconds since the epoch; the database keeps
  whole seconds (\<open>t.Unix()\<close>, which rounds down) and reads them back with
  \<open>time.Unix(s, 0)\<close>. A \<open>time.Duration\<close> is an \<open>int64\<close>, so turning seconds into a
  duration wraps.
\<close>

definition unix :: "int \<Rightarrow> int" where
  "unix t = t div 1000000000"

definition from_unix :: "int \<Rightarrow> int" where
  "from_unix s = s * 1000000000"

definition unixOrNil :: "int option \<Rightarrow> int option" where
  "unixOrNil t = (case t of None \<Rightarrow> None | Some t \<Rightarrow> Some (unix t))"

text \<open>\<open>time.Duration(n) * time.Second\<close>\<close>

definition seconds :: "int \<Rightarrow> int" where
  "seconds n = wrap64 (n * 1000000000)"

text \<open>
  The deadline the handlers compute from \<open>timeout_sec\<close>: none for 0, otherwise
  \<open>time.Now().Add(time.Duration(n) * time.Second)\<close>.
\<close>

definition deadline :: "int \<Rightarrow> int \<Rightarrow> int option" where
  "deadline now n = (if n > 0 then Some (now + seconds n) else None)"

lemma unix_from_unix [simp]: "unix (from_unix s) = s"
  by (simp add: unix_def from_unix_def)

lemma from_unix_unix_le: "from_unix (unix t) \<le> t \<and> t < from_unix (unix t) + 1000000000"
  using div_mult_mod_eq [of t 1000000000] pos_mod_bound [of 1000000000 t] pos_mod_sign [of 1000000000 t]
  by (auto simp: from_unix_def unix_def)

lemma unix_add_seconds: "unix (t + n * 1000000000) = unix t + n"
  by (simp add: unix_def)

lemma seconds_exact: "0 \<le> n \<Longrightarrow> n \<le> 9223372036 \<Longrightarrow> seconds n = n * 1000000000"
  by (simp add: seconds_def wrap64_id)

lemma deadline_unix: "0 < n \<Longrightarrow> n \<le> 9223372036 \<Longrightarrow> unixOrNil (deadline now n) = Some (unix now + n)"
  by (simp add: deadline_def seconds_exact unixOrNil_def unix_add_seconds)

text \<open>
  For every accepted timeout up to 9223372036 seconds the deadline is exactly that many
  seconds after now, in nanoseconds and in the whole seconds the database compares.
\<close>
theorem deadline_exact:
  assumes "0 < n" "n \<le> 9223372036"
  shows "deadline now n = Some (now + n * 1000000000) \<and>
         unixOrNil (deadline now n) = Some (unix now + n)"
  using deadline_unix [OF assms] assms by (simp add: deadline_def seconds_exact)

theorem deadline_exact_witness:
  "deadline 1700000000500000000 60 = Some (1700000000500000000 + 60 * 1000000000) \<and>
   unixOrNil (deadline 1700000000500000000 60) = Some (unix 1700000000500000000 + 60)"
  by (rule deadline_exact) simp_all

lemma seconds_wrap:
  assumes "9223372037 \<le> n" "n \<le> 18446744073"
  shows "seconds n < 0"
proof -
  let ?x = "n * 1000000000 + 2 ^ 63"
  have "?x mod 2 ^ 64 = (?x - 2 ^ 64) mod 2 ^ 64" by (rule minus_mod_self2 [symmetric])
  also have "\<dots> = ?x - 2 ^ 64" using assms by (intro mod_pos_pos_trivial) simp_all
  finally have "?x mod 2 ^ 64 = ?x - 2 ^ 64" .
  with assms show ?thesis by (simp add: seconds_def wrap64_def)
qed



end
