(* ===== verification/Registry.thy ===== *)
theory Registry
  imports Pools Clock
begin

text \<open>
  \<open>internal/registry/registry.go\<close>: the tables of the SQLite database with the keys and
  partial unique indexes of the schema, and every operation of \<open>Registry\<close>. A table is
  the list of its rows in insertion order. Each database call of an operation can fail
  on its own (\<open>faults\<close>): a failed statement or commit inside a transaction leaves the
  database as it was, which is the effect of the deferred \<open>Rollback\<close>. The database uses
  a single connection, so one operation is one atomic step.
\<close>

subsection \<open>Rows and structures\<close>

definition StatusRunning :: string where "StatusRunning = ''running''"

record sandbox =
  sb_id :: string
  sb_pid :: int
  sb_vm_id :: string
  sb_socket_path :: string
  sb_tap_device :: string
  sb_guest_ip :: string
  sb_host_port :: int
  sb_rootfs_path :: string
  sb_status :: string
  sb_created_at :: int
  sb_stopped_at :: "int option"
  sb_expires_at :: "int option"

record port_mapping =
  pm_guest_port :: int
  pm_host_port :: int

record snapshot =
  sn_id :: string
  sn_source_id :: string
  sn_tap_device :: string
  sn_guest_ip :: string
  sn_mem_path :: string
  sn_state_path :: string
  sn_rootfs_path :: string
  sn_source_rootfs_path :: string
  sn_created_at :: int

text \<open>Rows carry their times in whole seconds.\<close>

record sandbox_row =
  c_id :: string
  c_pid :: int
  c_vm_id :: string
  c_socket_path :: string
  c_tap_device :: string
  c_guest_ip :: string
  c_host_port :: int
  c_rootfs_path :: string
  c_status :: string
  c_created_at :: int
  c_stopped_at :: "int option"
  c_expires_at :: "int option"

record port_row =
  p_sandbox_id :: string
  p_guest_port :: int
  p_host_port :: int

record snapshot_row =
  n_id :: string
  n_source_id :: string
  n_tap_device :: string
  n_guest_ip :: string
  n_mem_path :: string
  n_state_path :: string
  n_rootfs_path :: string
  n_source_rootfs_path :: string
  n_created_at :: int

record registry_db =
  sandboxes :: "sandbox_row list"
  sandbox_ports :: "port_row list"
  snapshots :: "snapshot_row list"

definition empty_db :: registry_db where
  "empty_db = \<lparr>sandboxes = [], sandbox_ports = [], snapshots = []\<rparr>"

definition running :: "sandbox_row \<Rightarrow> bool" where
  "running r \<longleftrightarrow> c_status r = StatusRunning"

definition port_key :: "port_row \<Rightarrow> string \<times> int" where
  "port_key r = (p_sandbox_id r, p_guest_port r)"

subsection \<open>Errors\<close>

datatype db_call =
    BeginTx | Commit
  | QueryUsed | QueryUsedPorts
  | ExecInsertSandbox | ExecUpdateSandbox | ExecDeleteSandbox
  | QuerySandbox | QuerySandboxes | QueryExpired
  | QueryStatus | QueryMapping | QueryPorts
  | ExecInsertPort | ExecDeletePorts | ExecDeletePort
  | ExecInsertSnapshot | ExecDeleteSnapshot | QuerySnapshot | QuerySnapshots

type_synonym faults = "db_call \<Rightarrow> bool"

definition no_faults :: faults where "no_faults = (\<lambda>_. False)"

datatype constraint = PrimaryKey | UniqTapRunning | UniqIpRunning | UniqPortRunning | UniqExtraHostPort

datatype reg_error =
    DbError db_call
  | PoolError pool_error
  | PickHangs  \<comment> \<open>no Go error: the address loop does not end\<close>
  | TapInUse string
  | IpInUse string
  | InsertSandboxFailed constraint
  | InsertPortFailed constraint
  | InsertSnapshotFailed constraint
  | SandboxNotFound string
  | SnapshotNotFound string
  | NoRows

subsection \<open>Statements over the tables\<close>

definition insert_sandbox :: "sandbox_row \<Rightarrow> registry_db \<Rightarrow> (constraint, registry_db) result" where
  "insert_sandbox r db =
     (if \<exists>x \<in> set (sandboxes db). c_id x = c_id r then Inl PrimaryKey
      else if running r \<and> (\<exists>x \<in> set (sandboxes db). running x \<and> c_tap_device x = c_tap_device r)
        then Inl UniqTapRunning
      else if running r \<and> (\<exists>x \<in> set (sandboxes db). running x \<and> c_guest_ip x = c_guest_ip r)
        then Inl UniqIpRunning
      else if running r \<and> (\<exists>x \<in> set (sandboxes db). running x \<and> c_host_port x = c_host_port r)
        then Inl UniqPortRunning
      else Inr (db\<lparr>sandboxes := sandboxes db @ [r]\<rparr>))"

definition insert_port :: "port_row \<Rightarrow> registry_db \<Rightarrow> (constraint, registry_db) result" where
  "insert_port r db =
     (if \<exists>x \<in> set (sandbox_ports db). port_key x = port_key r then Inl PrimaryKey
      else if \<exists>x \<in> set (sandbox_ports db). p_host_port x = p_host_port r then Inl UniqExtraHostPort
      else Inr (db\<lparr>sandbox_ports := sandbox_ports db @ [r]\<rparr>))"

definition insert_snapshot :: "snapshot_row \<Rightarrow> registry_db \<Rightarrow> (constraint, registry_db) result" where
  "insert_snapshot r db =
     (if \<exists>x \<in> set (snapshots db). n_id x = n_id r then Inl PrimaryKey
      else Inr (db\<lparr>snapshots := snapshots db @ [r]\<rparr>))"

definition delete_sandbox :: "string \<Rightarrow> registry_db \<Rightarrow> registry_db" where
  "delete_sandbox sid db = db\<lparr>sandboxes := filter (\<lambda>r. c_id r \<noteq> sid) (sandboxes db)\<rparr>"

definition delete_port :: "string \<times> int \<Rightarrow> registry_db \<Rightarrow> registry_db" where
  "delete_port k db = db\<lparr>sandbox_ports := filter (\<lambda>r. port_key r \<noteq> k) (sandbox_ports db)\<rparr>"

definition delete_ports_of :: "string \<Rightarrow> registry_db \<Rightarrow> registry_db" where
  "delete_ports_of sid db =
     db\<lparr>sandbox_ports := filter (\<lambda>r. p_sandbox_id r \<noteq> sid) (sandbox_ports db)\<rparr>"

definition delete_snapshot :: "string \<Rightarrow> registry_db \<Rightarrow> registry_db" where
  "delete_snapshot sid db = db\<lparr>snapshots := filter (\<lambda>r. n_id r \<noteq> sid) (snapshots db)\<rparr>"

definition update_sandbox :: "string \<Rightarrow> (sandbox_row \<Rightarrow> sandbox_row) \<Rightarrow> registry_db \<Rightarrow> registry_db" where
  "update_sandbox sid f db =
     db\<lparr>sandboxes := map (\<lambda>r. if c_id r = sid then f r else r) (sandboxes db)\<rparr>"

definition find_sandbox :: "string \<Rightarrow> registry_db \<Rightarrow> sandbox_row option" where
  "find_sandbox sid db = find (\<lambda>r. c_id r = sid) (sandboxes db)"

definition find_port :: "string \<times> int \<Rightarrow> registry_db \<Rightarrow> port_row option" where
  "find_port k db = find (\<lambda>r. port_key r = k) (sandbox_ports db)"

definition find_snapshot :: "string \<Rightarrow> registry_db \<Rightarrow> snapshot_row option" where
  "find_snapshot sid db = find (\<lambda>r. n_id r = sid) (snapshots db)"

subsection \<open>Reading rows back\<close>

definition scanSandbox :: "sandbox_row \<Rightarrow> sandbox" where
  "scanSandbox r =
     \<lparr>sb_id = c_id r, sb_pid = c_pid r, sb_vm_id = c_vm_id r, sb_socket_path = c_socket_path r,
      sb_tap_device = c_tap_device r, sb_guest_ip = c_guest_ip r, sb_host_port = c_host_port r,
      sb_rootfs_path = c_rootfs_path r, sb_status = c_status r,
      sb_created_at = from_unix (c_created_at r),
      sb_stopped_at = map_option from_unix (c_stopped_at r),
      sb_expires_at = map_option from_unix (c_expires_at r)\<rparr>"

definition collectSandboxes :: "sandbox_row list \<Rightarrow> sandbox list" where
  "collectSandboxes rows = map scanSandbox rows"

definition scanSnapshot :: "snapshot_row \<Rightarrow> snapshot" where
  "scanSnapshot r =
     \<lparr>sn_id = n_id r, sn_source_id = n_source_id r, sn_tap_device = n_tap_device r,
      sn_guest_ip = n_guest_ip r, sn_mem_path = n_mem_path r, sn_state_path = n_state_path r,
      sn_rootfs_path = n_rootfs_path r, sn_source_rootfs_path = n_source_rootfs_path r,
      sn_created_at = from_unix (n_created_at r)\<rparr>"

subsection \<open>Resources in use\<close>

record used_resources =
  u_taps :: "string set"
  u_ips :: "string set"
  u_ports :: "int set"

definition loadUsed :: "faults \<Rightarrow> registry_db \<Rightarrow> (reg_error, used_resources) result" where
  "loadUsed fl db =
     (if fl QueryUsed then Inl (DbError QueryUsed)
      else let rows = filter running (sandboxes db) in
      if fl QueryUsedPorts then Inl (DbError QueryUsedPorts)
      else Inr \<lparr>u_taps = set (map c_tap_device rows), u_ips = set (map c_guest_ip rows),
                u_ports = set (map c_host_port rows) \<union> set (map p_host_port (sandbox_ports db))\<rparr>)"

subsection \<open>Sandboxes\<close>

text \<open>The row both inserts write and the structure both return.\<close>

definition new_row :: "string \<Rightarrow> string \<Rightarrow> string \<Rightarrow> string \<Rightarrow> int \<Rightarrow> int \<Rightarrow> int option \<Rightarrow> sandbox_row" where
  "new_row sid rootfsPath tap ip port now expiresAt =
     \<lparr>c_id = sid, c_pid = 0, c_vm_id = '''', c_socket_path = '''', c_tap_device = tap,
      c_guest_ip = ip, c_host_port = port, c_rootfs_path = rootfsPath, c_status = StatusRunning,
      c_created_at = unix now, c_stopped_at = None, c_expires_at = unixOrNil expiresAt\<rparr>"

definition new_sandbox :: "string \<Rightarrow> string \<Rightarrow> string \<Rightarrow> string \<Rightarrow> int \<Rightarrow> int \<Rightarrow> int option \<Rightarrow> sandbox" where
  "new_sandbox sid rootfsPath tap ip port now expiresAt =
     \<lparr>sb_id = sid, sb_pid = 0, sb_vm_id = '''', sb_socket_path = '''', sb_tap_device = tap,
      sb_guest_ip = ip, sb_host_port = port, sb_rootfs_path = rootfsPath, sb_status = StatusRunning,
      sb_created_at = now, sb_stopped_at = None, sb_expires_at = expiresAt\<rparr>"

definition Create :: "pools \<Rightarrow> faults \<Rightarrow> int \<Rightarrow> string \<Rightarrow> string \<Rightarrow> int option \<Rightarrow> registry_db
    \<Rightarrow> (reg_error, sandbox) result \<times> registry_db" where
  "Create p fl now sid rootfsPath expiresAt db =
     (if fl BeginTx then (Inl (DbError BeginTx), db)
      else case loadUsed fl db of
        Inl e \<Rightarrow> (Inl e, db)
      | Inr used \<Rightarrow>
      (case pickFreeTap (u_taps used) p of
        Inl e \<Rightarrow> (Inl (PoolError e), db)
      | Inr tap \<Rightarrow>
      (case pickFreeIP_result (u_ips used) p of
        Inl None \<Rightarrow> (Inl PickHangs, db)
      | Inl (Some e) \<Rightarrow> (Inl (PoolError e), db)
      | Inr ip \<Rightarrow>
      (case pickFreePort (u_ports used) p of
        Inl e \<Rightarrow> (Inl (PoolError e), db)
      | Inr port \<Rightarrow>
          if fl ExecInsertSandbox then (Inl (DbError ExecInsertSandbox), db)
          else (case insert_sandbox (new_row sid rootfsPath tap ip port now expiresAt) db of
            Inl c \<Rightarrow> (Inl (InsertSandboxFailed c), db)
          | Inr db' \<Rightarrow>
              if fl Commit then (Inl (DbError Commit), db)
              else (Inr (new_sandbox sid rootfsPath tap ip port now expiresAt), db'))))))"

definition CreateRestore :: "pools \<Rightarrow> faults \<Rightarrow> int \<Rightarrow> string \<Rightarrow> string \<Rightarrow> string \<Rightarrow> string \<Rightarrow> int option
    \<Rightarrow> registry_db \<Rightarrow> (reg_error, sandbox) result \<times> registry_db" where
  "CreateRestore p fl now sid rootfsPath tap ip expiresAt db =
     (if fl BeginTx then (Inl (DbError BeginTx), db)
      else case loadUsed fl db of
        Inl e \<Rightarrow> (Inl e, db)
      | Inr used \<Rightarrow>
          if tap \<in> u_taps used then (Inl (TapInUse tap), db)
          else if ip \<in> u_ips used then (Inl (IpInUse ip), db)
          else (case pickFreePort (u_ports used) p of
            Inl e \<Rightarrow> (Inl (PoolError e), db)
          | Inr port \<Rightarrow>
              if fl ExecInsertSandbox then (Inl (DbError ExecInsertSandbox), db)
              else (case insert_sandbox (new_row sid rootfsPath tap ip port now expiresAt) db of
                Inl c \<Rightarrow> (Inl (InsertSandboxFailed c), db)
              | Inr db' \<Rightarrow>
                  if fl Commit then (Inl (DbError Commit), db)
                  else (Inr (new_sandbox sid rootfsPath tap ip port now expiresAt), db'))))"

definition FinishStart :: "faults \<Rightarrow> string \<Rightarrow> int \<Rightarrow> string \<Rightarrow> string \<Rightarrow> registry_db
    \<Rightarrow> (reg_error, unit) result \<times> registry_db" where
  "FinishStart fl sid pid vmID socketPath db =
     (if fl ExecUpdateSandbox then (Inl (DbError ExecUpdateSandbox), db)
      else if find_sandbox sid db = None then (Inl (SandboxNotFound sid), db)
      else (Inr (), update_sandbox sid
              (\<lambda>r. r\<lparr>c_pid := pid, c_vm_id := vmID, c_socket_path := socketPath\<rparr>) db))"

definition SetExpiry :: "faults \<Rightarrow> string \<Rightarrow> int option \<Rightarrow> registry_db
    \<Rightarrow> (reg_error, unit) result \<times> registry_db" where
  "SetExpiry fl sid t db =
     (if fl ExecUpdateSandbox then (Inl (DbError ExecUpdateSandbox), db)
      else if find_sandbox sid db = None then (Inl (SandboxNotFound sid), db)
      else (Inr (), update_sandbox sid (\<lambda>r. r\<lparr>c_expires_at := unixOrNil t\<rparr>) db))"

definition expired_row :: "int \<Rightarrow> sandbox_row \<Rightarrow> bool" where
  "expired_row now r \<longleftrightarrow> running r \<and>
     (case c_expires_at r of None \<Rightarrow> False | Some t \<Rightarrow> t < unix now)"

definition Expired :: "faults \<Rightarrow> int \<Rightarrow> registry_db \<Rightarrow> (reg_error, sandbox list) result" where
  "Expired fl now db =
     (if fl QueryExpired then Inl (DbError QueryExpired)
      else Inr (collectSandboxes (filter (expired_row now) (sandboxes db))))"

definition Destroy :: "faults \<Rightarrow> string \<Rightarrow> registry_db \<Rightarrow> (reg_error, unit) result \<times> registry_db" where
  "Destroy fl sid db =
     (if fl BeginTx then (Inl (DbError BeginTx), db)
      else if fl ExecDeletePorts then (Inl (DbError ExecDeletePorts), db)
      else if fl ExecDeleteSandbox then (Inl (DbError ExecDeleteSandbox), db)
      else if find_sandbox sid db = None then (Inl (SandboxNotFound sid), db)
      else if fl Commit then (Inl (DbError Commit), db)
      else (Inr (), delete_sandbox sid (delete_ports_of sid db)))"

definition Get :: "faults \<Rightarrow> string \<Rightarrow> registry_db \<Rightarrow> (reg_error, sandbox) result" where
  "Get fl sid db =
     (if fl QuerySandbox then Inl (DbError QuerySandbox)
      else case find_sandbox sid db of None \<Rightarrow> Inl NoRows | Some r \<Rightarrow> Inr (scanSandbox r))"

text \<open>\<open>ORDER BY created_at DESC\<close>; rows of equal age keep the order of the table here.\<close>

definition All :: "faults \<Rightarrow> registry_db \<Rightarrow> (reg_error, sandbox list) result" where
  "All fl db =
     (if fl QuerySandboxes then Inl (DbError QuerySandboxes)
      else Inr (collectSandboxes (sort_key (\<lambda>r. - c_created_at r) (sandboxes db))))"

definition List :: "faults \<Rightarrow> registry_db \<Rightarrow> (reg_error, sandbox list) result" where
  "List fl db =
     (if fl QuerySandboxes then Inl (DbError QuerySandboxes)
      else Inr (collectSandboxes (sort_key (\<lambda>r. - c_created_at r) (filter running (sandboxes db)))))"

subsection \<open>Extra ports\<close>

definition AddPort :: "pools \<Rightarrow> faults \<Rightarrow> string \<Rightarrow> int \<Rightarrow> registry_db
    \<Rightarrow> (reg_error, int) result \<times> registry_db" where
  "AddPort p fl sid guestPort db =
     (if fl BeginTx then (Inl (DbError BeginTx), db)
      else if fl QueryStatus then (Inl (DbError QueryStatus), db)
      else if find_sandbox sid db = None then (Inl (SandboxNotFound sid), db)
      else if fl QueryMapping then (Inl (DbError QueryMapping), db)
      else case find_port (sid, guestPort) db of
        Some r \<Rightarrow> (Inr (p_host_port r), db)
      | None \<Rightarrow>
      (case loadUsed fl db of
        Inl e \<Rightarrow> (Inl e, db)
      | Inr used \<Rightarrow>
      (case pickFreePort (u_ports used) p of
        Inl e \<Rightarrow> (Inl (PoolError e), db)
      | Inr port \<Rightarrow>
          if fl ExecInsertPort then (Inl (DbError ExecInsertPort), db)
          else (case insert_port \<lparr>p_sandbox_id = sid, p_guest_port = guestPort, p_host_port = port\<rparr> db of
            Inl c \<Rightarrow> (Inl (InsertPortFailed c), db)
          | Inr db' \<Rightarrow> if fl Commit then (Inl (DbError Commit), db) else (Inr port, db')))))"

definition Ports :: "faults \<Rightarrow> string \<Rightarrow> registry_db \<Rightarrow> (reg_error, port_mapping list) result" where
  "Ports fl sid db =
     (if fl QueryPorts then Inl (DbError QueryPorts)
      else Inr (map (\<lambda>r. \<lparr>pm_guest_port = p_guest_port r, pm_host_port = p_host_port r\<rparr>)
                 (sort_key p_guest_port (filter (\<lambda>r. p_sandbox_id r = sid) (sandbox_ports db)))))"

definition DeletePort :: "faults \<Rightarrow> string \<Rightarrow> int \<Rightarrow> registry_db \<Rightarrow> (reg_error, unit) result \<times> registry_db" where
  "DeletePort fl sid guestPort db =
     (if fl ExecDeletePort then (Inl (DbError ExecDeletePort), db)
      else (Inr (), delete_port (sid, guestPort) db))"

subsection \<open>Snapshots\<close>

definition snapshot_to_row :: "snapshot \<Rightarrow> snapshot_row" where
  "snapshot_to_row s =
     \<lparr>n_id = sn_id s, n_source_id = sn_source_id s, n_tap_device = sn_tap_device s,
      n_guest_ip = sn_guest_ip s, n_mem_path = sn_mem_path s, n_state_path = sn_state_path s,
      n_rootfs_path = sn_rootfs_path s, n_source_rootfs_path = sn_source_rootfs_path s,
      n_created_at = unix (sn_created_at s)\<rparr>"

definition CreateSnapshot :: "faults \<Rightarrow> snapshot \<Rightarrow> registry_db \<Rightarrow> (reg_error, unit) result \<times> registry_db" where
  "CreateSnapshot fl s db =
     (if fl ExecInsertSnapshot then (Inl (DbError ExecInsertSnapshot), db)
      else case insert_snapshot (snapshot_to_row s) db of
        Inl c \<Rightarrow> (Inl (InsertSnapshotFailed c), db)
      | Inr db' \<Rightarrow> (Inr (), db'))"

definition GetSnapshot :: "faults \<Rightarrow> string \<Rightarrow> registry_db \<Rightarrow> (reg_error, snapshot) result" where
  "GetSnapshot fl sid db =
     (if fl QuerySnapshot then Inl (DbError QuerySnapshot)
      else case find_snapshot sid db of None \<Rightarrow> Inl NoRows | Some r \<Rightarrow> Inr (scanSnapshot r))"

definition ListSnapshots :: "faults \<Rightarrow> registry_db \<Rightarrow> (reg_error, snapshot list) result" where
  "ListSnapshots fl db =
     (if fl QuerySnapshots then Inl (DbError QuerySnapshots)
      else Inr (map scanSnapshot (sort_key (\<lambda>r. - n_created_at r) (snapshots db))))"

definition DeleteSnapshot :: "faults \<Rightarrow> string \<Rightarrow> registry_db \<Rightarrow> (reg_error, unit) result \<times> registry_db" where
  "DeleteSnapshot fl sid db =
     (if fl ExecDeleteSnapshot then (Inl (DbError ExecDeleteSnapshot), db)
      else if find_snapshot sid db = None then (Inl (SnapshotNotFound sid), db)
      else (Inr (), delete_snapshot sid db))"

end
