(* ===== verification/Registry_Inv.thy ===== *)
theory Registry_Inv
  imports Registry
begin

text \<open>
  What the registry keeps true. \<open>schema_ok\<close> is what the keys and unique indexes of the
  schema enforce; \<open>registry_ok\<close> adds what only the code of the operations keeps: every row
  is running, extra port mappings belong to a sandbox, and extra ports never collide with
  primary ones (the two live in different tables, so no index covers them). The three
  tables are interpretations of \<open>keyed_table\<close>, the operations one of
  \<open>inductive_invariant\<close>.
\<close>

subsection \<open>Invariants\<close>

definition schema_ok :: "registry_db \<Rightarrow> bool" where
  "schema_ok db \<longleftrightarrow>
     distinct (map c_id (sandboxes db)) \<and>
     distinct (map c_tap_device (filter running (sandboxes db))) \<and>
     distinct (map c_guest_ip (filter running (sandboxes db))) \<and>
     distinct (map c_host_port (filter running (sandboxes db))) \<and>
     distinct (map port_key (sandbox_ports db)) \<and>
     distinct (map p_host_port (sandbox_ports db)) \<and>
     distinct (map n_id (snapshots db))"

definition code_ok :: "registry_db \<Rightarrow> bool" where
  "code_ok db \<longleftrightarrow>
     list_all running (sandboxes db) \<and>
     set (map p_sandbox_id (sandbox_ports db)) \<subseteq> set (map c_id (sandboxes db)) \<and>
     set (map c_host_port (sandboxes db)) \<inter> set (map p_host_port (sandbox_ports db)) = {}"

definition registry_ok :: "registry_db \<Rightarrow> bool" where
  "registry_ok db \<longleftrightarrow> schema_ok db \<and> code_ok db"

lemma schema_ok_filter:
  "schema_ok db \<Longrightarrow> schema_ok (db\<lparr>sandboxes := filter P (sandboxes db)\<rparr>)"
  "schema_ok db \<Longrightarrow> schema_ok (db\<lparr>sandbox_ports := filter Q (sandbox_ports db)\<rparr>)"
  "schema_ok db \<Longrightarrow> schema_ok (db\<lparr>snapshots := filter R (snapshots db)\<rparr>)"
  by (simp_all add: schema_ok_def distinct_map_filterI distinct_map_filter_conjI)

lemma insert_sandboxD:
  "insert_sandbox r db = Inr db' \<Longrightarrow>
     db' = db\<lparr>sandboxes := sandboxes db @ [r]\<rparr> \<and> c_id r \<notin> c_id ` set (sandboxes db) \<and>
     (running r \<longrightarrow>
        c_tap_device r \<notin> c_tap_device ` set (filter running (sandboxes db)) \<and>
        c_guest_ip r \<notin> c_guest_ip ` set (filter running (sandboxes db)) \<and>
        c_host_port r \<notin> c_host_port ` set (filter running (sandboxes db)))"
  by (auto simp: insert_sandbox_def image_iff split: if_splits)

lemma insert_portD:
  "insert_port r db = Inr db' \<Longrightarrow>
     db' = db\<lparr>sandbox_ports := sandbox_ports db @ [r]\<rparr> \<and> port_key r \<notin> port_key ` set (sandbox_ports db) \<and>
     p_host_port r \<notin> p_host_port ` set (sandbox_ports db)"
  by (auto simp: insert_port_def image_iff split: if_splits)

lemma insert_snapshotD:
  "insert_snapshot r db = Inr db' \<Longrightarrow>
     db' = db\<lparr>snapshots := snapshots db @ [r]\<rparr> \<and> n_id r \<notin> n_id ` set (snapshots db)"
  by (auto simp: insert_snapshot_def image_iff split: if_splits)

lemma schema_ok_insert:
  "schema_ok db \<Longrightarrow> insert_sandbox r db = Inr db' \<Longrightarrow> schema_ok db'"
  "schema_ok db \<Longrightarrow> insert_port q db = Inr db' \<Longrightarrow> schema_ok db'"
  "schema_ok db \<Longrightarrow> insert_snapshot s db = Inr db' \<Longrightarrow> schema_ok db'"
  by (simp_all add: schema_ok_def) (auto dest!: insert_sandboxD insert_portD insert_snapshotD)

interpretation sandbox_table: keyed_table c_id sandboxes insert_sandbox delete_sandbox schema_ok
proof
  show "schema_ok t \<Longrightarrow> distinct (map c_id (sandboxes t))" for t by (simp add: schema_ok_def)
  show "schema_ok t \<Longrightarrow> schema_ok (delete_sandbox k t)" for k t
    unfolding delete_sandbox_def by (rule schema_ok_filter)
  show "insert_sandbox r t = Inr t' \<Longrightarrow> x \<in> set (sandboxes t) \<Longrightarrow> c_id x \<noteq> c_id r" for r t t' x
    using insert_sandboxD [of r t t'] by (metis imageI)
qed (auto simp: delete_sandbox_def intro: schema_ok_insert dest: insert_sandboxD)

interpretation port_table: keyed_table port_key sandbox_ports insert_port delete_port schema_ok
proof
  show "schema_ok t \<Longrightarrow> distinct (map port_key (sandbox_ports t))" for t by (simp add: schema_ok_def)
  show "schema_ok t \<Longrightarrow> schema_ok (delete_port k t)" for k t
    unfolding delete_port_def by (rule schema_ok_filter)
  show "insert_port r t = Inr t' \<Longrightarrow> x \<in> set (sandbox_ports t) \<Longrightarrow> port_key x \<noteq> port_key r" for r t t' x
    using insert_portD [of r t t'] by (metis imageI)
qed (auto simp: delete_port_def intro: schema_ok_insert dest: insert_portD)

interpretation snapshot_table: keyed_table n_id snapshots insert_snapshot delete_snapshot schema_ok
proof
  show "schema_ok t \<Longrightarrow> distinct (map n_id (snapshots t))" for t by (simp add: schema_ok_def)
  show "schema_ok t \<Longrightarrow> schema_ok (delete_snapshot k t)" for k t
    unfolding delete_snapshot_def by (rule schema_ok_filter)
  show "insert_snapshot r t = Inr t' \<Longrightarrow> x \<in> set (snapshots t) \<Longrightarrow> n_id x \<noteq> n_id r" for r t t' x
    using insert_snapshotD [of r t t'] by (metis imageI)
qed (auto simp: delete_snapshot_def intro: schema_ok_insert dest: insert_snapshotD)

subsection \<open>What each operation does\<close>

definition db_used :: "registry_db \<Rightarrow> used_resources" where
  "db_used db =
     \<lparr>u_taps = c_tap_device ` set (filter running (sandboxes db)),
      u_ips = c_guest_ip ` set (filter running (sandboxes db)),
      u_ports = c_host_port ` set (filter running (sandboxes db)) \<union> p_host_port ` set (sandbox_ports db)\<rparr>"

lemma loadUsed_Inr: "loadUsed fl db = Inr u \<Longrightarrow> u = db_used db"
  by (auto simp: loadUsed_def db_used_def Let_def split: if_splits)

lemma no_faults [simp]: "\<not> no_faults c"
  by (simp add: no_faults_def)

lemma loadUsed_no_faults [simp]: "loadUsed no_faults db = Inr (db_used db)"
  by (simp add: loadUsed_def db_used_def)

lemma running_new_row [simp]: "running (new_row sid path tap ip port now e)"
  by (simp add: running_def new_row_def)

lemma new_row_fields [simp]:
  "c_id (new_row sid path tap ip port now e) = sid"
  "c_tap_device (new_row sid path tap ip port now e) = tap"
  "c_guest_ip (new_row sid path tap ip port now e) = ip"
  "c_host_port (new_row sid path tap ip port now e) = port"
  "c_rootfs_path (new_row sid path tap ip port now e) = path"
  "c_created_at (new_row sid path tap ip port now e) = unix now"
  "c_expires_at (new_row sid path tap ip port now e) = unixOrNil e"
  by (simp_all add: new_row_def)

lemma find_sandbox_SomeD: "find_sandbox sid db = Some r \<Longrightarrow> r \<in> set (sandboxes db) \<and> c_id r = sid"
  unfolding find_sandbox_def by (rule find_SomeD)

lemma find_snapshot_SomeD: "find_snapshot sid db = Some r \<Longrightarrow> r \<in> set (snapshots db) \<and> n_id r = sid"
  unfolding find_snapshot_def by (rule find_SomeD)

lemma find_port_SomeD: "find_port k db = Some r \<Longrightarrow> r \<in> set (sandbox_ports db) \<and> port_key r = k"
  unfolding find_port_def by (rule find_SomeD)

lemma Create_cases:
  assumes "Create p fl now sid path e db = (res, db')"
  obtains (error) err where "res = Inl err" "db' = db"
    | (ok) tap ip port where
        "res = Inr (new_sandbox sid path tap ip port now e)"
        "insert_sandbox (new_row sid path tap ip port now e) db = Inr db'"
        "pickFreeTap (u_taps (db_used db)) p = Inr tap"
        "pickFreeIP_result (u_ips (db_used db)) p = Inr ip"
        "pickFreePort (u_ports (db_used db)) p = Inr port"
  using assms unfolding Create_def
  by (auto split: if_splits sum.splits option.splits dest: loadUsed_Inr)

lemma CreateRestore_cases:
  assumes "CreateRestore p fl now sid path tap ip e db = (res, db')"
  obtains (error) err where "res = Inl err" "db' = db"
    | (ok) port where
        "res = Inr (new_sandbox sid path tap ip port now e)"
        "insert_sandbox (new_row sid path tap ip port now e) db = Inr db'"
        "tap \<notin> u_taps (db_used db)" "ip \<notin> u_ips (db_used db)"
        "pickFreePort (u_ports (db_used db)) p = Inr port"
  using assms unfolding CreateRestore_def
  by (auto split: if_splits sum.splits option.splits dest: loadUsed_Inr)

lemma AddPort_cases:
  assumes "AddPort p fl sid gp db = (res, db')"
  obtains (error) err where "res = Inl err" "db' = db"
    | (existing) r where "res = Inr (p_host_port r)" "db' = db" "find_port (sid, gp) db = Some r"
    | (fresh) port where "res = Inr port" "find_sandbox sid db \<noteq> None" "find_port (sid, gp) db = None"
        "insert_port \<lparr>p_sandbox_id = sid, p_guest_port = gp, p_host_port = port\<rparr> db = Inr db'"
        "pickFreePort (u_ports (db_used db)) p = Inr port"
  using assms unfolding AddPort_def
  by (auto split: if_splits sum.splits option.splits dest: loadUsed_Inr)

lemma Destroy_cases:
  assumes "Destroy fl sid db = (res, db')"
  obtains (error) err where "res = Inl err" "db' = db"
    | (ok) "res = Inr ()" "db' = delete_sandbox sid (delete_ports_of sid db)" "find_sandbox sid db \<noteq> None"
  using assms unfolding Destroy_def by (auto split: if_splits)

lemma update_cases:
  assumes "FinishStart fl sid pid vm sock db = (res, db') \<or> SetExpiry fl sid t db = (res, db')"
  obtains (error) err where "res = Inl err" "db' = db"
    | (ok) f where "res = Inr ()" "db' = update_sandbox sid f db"
        "\<And>r. c_id (f r) = c_id r \<and> c_tap_device (f r) = c_tap_device r \<and> c_guest_ip (f r) = c_guest_ip r \<and>
             c_host_port (f r) = c_host_port r \<and> running (f r) = running r \<and> c_rootfs_path (f r) = c_rootfs_path r"
  using assms unfolding FinishStart_def SetExpiry_def running_def by (auto split: if_splits)

subsection \<open>Preservation\<close>

lemma all_running: "code_ok db \<Longrightarrow> filter running (sandboxes db) = sandboxes db"
  by (simp add: code_ok_def list_all_iff)

lemma in_use_ports: "code_ok db \<Longrightarrow> u_ports (db_used db) = c_host_port ` set (sandboxes db) \<union> p_host_port ` set (sandbox_ports db)"
  by (simp add: db_used_def all_running)

lemma code_ok_insert:
  assumes "code_ok db" "running r" "c_host_port r \<notin> u_ports (db_used db)"
  shows "code_ok (db\<lparr>sandboxes := sandboxes db @ [r]\<rparr>)"
  using assms(2,3) in_use_ports [OF assms(1)] assms(1) by (auto simp: code_ok_def)

lemma code_ok_insert_port:
  assumes "code_ok db" "p_host_port r \<notin> u_ports (db_used db)" "find_sandbox (p_sandbox_id r) db \<noteq> None"
  shows "code_ok (db\<lparr>sandbox_ports := sandbox_ports db @ [r]\<rparr>)"
proof -
  have "p_sandbox_id r \<in> c_id ` set (sandboxes db)"
    using assms(3) find_sandbox_SomeD by (metis imageI not_None_eq)
  then show ?thesis
    using assms(1,2) in_use_ports [OF assms(1)] by (auto simp: code_ok_def)
qed

lemma registry_ok_insert:
  assumes "registry_ok db" "insert_sandbox r db = Inr db'" "running r" "c_host_port r \<notin> u_ports (db_used db)"
  shows "registry_ok db'"
  using assms schema_ok_insert(1) [of db r db'] code_ok_insert [of db r] insert_sandboxD [of r db db']
  by (simp add: registry_ok_def)

lemma registry_ok_insert_port:
  assumes "registry_ok db" "insert_port r db = Inr db'" "p_host_port r \<notin> u_ports (db_used db)"
    and "find_sandbox (p_sandbox_id r) db \<noteq> None"
  shows "registry_ok db'"
  using assms schema_ok_insert(2) [of db r db'] code_ok_insert_port [of db r] insert_portD [of r db db']
  by (simp add: registry_ok_def)

lemma pickFreePort_fresh: "pickFreePort used p = Inr port \<Longrightarrow> port \<notin> used \<and> port \<in> set (port_slots p)"
  using ports.pick_free by blast

lemma pickFreeTap_fresh: "pickFreeTap used p = Inr tap \<Longrightarrow> tap \<notin> used \<and> tap \<in> set (tap_slots p)"
  using taps.pick_free by blast

lemma registry_ok_alloc:
  assumes "registry_ok db" "insert_sandbox (new_row sid path tap ip port now e) db = Inr db'"
    and "pickFreePort (u_ports (db_used db)) p = Inr port"
  shows "registry_ok db'"
  using registry_ok_insert [OF assms(1,2)] pickFreePort_fresh [OF assms(3)] by simp

lemma Create_ok: "registry_ok db \<Longrightarrow> Create p fl now sid path e db = (res, db') \<Longrightarrow> registry_ok db'"
  by (erule Create_cases) (blast intro: registry_ok_alloc)+

lemma CreateRestore_ok:
  "registry_ok db \<Longrightarrow> CreateRestore p fl now sid path tap ip e db = (res, db') \<Longrightarrow> registry_ok db'"
  by (erule CreateRestore_cases) (blast intro: registry_ok_alloc)+

lemma AddPort_ok: "registry_ok db \<Longrightarrow> AddPort p fl sid gp db = (res, db') \<Longrightarrow> registry_ok db'"
proof (erule AddPort_cases)
  fix port
  assume ok: "registry_ok db" "find_sandbox sid db \<noteq> None"
    and pick: "pickFreePort (u_ports (db_used db)) p = Inr port"
    and ins: "insert_port \<lparr>p_sandbox_id = sid, p_guest_port = gp, p_host_port = port\<rparr> db = Inr db'"
  show "registry_ok db'"
    using registry_ok_insert_port [OF ok(1) ins] ok(2) pickFreePort_fresh [OF pick] by simp
qed simp_all

lemma delete_all_ok: "registry_ok db \<Longrightarrow> registry_ok (delete_sandbox sid (delete_ports_of sid db))"
proof -
  assume ok: "registry_ok db"
  have "schema_ok (delete_sandbox sid (delete_ports_of sid db))"
    using ok unfolding delete_ports_of_def
    by (intro sandbox_table.del_ok schema_ok_filter) (simp add: registry_ok_def)
  moreover have "code_ok (delete_sandbox sid (delete_ports_of sid db))"
    using ok unfolding registry_ok_def code_ok_def delete_sandbox_def delete_ports_of_def
    by (intro conjI)
      (simp_all add: list_all_iff image_restrict_subset
        image_disjoint_subset [of c_host_port "set (sandboxes db)" p_host_port "set (sandbox_ports db)"])
  ultimately show ?thesis by (simp add: registry_ok_def)
qed

lemma Destroy_ok: "registry_ok db \<Longrightarrow> Destroy fl sid db = (res, db') \<Longrightarrow> registry_ok db'"
  by (erule Destroy_cases) (auto intro: delete_all_ok)

lemma delete_port_ok: "registry_ok db \<Longrightarrow> registry_ok (delete_port k db)"
  using port_table.del_ok [of db k]
  by (force simp: registry_ok_def code_ok_def delete_port_def)

lemma DeletePort_ok: "registry_ok db \<Longrightarrow> DeletePort fl sid gp db = (res, db') \<Longrightarrow> registry_ok db'"
  by (auto simp: DeletePort_def delete_port_ok split: if_splits)

lemma map_update:
  assumes "\<And>r. g (f r) = g r"
  shows "map g (sandboxes (update_sandbox sid f db)) = map g (sandboxes db)"
  by (simp add: update_sandbox_def assms)

lemma filter_running_update:
  assumes "\<And>r. running (f r) = running r" "\<And>r. g (f r) = g r"
  shows "map g (filter running (sandboxes (update_sandbox sid f db))) = map g (filter running (sandboxes db))"
  unfolding update_sandbox_def by (simp add: filter_map comp_def assms if_distrib cong: if_cong)

lemma update_ok: "registry_ok db \<Longrightarrow> FinishStart fl sid pid vm sock db = (res, db') \<or> SetExpiry fl sid t db = (res, db') \<Longrightarrow> registry_ok db'"
proof (erule update_cases)
  fix f
  assume ok: "registry_ok db" and db': "db' = update_sandbox sid f db"
    and f: "\<And>r. c_id (f r) = c_id r \<and> c_tap_device (f r) = c_tap_device r \<and> c_guest_ip (f r) = c_guest_ip r \<and>
             c_host_port (f r) = c_host_port r \<and> running (f r) = running r \<and> c_rootfs_path (f r) = c_rootfs_path r"
  have same: "sandbox_ports (update_sandbox sid f db) = sandbox_ports db"
    "snapshots (update_sandbox sid f db) = snapshots db"
    by (simp_all add: update_sandbox_def)
  have "schema_ok db'"
    using ok f by (simp add: registry_ok_def schema_ok_def same map_update filter_running_update db')
  moreover have "code_ok db'"
    using ok f unfolding db' registry_ok_def code_ok_def same
    by (simp add: map_update del: set_map) (auto simp: update_sandbox_def list_all_iff)
  ultimately show ?thesis by (simp add: registry_ok_def)
qed simp

lemma code_ok_frame:
  "sandboxes db' = sandboxes db \<Longrightarrow> sandbox_ports db' = sandbox_ports db \<Longrightarrow> code_ok db' = code_ok db"
  by (simp add: code_ok_def)

lemma insert_snapshot_ok: "registry_ok db \<Longrightarrow> insert_snapshot r db = Inr db' \<Longrightarrow> registry_ok db'"
  using schema_ok_insert(3) [of db r db'] insert_snapshotD [of r db db'] code_ok_frame [of db' db]
  by (simp add: registry_ok_def)

lemma CreateSnapshot_ok: "registry_ok db \<Longrightarrow> CreateSnapshot fl s db = (res, db') \<Longrightarrow> registry_ok db'"
  by (auto simp: CreateSnapshot_def intro: insert_snapshot_ok split: if_splits sum.splits)

lemma delete_snapshot_ok: "registry_ok db \<Longrightarrow> registry_ok (delete_snapshot k db)"
  using snapshot_table.del_ok [of db k] code_ok_frame [of "delete_snapshot k db" db]
  by (simp add: registry_ok_def delete_snapshot_def)

lemma DeleteSnapshot_ok: "registry_ok db \<Longrightarrow> DeleteSnapshot fl sid db = (res, db') \<Longrightarrow> registry_ok db'"
  by (auto simp: DeleteSnapshot_def delete_snapshot_ok split: if_splits)

end
