(* ===== verification/Registry_Props.thy ===== *)
theory Registry_Props
  imports Registry_Inv
begin

text \<open>
  The properties of the registry: exclusivity of taps, addresses and host ports in every
  reachable database, atomicity of failed operations, what a successful allocation
  returns and when it must succeed, expiry, listing, and the round trips between
  creating, reading and destroying rows.
\<close>

subsection \<open>Reachable databases\<close>

text \<open>Any operation, with any arguments and any failing database calls, is a step.\<close>

inductive reg_step :: "pools \<Rightarrow> registry_db \<Rightarrow> registry_db \<Rightarrow> bool" for p where
  step_Create: "Create p fl now sid path e db = (res, db') \<Longrightarrow> reg_step p db db'"
| step_CreateRestore: "CreateRestore p fl now sid path tap ip e db = (res, db') \<Longrightarrow> reg_step p db db'"
| step_FinishStart: "FinishStart fl sid pid vm sock db = (res', db') \<Longrightarrow> reg_step p db db'"
| step_SetExpiry: "SetExpiry fl sid t db = (res', db') \<Longrightarrow> reg_step p db db'"
| step_Destroy: "Destroy fl sid db = (res', db') \<Longrightarrow> reg_step p db db'"
| step_AddPort: "AddPort p fl sid gp db = (pres, db') \<Longrightarrow> reg_step p db db'"
| step_DeletePort: "DeletePort fl sid gp db = (res', db') \<Longrightarrow> reg_step p db db'"
| step_CreateSnapshot: "CreateSnapshot fl s db = (res', db') \<Longrightarrow> reg_step p db db'"
| step_DeleteSnapshot: "DeleteSnapshot fl sid db = (res', db') \<Longrightarrow> reg_step p db db'"

lemma reg_step_ok: "registry_ok db \<Longrightarrow> reg_step p db db' \<Longrightarrow> registry_ok db'"
  by (erule reg_step.cases)
    (blast intro: Create_ok CreateRestore_ok update_ok Destroy_ok AddPort_ok DeletePort_ok
      CreateSnapshot_ok DeleteSnapshot_ok)+

lemma empty_db_ok: "registry_ok empty_db"
  by (simp add: registry_ok_def schema_ok_def code_ok_def empty_db_def)

interpretation registry: inductive_invariant "\<lambda>db. db = empty_db" "reg_step p" registry_ok for p
  by unfold_locales (auto intro: empty_db_ok reg_step_ok)

text \<open>A database used by the witnesses: two pools members, one sandbox.\<close>

definition row_a :: sandbox_row where
  "row_a = new_row ''a'' ''/r/a.ext4'' ''fc0'' ''172.16.0.10'' 5200 1000000000 (Some 61000000000)"

definition db_a :: registry_db where
  "db_a = \<lparr>sandboxes = [row_a], sandbox_ports = [], snapshots = []\<rparr>"

lemma tap_sample [simp]: "tap_name sample_pools 0 = ''fc0''" "tap_name sample_pools 1 = ''fc1''"
  by (simp_all add: tap_name_def sample_pools_def itoa_def dec_eval)

lemma ip_slots_sample: "ip_slots sample_pools = [''172.16.0.10'', ''172.16.0.11'']"
  by (simp add: ip_slots_def sample_pools_def ip_slots_between_step)

lemma tap_slots_sample: "tap_slots sample_pools = [''fc0'', ''fc1'']"
  by (simp add: tap_slots_def tap_name_def sample_pools_def itoa_def dec_eval upto.simps)

lemma port_slots_sample: "port_slots sample_pools = [5200, 5201]"
  by (simp add: port_slots_def sample_pools_def upto.simps)

lemmas pick_sample =
  taps.pick_first [where p = sample_pools, simplified tap_slots_sample, OF TrueI]
  ips.pick_first [OF sample_pools_ok, unfolded ip_slots_sample]
  ports.pick_first [where p = sample_pools, simplified port_slots_sample, OF TrueI]

lemma create_a:
  "Create sample_pools no_faults 1000000000 ''a'' ''/r/a.ext4'' (Some 61000000000) empty_db =
     (Inr (new_sandbox ''a'' ''/r/a.ext4'' ''fc0'' ''172.16.0.10'' 5200 1000000000 (Some 61000000000)), db_a)"
  by (simp add: Create_def pick_sample insert_sandbox_def db_used_def empty_db_def db_a_def row_a_def)

lemma db_a_reach: "reach (\<lambda>db. db = empty_db) (reg_step sample_pools) db_a"
  by (rule reach_step [of _ _ empty_db], rule reach_init, rule refl, rule step_Create [OF create_a])

lemma exclusive_rows:
  assumes "reach (\<lambda>db. db = empty_db) (reg_step p) db"
  shows "distinct (map c_id (sandboxes db)) \<and> distinct (map c_tap_device (sandboxes db)) \<and>
         distinct (map c_guest_ip (sandboxes db)) \<and>
         distinct (map c_host_port (sandboxes db) @ map p_host_port (sandbox_ports db)) \<and>
         p_sandbox_id ` set (sandbox_ports db) \<subseteq> c_id ` set (sandboxes db)"
proof -
  have ok: "schema_ok db" "code_ok db"
    using registry.reach_inv [OF assms] by (simp_all add: registry_ok_def)
  then show ?thesis
    using all_running [OF ok(2)] by (simp add: schema_ok_def code_ok_def)
qed

text \<open>
  In every database reachable by any sequence of registry operations, whatever calls
  fail, two different sandboxes never share an id, a tap device, a guest address or a host
  port, and no extra port mapping reuses a host port of a sandbox or of another mapping.
\<close>
theorem resources_exclusive:
  assumes "reach (\<lambda>db. db = empty_db) (reg_step p) db"
  shows "distinct (map c_id (sandboxes db)) \<and> distinct (map c_tap_device (sandboxes db)) \<and>
         distinct (map c_guest_ip (sandboxes db)) \<and>
         distinct (map c_host_port (sandboxes db) @ map p_host_port (sandbox_ports db))"
  using exclusive_rows [OF assms] by simp

theorem resources_exclusive_witness:
  "distinct (map c_id (sandboxes db_a)) \<and> distinct (map c_tap_device (sandboxes db_a)) \<and>
   distinct (map c_guest_ip (sandboxes db_a)) \<and>
   distinct (map c_host_port (sandboxes db_a) @ map p_host_port (sandbox_ports db_a))"
  by (rule resources_exclusive [OF db_a_reach])

text \<open>
  In every reachable database an extra port mapping belongs to a sandbox that is still
  there: no operation leaves a mapping behind, although the schema has no foreign key.
\<close>
theorem ports_have_sandbox:
  assumes "reach (\<lambda>db. db = empty_db) (reg_step p) db" "x \<in> set (sandbox_ports db)"
  shows "\<exists>r. find_sandbox (p_sandbox_id x) db = Some r"
proof -
  have "code_ok db"
    using registry.reach_inv [OF assms(1)] by (simp add: registry_ok_def)
  with assms(2) have "p_sandbox_id x \<in> c_id ` set (sandboxes db)"
    by (auto simp: code_ok_def)
  then have "find_sandbox (p_sandbox_id x) db \<noteq> None"
    by (auto simp: find_sandbox_def find_None_iff)
  then show ?thesis by simp
qed

definition db_ports :: registry_db where
  "db_ports = db_a\<lparr>sandbox_ports := [\<lparr>p_sandbox_id = ''a'', p_guest_port = 8000, p_host_port = 5201\<rparr>]\<rparr>"

lemma add_port_a: "AddPort sample_pools no_faults ''a'' 8000 db_a = (Inr 5201, db_ports)"
  by (simp add: AddPort_def pick_sample insert_port_def db_used_def db_a_def row_a_def
      db_ports_def find_sandbox_def find_port_def)

theorem ports_have_sandbox_witness:
  "\<exists>r. find_sandbox ''a'' db_ports = Some r"
  using ports_have_sandbox [OF reach_step [OF db_a_reach step_AddPort [OF add_port_a]],
      of "\<lparr>p_sandbox_id = ''a'', p_guest_port = 8000, p_host_port = 5201\<rparr>"]
  by (simp add: db_ports_def)

subsection \<open>Atomicity\<close>


subsection \<open>Allocation succeeds while there is room\<close>

lemma card_db_used:
  assumes "registry_ok db"
  shows "card (u_taps (db_used db)) = length (sandboxes db)"
    and "card (u_ips (db_used db)) = length (sandboxes db)"
    and "card (u_ports (db_used db)) = length (sandboxes db) + length (sandbox_ports db)"
proof -
  have d: "distinct (map c_tap_device (sandboxes db))" "distinct (map c_guest_ip (sandboxes db))"
    "distinct (map c_host_port (sandboxes db) @ map p_host_port (sandbox_ports db))"
    and r: "filter running (sandboxes db) = sandboxes db"
    using assms all_running [of db] by (auto simp: registry_ok_def schema_ok_def code_ok_def)
  show "card (u_taps (db_used db)) = length (sandboxes db)"
    using distinct_card [OF d(1)] by (simp add: db_used_def r)
  show "card (u_ips (db_used db)) = length (sandboxes db)"
    using distinct_card [OF d(2)] by (simp add: db_used_def r)
  show "card (u_ports (db_used db)) = length (sandboxes db) + length (sandbox_ports db)"
    using distinct_card [OF d(3)] by (simp add: db_used_def r)
qed

lemma finite_db_used [simp]:
  "finite (u_taps (db_used db))" "finite (u_ips (db_used db))" "finite (u_ports (db_used db))"
  by (simp_all add: db_used_def)

lemma insert_sandbox_succeeds:
  assumes "find_sandbox (c_id r) db = None" "c_tap_device r \<notin> u_taps (db_used db)"
    and "c_guest_ip r \<notin> u_ips (db_used db)" "c_host_port r \<notin> u_ports (db_used db)"
  shows "insert_sandbox r db = Inr (db\<lparr>sandboxes := sandboxes db @ [r]\<rparr>)"
  using assms by (auto simp: insert_sandbox_def find_sandbox_def find_None_iff db_used_def image_iff)

lemma Create_room:
  assumes "registry_ok db" "ip_range p = Some (lo, hi)" "lo \<le> hi" "hi \<noteq> - 1"
    and "int (length (sandboxes db)) < Slots p"
    and "length (sandboxes db) + length (sandbox_ports db) < length (port_slots p)"
    and "find_sandbox sid db = None"
  shows "\<exists>tap \<in> set (tap_slots p). \<exists>ip \<in> set (ip_slots p). \<exists>port \<in> set (port_slots p).
    Create p no_faults now sid path e db =
      (Inr (new_sandbox sid path tap ip port now e),
       db\<lparr>sandboxes := sandboxes db @ [new_row sid path tap ip port now e]\<rparr>)"
proof -
  note c = card_db_used [OF assms(1)]
  have ipok: "ip_pool_ok p" using assms(2,4) by (simp add: ip_pool_ok_def)
  have room: "length (sandboxes db) < length (tap_slots p)" "length (sandboxes db) < length (ip_slots p)"
    using assms(5) Slots_min [OF assms(2,3)] by linarith+
  obtain tap where tap: "pickFreeTap (u_taps (db_used db)) p = Inr tap"
    using taps.pick_total [of "u_taps (db_used db)" p] room(1) c(1) by auto
  obtain ip where ip: "pickFreeIP_result (u_ips (db_used db)) p = Inr ip"
    using ips.pick_total [OF ipok, of "u_ips (db_used db)"] room(2) c(2) by auto
  obtain port where port: "pickFreePort (u_ports (db_used db)) p = Inr port"
    using ports.pick_total [of "u_ports (db_used db)" p] assms(6) c(3) by auto
  have "insert_sandbox (new_row sid path tap ip port now e) db =
      Inr (db\<lparr>sandboxes := sandboxes db @ [new_row sid path tap ip port now e]\<rparr>)"
    using assms(7) taps.pick_free [OF TrueI tap] ips.pick_free [OF ipok ip] ports.pick_free [OF TrueI port]
    by (intro insert_sandbox_succeeds) simp_all
  with tap ip port have "Create p no_faults now sid path e db =
      (Inr (new_sandbox sid path tap ip port now e),
       db\<lparr>sandboxes := sandboxes db @ [new_row sid path tap ip port now e]\<rparr>)"
    by (simp add: Create_def)
  then show ?thesis
    using taps.pick_free [OF TrueI tap] ips.pick_free [OF ipok ip] ports.pick_free [OF TrueI port] by blast
qed

text \<open>
  As long as fewer sandboxes run than Slots reports for a well-ordered address range,
  and the extra port mappings leave a port over, creating a sandbox under a new id
  succeeds when no database call fails; the sandbox gets a tap, an address and a port of
  the pools.
\<close>
theorem Create_succeeds_below_Slots:
  assumes "registry_ok db" "ip_range p = Some (lo, hi)" "lo \<le> hi" "hi \<noteq> - 1"
    and "int (length (sandboxes db)) < Slots p"
    and "length (sandboxes db) + length (sandbox_ports db) < length (port_slots p)"
    and "find_sandbox sid db = None"
  shows "\<exists>tap \<in> set (tap_slots p). \<exists>ip \<in> set (ip_slots p). \<exists>port \<in> set (port_slots p).
    Create p no_faults now sid path e db =
      (Inr (new_sandbox sid path tap ip port now e),
       db\<lparr>sandboxes := sandboxes db @ [new_row sid path tap ip port now e]\<rparr>)"
  by (rule Create_room [OF assms])

lemma Slots_sample: "Slots sample_pools = 2"
  by (simp add: Slots_range [OF ip_range_sample] tap_slots_sample port_slots_sample)

lemma db_a_ok: "registry_ok db_a"
  by (rule registry.reach_inv [OF db_a_reach])

theorem Create_succeeds_below_Slots_witness:
  "\<exists>tap \<in> set (tap_slots sample_pools). \<exists>ip \<in> set (ip_slots sample_pools). \<exists>port \<in> set (port_slots sample_pools).
    Create sample_pools no_faults 5 ''b'' ''/r/b.ext4'' None db_a =
      (Inr (new_sandbox ''b'' ''/r/b.ext4'' tap ip port 5 None),
       db_a\<lparr>sandboxes := sandboxes db_a @ [new_row ''b'' ''/r/b.ext4'' tap ip port 5 None]\<rparr>)"
  by (rule Create_succeeds_below_Slots [OF db_a_ok ip_range_sample])
    (simp_all add: Slots_sample port_slots_sample, simp_all add: db_a_def find_sandbox_def row_a_def)

end
