(* ===== verification/Registry_Roundtrip.thy ===== *)
theory Registry_Roundtrip
  imports Registry_Props
begin

text \<open>
  What a client of the registry sees: a row read back is the one created up to whole
  seconds, destroying undoes creating, extra ports are stable, deadlines expire exactly
  when they should, listings are complete and sorted, and restores are refused while their
  tap or address is held.
\<close>

subsection \<open>Creating, reading, destroying\<close>

definition whole_seconds :: "sandbox \<Rightarrow> sandbox" where
  "whole_seconds s = s\<lparr>sb_created_at := from_unix (unix (sb_created_at s)),
     sb_stopped_at := map_option (\<lambda>t. from_unix (unix t)) (sb_stopped_at s),
     sb_expires_at := map_option (\<lambda>t. from_unix (unix t)) (sb_expires_at s)\<rparr>"

lemma scan_new_row [simp]:
  "scanSandbox (new_row sid path tap ip port now e) = whole_seconds (new_sandbox sid path tap ip port now e)"
  by (simp add: scanSandbox_def new_row_def whole_seconds_def new_sandbox_def unixOrNil_def split: option.splits)

lemma created_row:
  assumes "Create p fl now sid path e db = (Inr sb, db')"
  obtains r where "insert_sandbox r db = Inr db'" "c_id r = sid" "scanSandbox r = whole_seconds sb"
  using assms by (cases rule: Create_cases) auto

text \<open>
  Reading a sandbox right after it was created returns the structure Create returned,
  with its times cut to whole seconds; reading any other id is unaffected.
\<close>
theorem Get_after_Create:
  assumes "Create p fl now sid path e db = (Inr sb, db')"
  shows "Get no_faults x db' = (if x = sid then Inr (whole_seconds sb) else Get no_faults x db)"
proof -
  from assms obtain r where r: "insert_sandbox r db = Inr db'" "c_id r = sid" "scanSandbox r = whole_seconds sb"
    by (rule created_row)
  then show ?thesis
    by (simp add: Get_def find_sandbox_def sandbox_table.lookup_ins [OF r(1)])
qed

theorem Get_after_Create_witness:
  "Get no_faults ''a'' db_a = Inr (whole_seconds
     (new_sandbox ''a'' ''/r/a.ext4'' ''fc0'' ''172.16.0.10'' 5200 1000000000 (Some 61000000000)))"
  using Get_after_Create [OF create_a, of "''a''"] by simp

lemma delete_ports_of_absent:
  "code_ok db \<Longrightarrow> sid \<notin> c_id ` set (sandboxes db) \<Longrightarrow> delete_ports_of sid db = db"
proof -
  assume "code_ok db" "sid \<notin> c_id ` set (sandboxes db)"
  then have "filter (\<lambda>r. p_sandbox_id r \<noteq> sid) (sandbox_ports db) = sandbox_ports db"
    by (auto simp: code_ok_def filter_id_conv)
  then show ?thesis by (cases db) (simp add: delete_ports_of_def)
qed

text \<open>A row written for a new sandbox, whichever of the two inserts wrote it.\<close>

definition allocated :: "registry_db \<Rightarrow> string \<Rightarrow> sandbox \<Rightarrow> registry_db \<Rightarrow> bool" where
  "allocated db sid sb db' \<longleftrightarrow>
     (\<exists>r. insert_sandbox r db = Inr db' \<and> c_id r = sid \<and> scanSandbox r = whole_seconds sb \<and> running r \<and>
          sb_id sb = sid \<and> sb_rootfs_path sb = c_rootfs_path r \<and> c_host_port r \<notin> u_ports (db_used db))"

lemma Create_allocated: "Create p fl now sid path e db = (Inr sb, db') \<Longrightarrow> allocated db sid sb db' \<and> sb_rootfs_path sb = path"
proof (erule Create_cases)
  fix tap ip port
  assume "Inr sb = Inr (new_sandbox sid path tap ip port now e)"
    and "insert_sandbox (new_row sid path tap ip port now e) db = Inr db'"
    and "pickFreePort (u_ports (db_used db)) p = Inr port"
  then show ?thesis
    using pickFreePort_fresh [of "u_ports (db_used db)" p port]
    by (auto simp: allocated_def new_sandbox_def intro!: exI [of _ "new_row sid path tap ip port now e"])
qed simp

lemma CreateRestore_allocated:
  "CreateRestore p fl now sid path tap ip e db = (Inr sb, db') \<Longrightarrow> allocated db sid sb db' \<and> sb_rootfs_path sb = path"
proof (erule CreateRestore_cases)
  fix port
  assume "Inr sb = Inr (new_sandbox sid path tap ip port now e)"
    and "insert_sandbox (new_row sid path tap ip port now e) db = Inr db'"
    and "pickFreePort (u_ports (db_used db)) p = Inr port"
  then show ?thesis
    using pickFreePort_fresh [of "u_ports (db_used db)" p port]
    by (auto simp: allocated_def new_sandbox_def intro!: exI [of _ "new_row sid path tap ip port now e"])
qed simp

lemma allocated_find:
  assumes "allocated db sid sb db'"
  obtains r where "scanSandbox r = whole_seconds sb" "c_id r = sid"
    "\<And>x. find_sandbox x db' = (if x = sid then Some r else find_sandbox x db)" "find_sandbox sid db = None"
proof -
  from assms obtain r where r: "insert_sandbox r db = Inr db'" "c_id r = sid" "scanSandbox r = whole_seconds sb"
    by (auto simp: allocated_def)
  show thesis
    using that [OF r(3,2)] sandbox_table.lookup_ins [OF r(1)] sandbox_table.ins_key_absent [OF r(1)] r(2)
    by (simp add: find_sandbox_def)
qed

lemma allocated_ok: "registry_ok db \<Longrightarrow> allocated db sid sb db' \<Longrightarrow> registry_ok db'"
  by (auto simp: allocated_def intro: registry_ok_insert)

lemma Destroy_allocated:
  assumes "registry_ok db" "allocated db sid sb db'"
  shows "Destroy no_faults sid db' = (Inr (), db)"
proof -
  from assms(2) obtain r where r: "insert_sandbox r db = Inr db'" "c_id r = sid"
    by (auto simp: allocated_def)
  note ins = insert_sandboxD [OF r(1)]
  have "find_sandbox sid db' = Some r"
    using sandbox_table.lookup_ins [OF r(1), of sid] r(2) by (simp add: find_sandbox_def)
  moreover have "delete_ports_of sid db = db"
    using delete_ports_of_absent [of db sid] assms(1) ins r(2) by (simp add: registry_ok_def)
  then have "sandbox_ports (delete_ports_of sid db') = sandbox_ports db"
    using ins by (cases db) (simp add: delete_ports_of_def)
  moreover have "sandboxes (delete_sandbox sid db') = sandboxes db"
    using sandbox_table.del_ins [OF r(1)] r(2) by simp
  ultimately show ?thesis
    using ins by (cases db) (simp add: Destroy_def delete_sandbox_def delete_ports_of_def)
qed

text \<open>
  Destroying a sandbox that has just been created gives back the database as it was
  before, whatever the database held.
\<close>
theorem Destroy_undoes_Create:
  assumes "registry_ok db" "Create p fl now sid path e db = (Inr sb, db')"
  shows "Destroy no_faults sid db' = (Inr (), db)"
  using Destroy_allocated [OF assms(1)] Create_allocated [OF assms(2)] by blast

theorem Destroy_undoes_Create_witness: "Destroy no_faults ''a'' db_a = (Inr (), empty_db)"
  by (rule Destroy_undoes_Create [OF empty_db_ok create_a])

text \<open>
  A successful Destroy removes the sandbox and all its extra ports, and nothing else:
  every other sandbox, its ports and every snapshot read as before.
\<close>
theorem Destroy_removes_exactly_one:
  assumes "Destroy fl sid db = (Inr (), db')"
  shows "find_sandbox sid db' = None \<and> Ports no_faults sid db' = Inr [] \<and> snapshots db' = snapshots db \<and>
    (\<forall>x. x = sid \<or> Get no_faults x db' = Get no_faults x db \<and> Ports no_faults x db' = Ports no_faults x db)"
proof -
  from assms have db': "db' = delete_sandbox sid (delete_ports_of sid db)"
    by (rule Destroy_cases) simp_all
  have "filter (\<lambda>r. p_sandbox_id r = x) (filter (\<lambda>r. p_sandbox_id r \<noteq> sid) rs) =
      (if x = sid then [] else filter (\<lambda>r. p_sandbox_id r = x) rs)" for x and rs :: "port_row list"
    by (induction rs) auto
  then show ?thesis
    by (simp add: db' Get_def Ports_def find_sandbox_def delete_sandbox_def delete_ports_of_def
        find_filter_key)
qed

lemma destroy_a: "Destroy no_faults ''a'' db_ports = (Inr (), empty_db)"
  by (simp add: Destroy_def db_ports_def db_a_def row_a_def find_sandbox_def delete_sandbox_def
      delete_ports_of_def empty_db_def)

theorem Destroy_removes_exactly_one_witness:
  "find_sandbox ''a'' empty_db = None \<and> Ports no_faults ''a'' empty_db = Inr [] \<and>
   snapshots empty_db = snapshots db_ports \<and>
   (\<forall>x. x = ''a'' \<or> Get no_faults x empty_db = Get no_faults x db_ports \<and>
      Ports no_faults x empty_db = Ports no_faults x db_ports)"
  by (rule Destroy_removes_exactly_one [OF destroy_a])

subsection \<open>Extra ports\<close>

text \<open>
  Exposing a port twice gives the same host port and changes nothing the second time,
  and the mapping shows up in the sandbox's port list.
\<close>
theorem AddPort_idempotent:
  assumes "AddPort p fl sid gp db = (Inr port, db')" "find_sandbox sid db \<noteq> None"
  shows "AddPort p no_faults sid gp db' = (Inr port, db') \<and>
    \<lparr>pm_guest_port = gp, pm_host_port = port\<rparr> \<in> set (case Ports no_faults sid db' of Inr ps \<Rightarrow> ps)"
proof -
  have "find_sandbox sid db' = find_sandbox sid db \<and> (\<exists>r. find_port (sid, gp) db' = Some r \<and> p_host_port r = port)"
    using assms(1)
  proof (cases rule: AddPort_cases)
    case (fresh port')
    then show ?thesis
      using port_table.lookup_ins [OF fresh(4), of "(sid, gp)"] insert_portD [OF fresh(4)]
      by (auto simp: find_port_def port_key_def find_sandbox_def)
  qed auto
  then obtain r where r: "find_port (sid, gp) db' = Some r" "p_host_port r = port"
    and sb: "find_sandbox sid db' \<noteq> None"
    using assms(2) by auto
  have "r \<in> set (sandbox_ports db')" "port_key r = (sid, gp)"
    using find_port_SomeD [OF r(1)] by auto
  then show ?thesis
    using r sb by (auto simp: AddPort_def Ports_def port_key_def image_iff intro!: bexI [of _ r])
qed

theorem AddPort_idempotent_witness:
  "AddPort sample_pools no_faults ''a'' 8000 db_ports = (Inr 5201, db_ports) \<and>
    \<lparr>pm_guest_port = 8000, pm_host_port = 5201\<rparr> \<in> set (case Ports no_faults ''a'' db_ports of Inr ps \<Rightarrow> ps)"
  by (rule AddPort_idempotent [OF add_port_a]) (simp add: find_sandbox_def db_a_def row_a_def)

subsection \<open>Expiry\<close>

text \<open>
  C30: After a timeout of n seconds was set at time u, the reaper's query at time v returns
  the sandbox exactly when more than n whole seconds have gone by, for every timeout that
  does not overflow.
\<close>
theorem expires_exactly_after_timeout:
  assumes "registry_ok db" "0 < n" "n \<le> 9223372036"
    and "SetExpiry fl sid (deadline u n) db = (Inr (), db')"
    and "Expired fl' v db' = Inr xs"
  shows "sid \<in> sb_id ` set xs \<longleftrightarrow> unix u + n < unix v"
proof -
  have e: "unixOrNil (deadline u n) = Some (unix u + n)"
    by (rule deadline_unix [OF assms(2,3)])
  from assms(4) have f: "find_sandbox sid db \<noteq> None"
    and db': "db' = update_sandbox sid (\<lambda>r. r\<lparr>c_expires_at := Some (unix u + n)\<rparr>) db"
    by (auto simp: SetExpiry_def e split: if_splits)
  from f obtain r where r: "r \<in> set (sandboxes db)" "c_id r = sid"
    using find_sandbox_SomeD by blast
  have run: "running x" if "x \<in> set (sandboxes db)" for x
    using assms(1) that by (simp add: registry_ok_def code_ok_def list_all_iff)
  have xs: "sb_id ` set xs = c_id ` set (filter (expired_row v) (sandboxes db'))"
    using assms(5)
    by (auto simp: Expired_def collectSandboxes_def image_image scanSandbox_def split: if_splits)
  have exp: "expired_row v (x\<lparr>c_expires_at := Some t\<rparr>) \<longleftrightarrow> t < unix v" if "x \<in> set (sandboxes db)" for x t
    using run [OF that] by (simp add: expired_row_def running_def)
  let ?f = "\<lambda>r. r\<lparr>c_expires_at := Some (unix u + n)\<rparr>"
  have rows: "set (sandboxes db') = (\<lambda>x. if c_id x = sid then ?f x else x) ` set (sandboxes db)"
    by (simp add: db' update_sandbox_def)
  show ?thesis
  proof
    assume "sid \<in> sb_id ` set xs"
    then obtain x where "x \<in> set (sandboxes db)" "c_id x = sid" "expired_row v (?f x)"
      unfolding xs rows set_filter by (auto split: if_splits)
    then show "unix u + n < unix v" using exp by blast
  next
    assume "unix u + n < unix v"
    then have "expired_row v (?f r)" using exp [OF r(1)] by blast
    moreover have "?f r \<in> set (sandboxes db')" using r by (auto simp: rows intro!: image_eqI [of _ _ r])
    ultimately show "sid \<in> sb_id ` set xs"
      unfolding xs set_filter using r(2) by (intro image_eqI [of _ _ "?f r"]) simp_all
  qed
qed

definition db_a_90 :: registry_db where
  "db_a_90 = db_a\<lparr>sandboxes := [row_a\<lparr>c_expires_at := Some 95\<rparr>]\<rparr>"

theorem expires_exactly_after_timeout_witness:
  "''a'' \<in> sb_id ` set [scanSandbox (row_a\<lparr>c_expires_at := Some 95\<rparr>)] \<longleftrightarrow> unix 5000000000 + 90 < unix 96000000000"
  by (rule expires_exactly_after_timeout [OF db_a_ok, of 90 no_faults "''a''" 5000000000 db_a_90 no_faults 96000000000])
    (simp_all add: SetExpiry_def find_sandbox_def db_a_def row_a_def db_a_90_def update_sandbox_def deadline_def
      unixOrNil_def seconds_exact unix_add_seconds unix_def Expired_def collectSandboxes_def expired_row_def
      running_def new_row_def)

subsection \<open>Listings\<close>

text \<open>
  List returns every running sandbox once and nothing else, newest first.
\<close>
theorem List_complete_and_sorted:
  assumes "List fl db = Inr xs"
  shows "mset xs = image_mset scanSandbox (filter_mset running (mset (sandboxes db))) \<and>
         sorted (map (\<lambda>s. - sb_created_at s) xs)"
proof -
  let ?ys = "sort_key (\<lambda>r. - c_created_at r) (filter running (sandboxes db))"
  from assms have xs: "xs = map scanSandbox ?ys"
    by (auto simp: List_def collectSandboxes_def split: if_splits)
  have "sorted (map (\<lambda>r. - c_created_at r) ?ys)"
    by simp
  then have "sorted_wrt (\<lambda>a b. - c_created_at a \<le> - c_created_at b) ?ys"
    by (simp only: sorted_map)
  then have "sorted_wrt (\<lambda>a b. - sb_created_at (scanSandbox a) \<le> - sb_created_at (scanSandbox b)) ?ys"
    by (rule sorted_wrt_mono_rel [rotated]) (simp add: scanSandbox_def from_unix_def)
  then have "sorted (map (\<lambda>s. - sb_created_at s) xs)"
    by (simp only: xs sorted_map sorted_wrt_map)
  then show ?thesis
    by (simp add: xs)
qed

theorem List_complete_and_sorted_witness:
  "mset [scanSandbox row_a] = image_mset scanSandbox (filter_mset running (mset (sandboxes db_a))) \<and>
   sorted (map (\<lambda>s. - sb_created_at s) [scanSandbox row_a])"
  by (rule List_complete_and_sorted [of no_faults])
    (simp add: List_def db_a_def collectSandboxes_def row_a_def)

subsection \<open>Restoring\<close>

text \<open>
  With a port left and a new id, restoring succeeds exactly when the snapshot's tap and
  address are both free, and then the sandbox gets exactly that tap and that address; held
  ones are refused before anything is written.
\<close>
theorem CreateRestore_gating:
  assumes "registry_ok db" "find_sandbox sid db = None"
    and "length (sandboxes db) + length (sandbox_ports db) < length (port_slots p)"
  shows "(\<exists>port. CreateRestore p no_faults now sid path tap ip e db =
            (if tap \<in> c_tap_device ` set (sandboxes db) then (Inl (TapInUse tap), db)
             else if ip \<in> c_guest_ip ` set (sandboxes db) then (Inl (IpInUse ip), db)
             else (Inr (new_sandbox sid path tap ip port now e),
                   db\<lparr>sandboxes := sandboxes db @ [new_row sid path tap ip port now e]\<rparr>)))"
proof -
  have run: "filter running (sandboxes db) = sandboxes db"
    using assms(1) all_running by (simp add: registry_ok_def)
  have u: "u_taps (db_used db) = c_tap_device ` set (sandboxes db)"
    "u_ips (db_used db) = c_guest_ip ` set (sandboxes db)"
    by (simp_all add: db_used_def run)
  obtain port where port: "pickFreePort (u_ports (db_used db)) p = Inr port"
    using ports.pick_total [of "u_ports (db_used db)" p] assms(3) card_db_used(3) [OF assms(1)] by auto
  have "tap \<notin> u_taps (db_used db) \<Longrightarrow> ip \<notin> u_ips (db_used db) \<Longrightarrow>
      insert_sandbox (new_row sid path tap ip port now e) db =
        Inr (db\<lparr>sandboxes := sandboxes db @ [new_row sid path tap ip port now e]\<rparr>)"
    using assms(2) pickFreePort_fresh [OF port] by (intro insert_sandbox_succeeds) simp_all
  with port have "CreateRestore p no_faults now sid path tap ip e db =
      (if tap \<in> u_taps (db_used db) then (Inl (TapInUse tap), db)
       else if ip \<in> u_ips (db_used db) then (Inl (IpInUse ip), db)
       else (Inr (new_sandbox sid path tap ip port now e),
             db\<lparr>sandboxes := sandboxes db @ [new_row sid path tap ip port now e]\<rparr>))"
    by (simp add: CreateRestore_def)
  then show ?thesis unfolding u by blast
qed

theorem CreateRestore_gating_witness:
  "\<exists>port. CreateRestore sample_pools no_faults 0 ''b'' ''/r/b.ext4'' ''fc0'' ''172.16.0.10'' None db_a =
      (if ''fc0'' \<in> c_tap_device ` set (sandboxes db_a) then (Inl (TapInUse ''fc0''), db_a)
       else if ''172.16.0.10'' \<in> c_guest_ip ` set (sandboxes db_a) then (Inl (IpInUse ''172.16.0.10''), db_a)
       else (Inr (new_sandbox ''b'' ''/r/b.ext4'' ''fc0'' ''172.16.0.10'' port 0 None),
             db_a\<lparr>sandboxes := sandboxes db_a @ [new_row ''b'' ''/r/b.ext4'' ''fc0'' ''172.16.0.10'' port 0 None]\<rparr>))"
  by (rule CreateRestore_gating [OF db_a_ok])
    (simp_all add: find_sandbox_def db_a_def row_a_def port_slots_sample)

subsection \<open>Snapshots\<close>

text \<open>
  A recorded snapshot reads back as it was stored, up to whole seconds, until it is
  deleted; deleting it restores the catalog.
\<close>
theorem snapshot_roundtrip:
  assumes "CreateSnapshot fl s db = (Inr (), db')"
  shows "GetSnapshot no_faults (sn_id s) db' = Inr (s\<lparr>sn_created_at := from_unix (unix (sn_created_at s))\<rparr>) \<and>
         DeleteSnapshot no_faults (sn_id s) db' = (Inr (), db)"
proof -
  from assms have ins: "insert_snapshot (snapshot_to_row s) db = Inr db'"
    by (auto simp: CreateSnapshot_def split: if_splits sum.splits)
  have k: "n_id (snapshot_to_row s) = sn_id s"
    by (simp add: snapshot_to_row_def)
  have f: "find_snapshot (sn_id s) db' = Some (snapshot_to_row s)"
    using snapshot_table.lookup_ins [OF ins, of "sn_id s"] k by (simp add: find_snapshot_def)
  have "snapshots (delete_snapshot (sn_id s) db') = snapshots db"
    using snapshot_table.del_ins [OF ins] k by simp
  then have "delete_snapshot (sn_id s) db' = db"
    using insert_snapshotD [OF ins] by (cases db) (simp add: delete_snapshot_def)
  with f show ?thesis
    by (simp add: GetSnapshot_def DeleteSnapshot_def scanSnapshot_def snapshot_to_row_def)
qed

definition snap_a :: snapshot where
  "snap_a = \<lparr>sn_id = ''s'', sn_source_id = ''a'', sn_tap_device = ''fc0'', sn_guest_ip = ''172.16.0.10'',
     sn_mem_path = ''/s/mem'', sn_state_path = ''/s/state'', sn_rootfs_path = ''/s/rootfs.ext4'',
     sn_source_rootfs_path = ''/r/a.ext4'', sn_created_at = 7500000000\<rparr>"

definition db_snap :: registry_db where
  "db_snap = db_a\<lparr>snapshots := [snapshot_to_row snap_a]\<rparr>"

lemma create_snap: "CreateSnapshot no_faults snap_a db_a = (Inr (), db_snap)"
  by (simp add: CreateSnapshot_def insert_snapshot_def db_a_def db_snap_def)

theorem snapshot_roundtrip_witness:
  "GetSnapshot no_faults ''s'' db_snap = Inr (snap_a\<lparr>sn_created_at := 7000000000\<rparr>) \<and>
   DeleteSnapshot no_faults ''s'' db_snap = (Inr (), db_a)"
  using snapshot_roundtrip [OF create_snap] by (simp add: snap_a_def from_unix_def unix_def)

end
