(* ===== verification/Paths.thy ===== *)
theory Paths
  imports Prelude "HOL-Library.Sublist"
begin

text \<open>
  The string and path functions of the Go standard library that the code calls:
  \<open>path/filepath\<close> (\<open>Clean\<close>, \<open>Join\<close>, \<open>Dir\<close> on Unix) and \<open>strings\<close> (\<open>ToLower\<close>,
  \<open>Contains\<close>, \<open>Fields\<close>, \<open>TrimSpace\<close>, \<open>Split\<close>). Strings are lists of bytes; white space
  and case are the ASCII ones, which is all that the tools whose output is read print.
\<close>

subsection \<open>Paths\<close>

definition slash :: char where "slash = CHR ''/''"

fun split_at :: "char \<Rightarrow> string \<Rightarrow> string list" where
  "split_at c [] = [[]]"
| "split_at c (x # xs) =
     (if x = c then [] # split_at c xs
      else (case split_at c xs of [] \<Rightarrow> [[x]] | w # ws \<Rightarrow> (x # w) # ws))"

fun join_with :: "string \<Rightarrow> string list \<Rightarrow> string" where
  "join_with sep [] = []"
| "join_with sep [w] = w"
| "join_with sep (w # ws) = w @ sep @ join_with sep ws"

text \<open>\<open>filepath.Clean\<close>: the stack holds the components kept so far, innermost first.\<close>

fun clean_step :: "bool \<Rightarrow> string list \<Rightarrow> string \<Rightarrow> string list" where
  "clean_step rooted stack w =
     (if w = '''' \<or> w = ''.'' then stack
      else if w = ''..'' then
        (case stack of
           [] \<Rightarrow> if rooted then [] else [w]
         | t # rest \<Rightarrow> if t = ''..'' then w # stack else rest)
      else w # stack)"

definition Clean :: "string \<Rightarrow> string" where
  "Clean path =
     (let rooted = (path \<noteq> [] \<and> hd path = slash);
          ws = rev (foldl (clean_step rooted) [] (split_at slash path))
      in if rooted then slash # join_with [slash] ws
         else if ws = [] then ''.'' else join_with [slash] ws)"

definition Join :: "string list \<Rightarrow> string" where
  "Join elems = (let es = filter (\<lambda>e. e \<noteq> []) elems
                 in if es = [] then [] else Clean (join_with [slash] es))"

definition Dir :: "string \<Rightarrow> string" where
  "Dir path = Clean (rev (dropWhile (\<lambda>c. c \<noteq> slash) (rev path)))"

subsection \<open>Strings\<close>

definition to_lower :: "char \<Rightarrow> char" where
  "to_lower c = (let n = of_char c :: nat in if 65 \<le> n \<and> n \<le> 90 then char_of (n + 32) else c)"

definition ToLower :: "string \<Rightarrow> string" where
  "ToLower s = map to_lower s"

definition Contains :: "string \<Rightarrow> string \<Rightarrow> bool" where
  "Contains s sub = sublist sub s"

definition is_space :: "char \<Rightarrow> bool" where
  "is_space c = (let n = of_char c :: nat in n = 32 \<or> (9 \<le> n \<and> n \<le> 13))"

lemma fields_shorter:
  assumes "t = dropWhile is_space s" "t \<noteq> []"
  shows "length (dropWhile (\<lambda>c. \<not> is_space c) t) < length s"
proof -
  obtain c u where t: "t = c # u" using assms(2) by (cases t) auto
  then have "\<not> is_space c" using hd_dropWhile [of is_space s] assms by simp
  with t have "length (dropWhile (\<lambda>c. \<not> is_space c) t) < length t"
    by (simp add: le_imp_less_Suc length_dropWhile_le)
  also have "\<dots> \<le> length s" using assms(1) by (simp add: length_dropWhile_le)
  finally show ?thesis .
qed

function Fields :: "string \<Rightarrow> string list" where
  "Fields s =
     (let t = dropWhile is_space s
      in if t = [] then [] else takeWhile (\<lambda>c. \<not> is_space c) t # Fields (dropWhile (\<lambda>c. \<not> is_space c) t))"
  by pat_completeness auto
termination
  by (relation "measure length") (rule wf_measure, unfold in_measure, rule fields_shorter)

declare Fields.simps [simp del]

definition TrimSpace :: "string \<Rightarrow> string" where
  "TrimSpace s = rev (dropWhile is_space (rev (dropWhile is_space s)))"

subsection \<open>Lemmas\<close>

lemma split_at_not_Nil [simp]: "split_at c s \<noteq> []"
  by (cases s) (auto split: list.splits)

lemma split_at_none: "c \<notin> set s \<Longrightarrow> split_at c s = [s]"
  by (induction s) auto

lemma split_at_append:
  "c \<notin> set t \<Longrightarrow> split_at c (s @ c # t) = split_at c s @ [t]"
  by (induction s) (auto simp: split_at_none split: list.splits)

definition plain :: "string \<Rightarrow> bool" where
  "plain w \<longleftrightarrow> slash \<notin> set w \<and> w \<noteq> '''' \<and> w \<noteq> ''.'' \<and> w \<noteq> ''..''"

lemma join_with_snoc: "join_with sep (ws @ [w]) = (if ws = [] then w else join_with sep ws @ sep @ w)"
  by (induction sep ws rule: join_with.induct) auto

text \<open>What joining a directory and a plain file name gives.\<close>

definition dir_prefix :: "string \<Rightarrow> string" where
  "dir_prefix dir =
     (if dir = [] then [] else
      let ws = rev (foldl (clean_step (hd dir = slash)) [] (split_at slash dir))
      in (if hd dir = slash then [slash] else []) @ (if ws = [] then [] else join_with [slash] ws @ [slash]))"

lemma Join_plain:
  assumes "plain w"
  shows "Join [dir, w] = dir_prefix dir @ w"
proof (cases "dir = []")
  case True
  have "hd w \<noteq> slash" using assms by (cases w) (auto simp: plain_def)
  with True assms show ?thesis
    by (simp add: Join_def Clean_def dir_prefix_def plain_def split_at_none)
next
  case False
  have "split_at slash (dir @ slash # w) = split_at slash dir @ [w]"
    using assms by (intro split_at_append) (simp add: plain_def)
  then have "rev (foldl (clean_step r) [] (split_at slash (dir @ slash # w))) =
      rev (foldl (clean_step r) [] (split_at slash dir)) @ [w]" for r
    using assms by (simp add: plain_def)
  with False assms show ?thesis
    by (simp add: Join_def Clean_def dir_prefix_def plain_def Let_def join_with_snoc)
qed

lemma Join_inject:
  assumes "plain a" "plain b"
  shows "Join [dir, a] = Join [dir, b] \<longleftrightarrow> a = b"
  using assms by (simp add: Join_plain)

end
