(* ===== verification/Registry_Open.thy ===== *)
theory Registry_Open
  imports Registry_Props Paths
begin

text \<open>
  Opening the registry (\<open>Open\<close>, \<open>migrate\<close> and \<open>Close\<close> of \<open>internal/registry/registry.go\<close>).
  Here a database file is a catalogue: its tables with their columns and rows, and its
  unique indexes. The statements of the schema script and the two \<open>ALTER TABLE\<close>s are values,
  executed with the effect SQLite documents for them; any of them, and every other call,
  may also fail on its own. \<open>db_of\<close> reads the catalogue as the tables of Registry, which
  every operation works on.
\<close>

subsection \<open>Database files\<close>

datatype sql_type = SqlInteger | SqlText

datatype sql_value = VNull | VInt int | VText string

record sql_column =
  co_name :: string
  co_type :: sql_type
  co_not_null :: bool
  co_default :: sql_value

type_synonym sql_row = "string \<rightharpoonup> sql_value"

record sql_table =
  t_columns :: "sql_column list"
  t_primary :: "string list"
  t_rows :: "sql_row list"

record sql_index =
  ix_table :: string
  ix_columns :: "string list"
  ix_where :: "(string \<times> sql_value) option"

record sql_file =
  f_tables :: "string \<rightharpoonup> sql_table"
  f_indexes :: "string \<rightharpoonup> sql_index"

definition empty_file :: sql_file where
  "empty_file = \<lparr>f_tables = Map.empty, f_indexes = Map.empty\<rparr>"

definition column_names :: "sql_table \<Rightarrow> string set" where
  "column_names t = co_name ` set (t_columns t)"

subsection \<open>Statements\<close>

datatype ddl =
    CreateTable string "sql_column list" "string list"
  | CreateUniqueIndex string sql_index
  | AddColumn string sql_column

text \<open>The rows an index is about, and their keys; a key with a NULL is equal to no other.\<close>

definition indexed :: "sql_index \<Rightarrow> sql_row \<Rightarrow> bool" where
  "indexed ix r \<longleftrightarrow> (case ix_where ix of None \<Rightarrow> True | Some (c, v) \<Rightarrow> r c = Some v) \<and>
     list_all (\<lambda>c. r c \<noteq> Some VNull) (ix_columns ix)"

definition index_keys :: "sql_index \<Rightarrow> sql_row list \<Rightarrow> sql_value option list list" where
  "index_keys ix rs = map (\<lambda>r. map r (ix_columns ix)) (filter (indexed ix) rs)"

fun exec_ddl :: "ddl \<Rightarrow> sql_file \<Rightarrow> (string, sql_file) result" where
  "exec_ddl (CreateTable n cs pk) f =
     (case f_tables f n of
        Some _ \<Rightarrow> Inr f
      | None \<Rightarrow> Inr (f\<lparr>f_tables := (f_tables f)(n \<mapsto> \<lparr>t_columns = cs, t_primary = pk, t_rows = []\<rparr>)\<rparr>))"
| "exec_ddl (CreateUniqueIndex n ix) f =
     (case f_indexes f n of
        Some _ \<Rightarrow> Inr f
      | None \<Rightarrow>
     (case f_tables f (ix_table ix) of
        None \<Rightarrow> Inl (''no such table: main.'' @ ix_table ix)
      | Some t \<Rightarrow>
          if \<not> set (ix_columns ix @ (case ix_where ix of None \<Rightarrow> [] | Some (c, _) \<Rightarrow> [c])) \<subseteq> column_names t
          then Inl ''no such column''
          else if \<not> distinct (index_keys ix (t_rows t)) then Inl ''UNIQUE constraint failed''
          else Inr (f\<lparr>f_indexes := (f_indexes f)(n \<mapsto> ix)\<rparr>)))"
| "exec_ddl (AddColumn n c) f =
     (case f_tables f n of
        None \<Rightarrow> Inl (''no such table: '' @ n)
      | Some t \<Rightarrow>
          if co_name c \<in> column_names t then Inl (''duplicate column name: '' @ co_name c)
          else if co_not_null c \<and> co_default c = VNull then Inl ''Cannot add a NOT NULL column with default value NULL''
          else Inr (f\<lparr>f_tables := (f_tables f)(n \<mapsto>
            t\<lparr>t_columns := t_columns t @ [c], t_rows := map (\<lambda>r. r(co_name c \<mapsto> co_default c)) (t_rows t)\<rparr>)\<rparr>))"

text \<open>
  A script stops at its first error and keeps what it has done; it is not a transaction.
  \<open>fl\<close> has the message of a statement that fails on its own.
\<close>

fun run_script :: "(nat \<Rightarrow> string option) \<Rightarrow> nat \<Rightarrow> ddl list \<Rightarrow> sql_file \<Rightarrow> string option \<times> sql_file" where
  "run_script fl k [] f = (None, f)"
| "run_script fl k (d # ds) f =
     (case fl k of
        Some msg \<Rightarrow> (Some msg, f)
      | None \<Rightarrow> (case exec_ddl d f of Inl msg \<Rightarrow> (Some msg, f) | Inr g \<Rightarrow> run_script fl (Suc k) ds g))"

subsection \<open>The schema\<close>

definition text_col :: "string \<Rightarrow> sql_column" where
  "text_col n = \<lparr>co_name = n, co_type = SqlText, co_not_null = True, co_default = VNull\<rparr>"

definition int_col :: "string \<Rightarrow> sql_column" where
  "int_col n = \<lparr>co_name = n, co_type = SqlInteger, co_not_null = True, co_default = VNull\<rparr>"

definition time_col :: "string \<Rightarrow> sql_column" where
  "time_col n = \<lparr>co_name = n, co_type = SqlInteger, co_not_null = False, co_default = VNull\<rparr>"

definition id_col :: sql_column where
  "id_col = \<lparr>co_name = ''id'', co_type = SqlText, co_not_null = False, co_default = VNull\<rparr>"

definition source_rootfs_col :: sql_column where
  "source_rootfs_col = \<lparr>co_name = ''source_rootfs_path'', co_type = SqlText, co_not_null = True, co_default = VText ''''\<rparr>"

definition sandboxes_v1 :: "sql_column list" where
  "sandboxes_v1 = [id_col, int_col ''pid'', text_col ''vm_id'', text_col ''socket_path'', text_col ''tap_device'',
     text_col ''guest_ip'', int_col ''host_port'', text_col ''rootfs_path'', text_col ''status'', int_col ''created_at'',
     time_col ''stopped_at'']"

definition sandboxes_columns :: "sql_column list" where
  "sandboxes_columns = sandboxes_v1 @ [time_col ''expires_at'']"

definition ports_columns :: "sql_column list" where
  "ports_columns = [text_col ''sandbox_id'', int_col ''guest_port'', int_col ''host_port'']"

definition snapshots_v1 :: "sql_column list" where
  "snapshots_v1 = [id_col, text_col ''source_id'', text_col ''tap_device'', text_col ''guest_ip'', text_col ''mem_path'',
     text_col ''state_path'', text_col ''rootfs_path'', int_col ''created_at'']"

definition snapshots_columns :: "sql_column list" where
  "snapshots_columns = butlast snapshots_v1 @ [source_rootfs_col, last snapshots_v1]"

definition on_running :: "string \<Rightarrow> sql_index" where
  "on_running c = \<lparr>ix_table = ''sandboxes'', ix_columns = [c], ix_where = Some (''status'', VText ''running'')\<rparr>"

definition on_extra_port :: sql_index where
  "on_extra_port = \<lparr>ix_table = ''sandbox_ports'', ix_columns = [''host_port''], ix_where = None\<rparr>"

definition schema :: "ddl list" where
  "schema =
     [CreateTable ''sandboxes'' sandboxes_columns [''id''],
      CreateUniqueIndex ''uniq_tap_running'' (on_running ''tap_device''),
      CreateUniqueIndex ''uniq_ip_running'' (on_running ''guest_ip''),
      CreateUniqueIndex ''uniq_port_running'' (on_running ''host_port''),
      CreateTable ''sandbox_ports'' ports_columns [''sandbox_id'', ''guest_port''],
      CreateUniqueIndex ''uniq_extra_host_port'' on_extra_port,
      CreateTable ''snapshots'' snapshots_columns [''id'']]"

subsection \<open>Opening and closing\<close>

datatype open_call = MkdirParent | OpenDsn | PingConn | SchemaStatement nat | AlterSnapshots | AlterSandboxes

datatype open_error = MkdirDbParent string | OpenError string

text \<open>The machine's database files, and the handles that are open.\<close>

record sql_disk =
  db_files :: "string \<rightharpoonup> sql_file"
  open_handles :: nat

record registry =
  reg_path :: string
  reg_pools :: pools

definition Pools :: "registry \<Rightarrow> pools" where
  "Pools r = reg_pools r"

definition Close :: "sql_disk \<Rightarrow> sql_disk" where
  "Close d = d\<lparr>open_handles := open_handles d - 1\<rparr>"

text \<open>An \<open>ALTER TABLE\<close> whose error is ignored when it says that the column is there.\<close>

definition add_column :: "string option \<Rightarrow> string \<Rightarrow> sql_column \<Rightarrow> sql_file \<Rightarrow> string option \<times> sql_file" where
  "add_column fault n c f =
     (case run_script (\<lambda>_. fault) 0 [AddColumn n c] f of
        (Some msg, g) \<Rightarrow> (if Contains msg ''duplicate column name'' then None else Some msg, g)
      | (None, g) \<Rightarrow> (None, g))"

definition migrate :: "(open_call \<Rightarrow> string option) \<Rightarrow> sql_file \<Rightarrow> string option \<times> sql_file" where
  "migrate fl f =
     (case run_script (\<lambda>k. fl (SchemaStatement k)) 0 schema f of
        (Some err, g) \<Rightarrow> (Some err, g)
      | (None, g) \<Rightarrow>
     (case add_column (fl AlterSnapshots) ''snapshots'' source_rootfs_col g of
        (Some err, h) \<Rightarrow> (Some err, h)
      | (None, h) \<Rightarrow> add_column (fl AlterSandboxes) ''sandboxes'' (time_col ''expires_at'') h))"

text \<open>\<open>sql.Open\<close> only makes the handle; the file is opened, and created, by the first use of the connection.\<close>

definition Open :: "(open_call \<Rightarrow> string option) \<Rightarrow> string \<Rightarrow> pools \<Rightarrow> sql_disk \<Rightarrow> (open_error, registry) result \<times> sql_disk" where
  "Open fl path p d =
     (case fl MkdirParent of Some err \<Rightarrow> (Inl (MkdirDbParent err), d) | None \<Rightarrow>
     (case fl OpenDsn of Some err \<Rightarrow> (Inl (OpenError err), d) | None \<Rightarrow>
        let d = d\<lparr>open_handles := Suc (open_handles d)\<rparr> in
     (case fl PingConn of Some err \<Rightarrow> (Inl (OpenError err), Close d) | None \<Rightarrow>
     (case migrate fl (case db_files d path of None \<Rightarrow> empty_file | Some f \<Rightarrow> f) of (err, g) \<Rightarrow>
        let d = d\<lparr>db_files := (db_files d)(path \<mapsto> g)\<rparr> in
        (case err of Some e \<Rightarrow> (Inl (OpenError e), Close d) | None \<Rightarrow> (Inr \<lparr>reg_path = path, reg_pools = p\<rparr>, d))))))"

subsection \<open>The tables of a file\<close>

definition text_at :: "sql_row \<Rightarrow> string \<Rightarrow> string" where
  "text_at r c = (case r c of Some (VText s) \<Rightarrow> s | _ \<Rightarrow> '''')"

definition int_at :: "sql_row \<Rightarrow> string \<Rightarrow> int" where
  "int_at r c = (case r c of Some (VInt i) \<Rightarrow> i | _ \<Rightarrow> 0)"

definition opt_at :: "sql_row \<Rightarrow> string \<Rightarrow> int option" where
  "opt_at r c = (case r c of Some (VInt i) \<Rightarrow> Some i | _ \<Rightarrow> None)"

definition sandbox_row_of :: "sql_row \<Rightarrow> sandbox_row" where
  "sandbox_row_of r =
     \<lparr>c_id = text_at r ''id'', c_pid = int_at r ''pid'', c_vm_id = text_at r ''vm_id'', c_socket_path = text_at r ''socket_path'',
      c_tap_device = text_at r ''tap_device'', c_guest_ip = text_at r ''guest_ip'', c_host_port = int_at r ''host_port'',
      c_rootfs_path = text_at r ''rootfs_path'', c_status = text_at r ''status'', c_created_at = int_at r ''created_at'',
      c_stopped_at = opt_at r ''stopped_at'', c_expires_at = opt_at r ''expires_at''\<rparr>"

definition port_row_of :: "sql_row \<Rightarrow> port_row" where
  "port_row_of r =
     \<lparr>p_sandbox_id = text_at r ''sandbox_id'', p_guest_port = int_at r ''guest_port'', p_host_port = int_at r ''host_port''\<rparr>"

definition snapshot_row_of :: "sql_row \<Rightarrow> snapshot_row" where
  "snapshot_row_of r =
     \<lparr>n_id = text_at r ''id'', n_source_id = text_at r ''source_id'', n_tap_device = text_at r ''tap_device'',
      n_guest_ip = text_at r ''guest_ip'', n_mem_path = text_at r ''mem_path'', n_state_path = text_at r ''state_path'',
      n_rootfs_path = text_at r ''rootfs_path'', n_source_rootfs_path = text_at r ''source_rootfs_path'',
      n_created_at = int_at r ''created_at''\<rparr>"

definition rows_of :: "sql_file \<Rightarrow> string \<Rightarrow> sql_row list" where
  "rows_of f n = (case f_tables f n of None \<Rightarrow> [] | Some t \<Rightarrow> t_rows t)"

definition db_of :: "sql_file \<Rightarrow> registry_db" where
  "db_of f = \<lparr>sandboxes = map sandbox_row_of (rows_of f ''sandboxes''), sandbox_ports = map port_row_of (rows_of f ''sandbox_ports''),
     snapshots = map snapshot_row_of (rows_of f ''snapshots'')\<rparr>"

subsection \<open>Nothing is lost\<close>

text \<open>The later file has every table, column, value and index of the earlier one.\<close>

definition table_kept :: "sql_table \<Rightarrow> sql_table \<Rightarrow> bool" where
  "table_kept t u \<longleftrightarrow> column_names t \<subseteq> column_names u \<and> t_primary u = t_primary t \<and>
     list_all2 (\<lambda>r r'. \<forall>c \<in> column_names t. r' c = r c) (t_rows t) (t_rows u)"

definition file_kept :: "sql_file \<Rightarrow> sql_file \<Rightarrow> bool" where
  "file_kept f g \<longleftrightarrow> (\<forall>n t. f_tables f n = Some t \<longrightarrow> (\<exists>u. f_tables g n = Some u \<and> table_kept t u)) \<and>
     f_indexes f \<subseteq>\<^sub>m f_indexes g"

lemma table_kept_refl [simp]: "table_kept t t"
  by (simp add: table_kept_def list_all2_refl)

lemma table_kept_trans: "table_kept t u \<Longrightarrow> table_kept u v \<Longrightarrow> table_kept t v"
  unfolding table_kept_def list_all2_conv_all_nth by (simp add: subset_iff)

lemma kept_refl [simp]: "file_kept f f"
  by (simp add: file_kept_def)

lemma kept_trans: "file_kept f g \<Longrightarrow> file_kept g h \<Longrightarrow> file_kept f h"
  unfolding file_kept_def by (blast intro: map_le_trans table_kept_trans)

lemma exec_ddl_kept: "exec_ddl d f = Inr g \<Longrightarrow> file_kept f g"
proof (induction d f rule: exec_ddl.induct)
  case (3 n c f)
  then show ?case
    by (auto simp: file_kept_def table_kept_def column_names_def list_all2_conv_all_nth split: option.splits if_splits)
      (metis image_eqI)+
qed (auto simp: file_kept_def map_le_def split: option.splits if_splits)

lemma run_script_kept: "run_script fl k ds f = (r, g) \<Longrightarrow> file_kept f g"
proof (induction ds arbitrary: k f)
  case (Cons d ds)
  then show ?case
    by (auto split: option.splits sum.splits dest: exec_ddl_kept intro: kept_trans)
qed simp

lemma add_column_kept: "add_column fault n c f = (r, g) \<Longrightarrow> file_kept f g"
  unfolding add_column_def by (auto dest: run_script_kept split: prod.splits option.splits simp del: run_script.simps)

lemma migrate_kept: "migrate fl f = (r, g) \<Longrightarrow> file_kept f g"
  unfolding migrate_def
  by (auto dest!: run_script_kept add_column_kept split: prod.splits option.splits simp del: run_script.simps intro: kept_trans)

text \<open>
  C21: Opening a registry loses nothing, whatever the file holds and whatever fails and where:
  every table keeps its rows, in order, with all the values they had, every index stays, and
  no other file is touched; and the handle stays open exactly when a registry is returned.
\<close>
theorem Open_keeps_rows:
  assumes "Open fl path p d = (r, d')"
  shows "(\<forall>q f. db_files d q = Some f \<longrightarrow> (\<exists>g. db_files d' q = Some g \<and> file_kept f g \<and> (q \<noteq> path \<longrightarrow> g = f))) \<and>
    open_handles d' = open_handles d + (if is_ok r then 1 else 0)"
  using assms unfolding Open_def Close_def Let_def
  by (auto dest!: migrate_kept split: option.splits prod.splits)

subsection \<open>A second opening\<close>

fun ddl_done :: "sql_file \<Rightarrow> ddl \<Rightarrow> bool" where
  "ddl_done f (CreateTable n _ _) \<longleftrightarrow> f_tables f n \<noteq> None"
| "ddl_done f (CreateUniqueIndex n _) \<longleftrightarrow> f_indexes f n \<noteq> None"
| "ddl_done f (AddColumn n c) \<longleftrightarrow> (case f_tables f n of None \<Rightarrow> False | Some t \<Rightarrow> co_name c \<in> column_names t)"

lemma ddl_done_kept: "ddl_done f d \<Longrightarrow> file_kept f g \<Longrightarrow> ddl_done g d"
  by (cases d) (fastforce simp: file_kept_def table_kept_def map_le_def dom_def split: option.splits)+

lemma exec_ddl_done: "exec_ddl d f = Inr g \<Longrightarrow> ddl_done g d"
  by (cases d) (auto simp: column_names_def split: option.splits if_splits)

lemma run_script_done: "run_script fl k ds f = (None, g) \<Longrightarrow> \<forall>d \<in> set ds. ddl_done g d"
proof (induction ds arbitrary: k f)
  case (Cons d ds)
  then show ?case
    by (auto split: option.splits sum.splits dest: run_script_kept exec_ddl_done intro: ddl_done_kept)
qed simp

lemma run_script_again:
  "\<forall>d \<in> set ds. ddl_done f d \<and> (\<forall>n c. d \<noteq> AddColumn n c) \<Longrightarrow> run_script (\<lambda>_. None) k ds f = (None, f)"
proof (induction ds arbitrary: k)
  case (Cons d ds)
  then show ?case by (cases d) auto
qed simp

lemma Contains_prefix: "Contains (s @ t) s"
  by (simp add: Contains_def)

lemma no_default_message: "\<not> Contains ''Cannot add a NOT NULL column with default value NULL'' ''duplicate column name''"
  by code_simp

lemma no_table_messages:
  "\<not> Contains (''no such table: '' @ ''snapshots'') ''duplicate column name''"
  "\<not> Contains (''no such table: '' @ ''sandboxes'') ''duplicate column name''"
  by code_simp+

lemma add_column_done:
  assumes "add_column fault n c f = (None, g)" "\<And>msg. fault = Some msg \<Longrightarrow> \<not> Contains msg ''duplicate column name''"
    and "\<not> Contains (''no such table: '' @ n) ''duplicate column name''"
  shows "ddl_done g (AddColumn n c)"
proof (cases fault)
  case None
  show ?thesis
  proof (cases "exec_ddl (AddColumn n c) f")
    case (Inr h)
    with assms(1) None exec_ddl_done [OF Inr] show ?thesis by (simp add: add_column_def del: exec_ddl.simps)
  next
    case (Inl msg)
    then have "g = f" "Contains msg ''duplicate column name''"
      using assms(1) None by (simp_all add: add_column_def del: exec_ddl.simps split: if_splits)
    with Inl assms(3) no_default_message show ?thesis by (auto split: option.splits if_splits)
  qed
next
  case (Some msg)
  with assms show ?thesis by (auto simp: add_column_def)
qed

lemma add_column_again: "ddl_done f (AddColumn n c) \<Longrightarrow> add_column None n c f = (None, f)"
  using Contains_prefix [of "''duplicate column name''" "'': '' @ co_name c"]
  by (auto simp: add_column_def split: option.splits)

text \<open>
  Opening is idempotent: opening a file again that was opened before succeeds, whatever
  happened to be in it at first, and changes nothing.
\<close>
theorem Open_again:
  assumes "Open fl path p d = (Inr r, d')"
    and "\<And>c msg. fl c = Some msg \<Longrightarrow> \<not> Contains msg ''duplicate column name''"
  shows "Open (\<lambda>_. None) path q d' = (Inr \<lparr>reg_path = path, reg_pools = q\<rparr>, d'\<lparr>open_handles := Suc (open_handles d')\<rparr>)"
proof -
  obtain f g where m: "migrate fl f = (None, g)" and d': "db_files d' path = Some g"
    using assms(1) by (auto simp: Open_def Let_def split: option.splits prod.splits)
  from m obtain g1 g2 where 1: "run_script (\<lambda>k. fl (SchemaStatement k)) 0 schema f = (None, g1)"
    and 2: "add_column (fl AlterSnapshots) ''snapshots'' source_rootfs_col g1 = (None, g2)"
    and 3: "add_column (fl AlterSandboxes) ''sandboxes'' (time_col ''expires_at'') g2 = (None, g)"
    by (auto simp: migrate_def split: option.splits prod.splits)
  have file_kept: "file_kept g1 g2" "file_kept g2 g" using 2 3 by (auto dest: add_column_kept)
  have "\<forall>d \<in> set schema. ddl_done g d"
    using run_script_done [OF 1] file_kept by (blast intro: ddl_done_kept)
  moreover have "\<forall>d \<in> set schema. \<forall>n c. d \<noteq> AddColumn n c" by (simp add: schema_def)
  ultimately have "run_script (\<lambda>_. None) 0 schema g = (None, g)" by (intro run_script_again) blast
  moreover have "ddl_done g (AddColumn ''snapshots'' source_rootfs_col)"
    using add_column_done [OF 2 _ no_table_messages(1)] assms(2) file_kept(2) by (blast intro: ddl_done_kept)
  moreover have "ddl_done g (AddColumn ''sandboxes'' (time_col ''expires_at''))"
    using add_column_done [OF 3 _ no_table_messages(2)] assms(2) by blast
  ultimately have "migrate (\<lambda>_. None) g = (None, g)"
    by (simp add: migrate_def add_column_again del: ddl_done.simps)
  moreover have "(db_files d')(path \<mapsto> g) = db_files d'" using d' by auto
  ultimately show ?thesis using d' by (simp add: Open_def Let_def)
qed

subsection \<open>Older files\<close>

definition value_fits :: "sql_column \<Rightarrow> sql_value option \<Rightarrow> bool" where
  "value_fits c v \<longleftrightarrow> (case v of
     None \<Rightarrow> False
   | Some VNull \<Rightarrow> \<not> co_not_null c
   | Some (VInt _) \<Rightarrow> co_type c = SqlInteger
   | Some (VText _) \<Rightarrow> co_type c = SqlText)"

definition well_typed :: "sql_table \<Rightarrow> bool" where
  "well_typed t \<longleftrightarrow> (\<forall>r \<in> set (t_rows t). dom r = column_names t \<and> (\<forall>c \<in> set (t_columns t). value_fits c (r (co_name c))))"

text \<open>The column lists the tables have had; a column added later stands at the end.\<close>

definition versions :: "string \<Rightarrow> sql_column list list" where
  "versions n =
     (if n = ''sandboxes'' then [sandboxes_v1, sandboxes_columns]
      else if n = ''sandbox_ports'' then [ports_columns]
      else if n = ''snapshots'' then [snapshots_v1, snapshots_columns, snapshots_v1 @ [source_rootfs_col]]
      else [])"

definition indexes :: "(string \<times> sql_index) list" where
  "indexes = [(''uniq_tap_running'', on_running ''tap_device''), (''uniq_ip_running'', on_running ''guest_ip''),
     (''uniq_port_running'', on_running ''host_port''), (''uniq_extra_host_port'', on_extra_port)]"

text \<open>A file some version of the program has made: nothing yet, or some of the tables, each in a version.\<close>

definition shipped :: "sql_file \<Rightarrow> bool" where
  "shipped f \<longleftrightarrow> (\<forall>n t. f_tables f n = Some t \<longrightarrow> t_columns t \<in> set (versions n) \<and> well_typed t) \<and>
     f_indexes f \<subseteq>\<^sub>m map_of indexes"

definition current :: "sql_file \<Rightarrow> bool" where
  "current f \<longleftrightarrow> f_indexes f = map_of indexes \<and>
     (\<exists>t u v. f_tables f = [''sandboxes'' \<mapsto> t, ''sandbox_ports'' \<mapsto> u, ''snapshots'' \<mapsto> v] \<and>
        set (t_columns t) = set sandboxes_columns \<and> set (t_columns u) = set ports_columns \<and>
        set (t_columns v) = set snapshots_columns \<and> well_typed t \<and> well_typed u \<and> well_typed v)"

lemmas column_defs = sandboxes_columns_def sandboxes_v1_def ports_columns_def snapshots_columns_def snapshots_v1_def
  source_rootfs_col_def id_col_def text_col_def int_col_def time_col_def

definition good :: "sql_file \<Rightarrow> bool" where
  "good f \<longleftrightarrow> shipped f \<and> schema_ok (db_of f)"

lemma distinct_keys:
  assumes "\<And>r. r \<in> set rs \<Longrightarrow> indexed ix r \<Longrightarrow> P (g r) \<and> map r (ix_columns ix) = [K (h (g r))]" "inj K"
    and "distinct (map h (filter P (map g rs)))"
  shows "distinct (index_keys ix rs)"
  using assms(1,3)
proof (induction rs)
  case (Cons r rs)
  then have "distinct (index_keys ix rs)" by (auto split: if_splits)
  moreover have "map r (ix_columns ix) \<notin> set (index_keys ix rs)" if "indexed ix r"
  proof
    assume "map r (ix_columns ix) \<in> set (index_keys ix rs)"
    then obtain q where q: "q \<in> set rs" "indexed ix q" "map q (ix_columns ix) = map r (ix_columns ix)"
      by (auto simp: index_keys_def)
    then have "P (g q)" "P (g r)" "h (g q) = h (g r)"
      using Cons.prems(1) [of q] Cons.prems(1) [of r] that assms(2) by (auto dest: injD)
    then show False using Cons.prems(2) q(1) by (auto simp: image_iff)
  qed
  ultimately show ?case by (simp add: index_keys_def)
qed (simp add: index_keys_def)

lemma text_value:
  assumes "well_typed t" "text_col n \<in> set (t_columns t)" "r \<in> set (t_rows t)"
  shows "r n = Some (VText (text_at r n))"
  using assms unfolding well_typed_def
  by (fastforce simp: value_fits_def text_col_def text_at_def split: option.splits sql_value.splits)

lemma int_value:
  assumes "well_typed t" "int_col n \<in> set (t_columns t)" "r \<in> set (t_rows t)"
  shows "r n = Some (VInt (int_at r n))"
  using assms unfolding well_typed_def
  by (fastforce simp: value_fits_def int_col_def int_at_def split: option.splits sql_value.splits)

lemma versions_columns:
  "cs \<in> set (versions ''sandboxes'') \<Longrightarrow>
     {text_col ''tap_device'', text_col ''guest_ip'', int_col ''host_port'', text_col ''status''} \<subseteq> set cs"
  "cs \<in> set (versions ''sandbox_ports'') \<Longrightarrow> int_col ''host_port'' \<in> set cs"
  by (auto simp: versions_def column_defs)

lemma goodD:
  assumes "good f" "f_tables f n = Some t"
  shows "t_columns t \<in> set (versions n)" "well_typed t" "rows_of f n = t_rows t"
  using assms by (auto simp: good_def shipped_def rows_of_def)

lemma running_row: "r ''status'' = Some (VText ''running'') \<Longrightarrow> running (sandbox_row_of r)"
  by (simp add: running_def sandbox_row_of_def text_at_def StatusRunning_def)

lemma unique_columns:
  "c_tap_device (sandbox_row_of r) = text_at r ''tap_device''" "c_guest_ip (sandbox_row_of r) = text_at r ''guest_ip''"
  "c_host_port (sandbox_row_of r) = int_at r ''host_port''" "p_host_port (port_row_of r) = int_at r ''host_port''"
  by (simp_all add: sandbox_row_of_def port_row_of_def)

text \<open>The rows a registry has written satisfy every index of the schema.\<close>

lemma keys_ok:
  assumes "good f" "(n, ix) \<in> set indexes" "f_tables f (ix_table ix) = Some t"
  shows "distinct (index_keys ix (t_rows t))"
proof -
  note gd = goodD [OF assms(1) assms(3)]
  have ok: "schema_ok (db_of f)" using assms(1) by (simp add: good_def)
  consider "ix = on_running ''tap_device''" | "ix = on_running ''guest_ip''" | "ix = on_running ''host_port''" | "ix = on_extra_port"
    using assms(2) by (auto simp: indexes_def)
  then show ?thesis
  proof cases
    case 1
    with gd have "distinct (map c_tap_device (filter running (map sandbox_row_of (t_rows t))))" "text_col ''tap_device'' \<in> set (t_columns t)"
      using ok versions_columns(1) by (auto simp: schema_ok_def db_of_def on_running_def)
    with 1 gd(2) show ?thesis
      by (intro distinct_keys [where g = sandbox_row_of and h = c_tap_device and K = "\<lambda>x. Some (VText x)" and P = running])
        (auto simp: on_running_def indexed_def running_row unique_columns inj_def dest: text_value)
  next
    case 2
    with gd have "distinct (map c_guest_ip (filter running (map sandbox_row_of (t_rows t))))" "text_col ''guest_ip'' \<in> set (t_columns t)"
      using ok versions_columns(1) by (auto simp: schema_ok_def db_of_def on_running_def)
    with 2 gd(2) show ?thesis
      by (intro distinct_keys [where g = sandbox_row_of and h = c_guest_ip and K = "\<lambda>x. Some (VText x)" and P = running])
        (auto simp: on_running_def indexed_def running_row unique_columns inj_def dest: text_value)
  next
    case 3
    with gd have "distinct (map c_host_port (filter running (map sandbox_row_of (t_rows t))))" "int_col ''host_port'' \<in> set (t_columns t)"
      using ok versions_columns(1) by (auto simp: schema_ok_def db_of_def on_running_def)
    with 3 gd(2) show ?thesis
      by (intro distinct_keys [where g = sandbox_row_of and h = c_host_port and K = "\<lambda>x. Some (VInt x)" and P = running])
        (auto simp: on_running_def indexed_def running_row unique_columns inj_def dest: int_value)
  next
    case 4
    with gd have "distinct (map p_host_port (filter (\<lambda>_. True) (map port_row_of (t_rows t))))" "int_col ''host_port'' \<in> set (t_columns t)"
      using ok versions_columns(2) by (auto simp: schema_ok_def db_of_def on_extra_port_def)
    with 4 gd(2) show ?thesis
      by (intro distinct_keys [where g = port_row_of and h = p_host_port and K = "\<lambda>x. Some (VInt x)" and P = "\<lambda>_. True"])
        (auto simp: on_extra_port_def unique_columns inj_def dest: int_value)
  qed
qed

text \<open>Statements of the schema, given the tables there are.\<close>

fun schema_part :: "string set \<Rightarrow> ddl \<Rightarrow> bool" where
  "schema_part T (CreateTable n cs _) \<longleftrightarrow> cs \<in> set (versions n)"
| "schema_part T (CreateUniqueIndex n ix) \<longleftrightarrow> (n, ix) \<in> set indexes \<and> ix_table ix \<in> T"
| "schema_part T (AddColumn _ _) \<longleftrightarrow> False"

fun script_ok :: "string set \<Rightarrow> ddl list \<Rightarrow> bool" where
  "script_ok T [] \<longleftrightarrow> True"
| "script_ok T (d # ds) \<longleftrightarrow> schema_part T d \<and> script_ok (case d of CreateTable n _ _ \<Rightarrow> insert n T | _ \<Rightarrow> T) ds"

lemma schema_script: "script_ok {} schema"
  by (simp add: schema_def versions_def indexes_def on_running_def on_extra_port_def)

lemma index_columns:
  assumes "good f" "(n, ix) \<in> set indexes" "f_tables f (ix_table ix) = Some t"
  shows "set (ix_columns ix @ (case ix_where ix of None \<Rightarrow> [] | Some (c, _) \<Rightarrow> [c])) \<subseteq> column_names t"
  using assms(2) goodD(1) [OF assms(1,3)]
  by (auto simp: indexes_def on_running_def on_extra_port_def versions_def column_names_def column_defs)

lemma map_of_indexes: "(n, ix) \<in> set indexes \<Longrightarrow> map_of indexes n = Some ix"
  by (auto simp: indexes_def)

lemma schema_step:
  assumes "good f" "T \<subseteq> dom (f_tables f)" "schema_part T d"
  shows "\<exists>g. exec_ddl d f = Inr g \<and> good g \<and> db_of g = db_of f"
proof (cases d)
  case (CreateTable n cs pk)
  show ?thesis
  proof (cases "f_tables f n")
    case None
    let ?g = "f\<lparr>f_tables := (f_tables f)(n \<mapsto> \<lparr>t_columns = cs, t_primary = pk, t_rows = []\<rparr>)\<rparr>"
    have rows: "rows_of ?g m = rows_of f m" for m using None by (simp add: rows_of_def)
    then have "db_of ?g = db_of f" by (simp add: db_of_def)
    moreover have "shipped ?g"
      using assms(1,3) CreateTable by (auto simp: good_def shipped_def well_typed_def)
    ultimately show ?thesis using assms(1) None CreateTable by (simp add: good_def)
  qed (use assms(1) CreateTable in simp)
next
  case (CreateUniqueIndex n ix)
  show ?thesis
  proof (cases "f_indexes f n")
    case None
    let ?g = "f\<lparr>f_indexes := (f_indexes f)(n \<mapsto> ix)\<rparr>"
    from assms(2,3) CreateUniqueIndex obtain t where t: "f_tables f (ix_table ix) = Some t" "(n, ix) \<in> set indexes" by auto
    have "exec_ddl d f = Inr ?g"
      using None CreateUniqueIndex t(1) keys_ok [OF assms(1) t(2,1)] index_columns [OF assms(1) t(2,1)]
      by (simp del: set_append)
    moreover have "shipped ?g"
      using assms(1) t(2) map_of_indexes [OF t(2)] by (auto simp: good_def shipped_def map_le_def)
    moreover have "db_of ?g = db_of f" by (simp add: db_of_def rows_of_def)
    ultimately show ?thesis using assms(1) by (simp add: good_def)
  qed (use assms(1) CreateUniqueIndex in simp)
qed (use assms(3) in simp)

lemma run_good:
  "good f \<Longrightarrow> T \<subseteq> dom (f_tables f) \<Longrightarrow> script_ok T ds \<Longrightarrow>
     \<exists>g. run_script (\<lambda>_. None) k ds f = (None, g) \<and> good g \<and> db_of g = db_of f"
proof (induction ds arbitrary: f T k)
  case (Cons d ds)
  from Cons.prems(3) have part: "schema_part T d" by simp
  from schema_step [OF Cons.prems(1,2) part] obtain g where g: "exec_ddl d f = Inr g" "good g" "db_of g = db_of f" by blast
  have "T \<subseteq> dom (f_tables g)" using exec_ddl_kept [OF g(1)] Cons.prems(2) by (fastforce simp: file_kept_def)
  moreover have "ddl_done g d" by (rule exec_ddl_done [OF g(1)])
  ultimately have "(case d of CreateTable n _ _ \<Rightarrow> insert n T | _ \<Rightarrow> T) \<subseteq> dom (f_tables g)"
    by (cases d) auto
  from Cons.IH [OF g(2) this, of "Suc k"] Cons.prems(3) g show ?case by auto
qed simp

text \<open>The two columns added later, on tables of any version.\<close>

definition later :: "(string \<times> sql_column) list" where
  "later = [(''snapshots'', source_rootfs_col), (''sandboxes'', time_col ''expires_at'')]"

lemma later_names:
  "co_name source_rootfs_col \<in> co_name ` set snapshots_columns" "co_name source_rootfs_col \<notin> co_name ` set snapshots_v1"
  "co_name (time_col ''expires_at'') \<in> co_name ` set sandboxes_columns"
  "co_name (time_col ''expires_at'') \<notin> co_name ` set sandboxes_v1"
  by (simp_all add: column_defs)

lemma versions_later:
  "cs \<in> set (versions ''snapshots'') \<Longrightarrow> co_name source_rootfs_col \<notin> co_name ` set cs \<Longrightarrow> cs = snapshots_v1"
  "cs \<in> set (versions ''sandboxes'') \<Longrightarrow> co_name (time_col ''expires_at'') \<notin> co_name ` set cs \<Longrightarrow> cs = sandboxes_v1"
  "cs \<in> set (versions ''snapshots'') \<Longrightarrow> co_name source_rootfs_col \<in> co_name ` set cs \<Longrightarrow> set cs = set snapshots_columns"
  "cs \<in> set (versions ''sandboxes'') \<Longrightarrow> co_name (time_col ''expires_at'') \<in> co_name ` set cs \<Longrightarrow> cs = sandboxes_columns"
  "cs \<in> set (versions ''sandbox_ports'') \<Longrightarrow> cs = ports_columns"
proof -
  have same: "set (snapshots_v1 @ [source_rootfs_col]) = set snapshots_columns"
    by (simp add: snapshots_columns_def snapshots_v1_def) blast
  show "cs \<in> set (versions ''snapshots'') \<Longrightarrow> co_name source_rootfs_col \<notin> co_name ` set cs \<Longrightarrow> cs = snapshots_v1"
    and "cs \<in> set (versions ''snapshots'') \<Longrightarrow> co_name source_rootfs_col \<in> co_name ` set cs \<Longrightarrow> set cs = set snapshots_columns"
    using later_names(1,2) same by (auto simp: versions_def)
qed (use later_names(3,4) in \<open>auto simp: versions_def\<close>)

lemma add_column_good:
  assumes "good f" "(n, c) \<in> set later" "f_tables f n \<noteq> None"
  shows "\<exists>g. add_column None n c f = (None, g) \<and> good g \<and> db_of g = db_of f"
proof (cases "ddl_done f (AddColumn n c)")
  case True
  with add_column_again [OF True] assms(1) show ?thesis by blast
next
  case False
  obtain t where t: "f_tables f n = Some t" using assms(3) by blast
  note gd = goodD [OF assms(1) t]
  let ?u = "t\<lparr>t_columns := t_columns t @ [c], t_rows := map (\<lambda>r. r(co_name c \<mapsto> co_default c)) (t_rows t)\<rparr>"
  let ?g = "f\<lparr>f_tables := (f_tables f)(n \<mapsto> ?u)\<rparr>"
  have fresh: "co_name c \<notin> column_names t" using False t by simp
  have "value_fits c (Some (co_default c))" "co_not_null c \<longrightarrow> co_default c \<noteq> VNull"
    using assms(2) by (auto simp: later_def value_fits_def source_rootfs_col_def time_col_def)
  then have run: "add_column None n c f = (None, ?g)"
    using fresh t by (auto simp: add_column_def)
  have old: "r (co_name c) = None" if "r \<in> set (t_rows t)" for r
    using gd(2) that fresh by (auto simp: well_typed_def)
  have other: "co_name c' \<noteq> co_name c" if "c' \<in> set (t_columns t)" for c'
    using fresh that by (metis column_names_def image_eqI)
  have value_fits: "well_typed ?u"
    using gd(2) other \<open>value_fits c (Some (co_default c))\<close> by (auto simp: well_typed_def column_names_def)
  have columns: "t_columns t @ [c] \<in> set (versions n)"
  proof -
    consider "n = ''snapshots''" "c = source_rootfs_col" | "n = ''sandboxes''" "c = time_col ''expires_at''"
      using assms(2) by (auto simp: later_def)
    then show ?thesis
    proof cases
      case 1
      with gd(1) fresh versions_later(1) have "t_columns t = snapshots_v1" by (simp add: column_names_def)
      with 1 show ?thesis by (simp add: versions_def)
    next
      case 2
      with gd(1) fresh versions_later(2) have "t_columns t = sandboxes_v1" by (simp add: column_names_def)
      with 2 show ?thesis by (simp add: versions_def sandboxes_columns_def)
    qed
  qed
  have "shipped ?g" using assms(1) value_fits columns by (simp add: good_def shipped_def)
  have rows: "rows_of ?g m = (if m = n then map (\<lambda>r. r(co_name c \<mapsto> co_default c)) (rows_of f n) else rows_of f m)" for m
    using t by (simp add: rows_of_def)
  have same: "sandbox_row_of (r(co_name c \<mapsto> co_default c)) = sandbox_row_of r" if "r \<in> set (t_rows t)" "n = ''sandboxes''" for r
    using old [OF that(1)] that(2) assms(2) by (auto simp: later_def time_col_def sandbox_row_of_def text_at_def int_at_def opt_at_def)
  have same': "snapshot_row_of (r(co_name c \<mapsto> co_default c)) = snapshot_row_of r" if "r \<in> set (t_rows t)" "n = ''snapshots''" for r
    using old [OF that(1)] that(2) assms(2) by (auto simp: later_def source_rootfs_col_def snapshot_row_of_def text_at_def int_at_def)
  have "n = ''sandboxes'' \<or> n = ''snapshots''" using assms(2) by (auto simp: later_def)
  then have "db_of ?g = db_of f"
    using same same' gd(3) by (auto simp: db_of_def rows)
  with \<open>shipped ?g\<close> run assms(1) show ?thesis by (simp add: good_def)
qed

text \<open>
  C14: Opening brings the file of any earlier version up to date: it succeeds, every table has
  the columns and every index of the current schema, and the registry is as it was, with no
  deadline and no source rootfs where the column was missing. A file that is not there is
  created with the empty registry.
\<close>
theorem Open_upgrades:
  assumes "f = (case db_files d path of None \<Rightarrow> empty_file | Some f \<Rightarrow> f)" "shipped f" "schema_ok (db_of f)"
  shows "\<exists>g. Open (\<lambda>_. None) path p d =
      (Inr \<lparr>reg_path = path, reg_pools = p\<rparr>, \<lparr>db_files = (db_files d)(path \<mapsto> g), open_handles = Suc (open_handles d)\<rparr>) \<and>
    current g \<and> db_of g = db_of f"
proof -
  have "good f" using assms(2,3) by (simp add: good_def)
  from run_good [OF this _ schema_script, of 0] obtain g1 where
    1: "run_script (\<lambda>_. None) 0 schema f = (None, g1)" "good g1" "db_of g1 = db_of f" by auto
  have d1: "\<forall>d \<in> set schema. ddl_done g1 d" by (rule run_script_done [OF 1(1)])
  then have "f_tables g1 ''snapshots'' \<noteq> None" by (simp add: schema_def)
  with add_column_good [OF 1(2), of "''snapshots''" source_rootfs_col] obtain g2 where
    2: "add_column None ''snapshots'' source_rootfs_col g1 = (None, g2)" "good g2" "db_of g2 = db_of g1"
    by (auto simp: later_def)
  have d2: "\<forall>d \<in> set schema. ddl_done g2 d" "ddl_done g2 (AddColumn ''snapshots'' source_rootfs_col)"
    using d1 add_column_kept [OF 2(1)] add_column_done [OF 2(1) _ no_table_messages(1)]
    by (auto intro: ddl_done_kept simp del: ddl_done.simps)
  then have "f_tables g2 ''sandboxes'' \<noteq> None" by (simp add: schema_def)
  with add_column_good [OF 2(2), of "''sandboxes''" "time_col ''expires_at''"] obtain g where
    3: "add_column None ''sandboxes'' (time_col ''expires_at'') g2 = (None, g)" "good g" "db_of g = db_of g2"
    by (auto simp: later_def)
  have all: "\<forall>d \<in> set schema. ddl_done g d" "ddl_done g (AddColumn ''snapshots'' source_rootfs_col)"
      "ddl_done g (AddColumn ''sandboxes'' (time_col ''expires_at''))"
    using d2 add_column_kept [OF 3(1)] add_column_done [OF 3(1) _ no_table_messages(2)]
    by (auto intro: ddl_done_kept simp del: ddl_done.simps)
  have "migrate (\<lambda>_. None) f = (None, g)" using 1(1) 2(1) 3(1) by (simp add: migrate_def)
  moreover have "current g"
  proof -
    obtain t u v where tabs: "f_tables g ''sandboxes'' = Some t" "f_tables g ''sandbox_ports'' = Some u" "f_tables g ''snapshots'' = Some v"
      using all(1) by (auto simp: schema_def)
    have "f_tables g n = None" if "n \<noteq> ''sandboxes''" "n \<noteq> ''sandbox_ports''" "n \<noteq> ''snapshots''" for n
      using goodD(1) [OF 3(2), of n] that by (cases "f_tables g n") (auto simp: versions_def)
    with tabs have "f_tables g = [''sandboxes'' \<mapsto> t, ''sandbox_ports'' \<mapsto> u, ''snapshots'' \<mapsto> v]" by (auto simp: fun_eq_iff)
    moreover have "set (t_columns t) = set sandboxes_columns" "set (t_columns u) = set ports_columns" "set (t_columns v) = set snapshots_columns"
      using versions_later(4) [OF goodD(1) [OF 3(2) tabs(1)]] versions_later(5) [OF goodD(1) [OF 3(2) tabs(2)]]
        versions_later(3) [OF goodD(1) [OF 3(2) tabs(3)]] all(2,3) tabs
      by (simp_all add: column_names_def)
    moreover have "f_indexes g = map_of indexes"
    proof (rule map_le_antisym)
      show "f_indexes g \<subseteq>\<^sub>m map_of indexes" using 3(2) by (simp add: good_def shipped_def)
      have "dom (map_of indexes) \<subseteq> dom (f_indexes g)"
        using all(1) by (auto simp: schema_def indexes_def split: if_splits)
      with \<open>f_indexes g \<subseteq>\<^sub>m map_of indexes\<close> show "map_of indexes \<subseteq>\<^sub>m f_indexes g"
        unfolding map_le_def by (metis domD domI subsetD)
    qed
    ultimately show ?thesis using goodD(2) [OF 3(2)] tabs unfolding current_def by blast
  qed
  ultimately show ?thesis
    using assms(1) 1(3) 2(3) 3(3) by (intro exI [of _ g]) (cases d; simp add: Open_def Let_def)
qed

subsection \<open>A first-version file\<close>

definition v1_row :: sql_row where
  "v1_row = [''id'' \<mapsto> VText ''a'', ''pid'' \<mapsto> VInt 4711, ''vm_id'' \<mapsto> VText ''v'', ''socket_path'' \<mapsto> VText ''/s'',
     ''tap_device'' \<mapsto> VText ''fc0'', ''guest_ip'' \<mapsto> VText ''172.16.0.10'', ''host_port'' \<mapsto> VInt 5200,
     ''rootfs_path'' \<mapsto> VText ''/r/a.ext4'', ''status'' \<mapsto> VText ''running'', ''created_at'' \<mapsto> VInt 7, ''stopped_at'' \<mapsto> VNull]"

definition v1_file :: sql_file where
  "v1_file = \<lparr>f_tables = [''sandboxes'' \<mapsto> \<lparr>t_columns = sandboxes_v1, t_primary = [''id''], t_rows = [v1_row]\<rparr>],
     f_indexes = [''uniq_tap_running'' \<mapsto> on_running ''tap_device'']\<rparr>"

lemma v1_shipped: "shipped v1_file"
  by (simp add: shipped_def v1_file_def versions_def indexes_def)
    (auto simp: well_typed_def v1_row_def column_names_def column_defs value_fits_def)

lemma v1_db: "db_of v1_file = \<lparr>sandboxes = [sandbox_row_of v1_row], sandbox_ports = [], snapshots = []\<rparr>"
  by (simp add: db_of_def rows_of_def v1_file_def)

lemma one_row_ok: "schema_ok \<lparr>sandboxes = [r], sandbox_ports = [], snapshots = []\<rparr>"
  by (simp add: schema_ok_def)

lemma v1_good: "good v1_file"
  by (simp add: good_def v1_shipped v1_db one_row_ok)

theorem Open_upgrades_witness:
  "\<exists>g. Open (\<lambda>_. None) ''/x.db'' sample_pools \<lparr>db_files = [''/x.db'' \<mapsto> v1_file], open_handles = 0\<rparr> =
      (Inr \<lparr>reg_path = ''/x.db'', reg_pools = sample_pools\<rparr>, \<lparr>db_files = [''/x.db'' \<mapsto> g], open_handles = 1\<rparr>) \<and>
    current g \<and> (\<exists>r. sandboxes (db_of g) = [r] \<and> c_id r = ''a'' \<and> c_expires_at r = None)"
proof -
  let ?d = "\<lparr>db_files = [''/x.db'' \<mapsto> v1_file], open_handles = 0\<rparr>"
  have here: "v1_file = (case db_files ?d ''/x.db'' of None \<Rightarrow> empty_file | Some f \<Rightarrow> f)" by simp
  have "schema_ok (db_of v1_file)" by (simp add: v1_db one_row_ok)
  from Open_upgrades [OF here v1_shipped this, of sample_pools] obtain g where
    g: "Open (\<lambda>_. None) ''/x.db'' sample_pools ?d = (Inr \<lparr>reg_path = ''/x.db'', reg_pools = sample_pools\<rparr>, \<lparr>db_files = [''/x.db'' \<mapsto> g], open_handles = 1\<rparr>)"
      "current g" "db_of g = db_of v1_file" by auto
  have "c_id (sandbox_row_of v1_row) = ''a''" "c_expires_at (sandbox_row_of v1_row) = None"
    by (simp_all add: sandbox_row_of_def text_at_def opt_at_def v1_row_def)
  moreover have "sandboxes (db_of g) = [sandbox_row_of v1_row]" using g(3) by (simp add: v1_db)
  ultimately show ?thesis using g(1,2) by blast
qed

theorem Open_again_witness:
  "\<exists>d. Open (\<lambda>_. None) ''/x.db'' sample_pools \<lparr>db_files = Map.empty, open_handles = 0\<rparr> = (Inr \<lparr>reg_path = ''/x.db'', reg_pools = sample_pools\<rparr>, d) \<and>
     Open (\<lambda>_. None) ''/x.db'' sample_pools d = (Inr \<lparr>reg_path = ''/x.db'', reg_pools = sample_pools\<rparr>, d\<lparr>open_handles := 2\<rparr>)"
proof -
  let ?d = "\<lparr>db_files = Map.empty, open_handles = 0\<rparr>"
  have "good empty_file"
    by (simp add: good_def shipped_def empty_file_def db_of_def rows_of_def schema_ok_def)
  from run_good [OF this _ schema_script, of 0] obtain g1 where
    1: "run_script (\<lambda>_. None) 0 schema empty_file = (None, g1)" "good g1" by auto
  have d1: "\<forall>d \<in> set schema. ddl_done g1 d" by (rule run_script_done [OF 1(1)])
  then have "f_tables g1 ''snapshots'' \<noteq> None" by (simp add: schema_def)
  with add_column_good [OF 1(2), of "''snapshots''" source_rootfs_col] obtain g2 where
    2: "add_column None ''snapshots'' source_rootfs_col g1 = (None, g2)" "good g2" by (auto simp: later_def)
  have "\<forall>d \<in> set schema. ddl_done g2 d" using d1 add_column_kept [OF 2(1)] by (blast intro: ddl_done_kept)
  then have "f_tables g2 ''sandboxes'' \<noteq> None" by (simp add: schema_def)
  with add_column_good [OF 2(2), of "''sandboxes''" "time_col ''expires_at''"] obtain g where
    3: "add_column None ''sandboxes'' (time_col ''expires_at'') g2 = (None, g)" by (auto simp: later_def)
  obtain d where d: "Open (\<lambda>_. None) ''/x.db'' sample_pools ?d = (Inr \<lparr>reg_path = ''/x.db'', reg_pools = sample_pools\<rparr>, d)" "open_handles d = 1"
    using 1(1) 2(1) 3 by (simp add: Open_def migrate_def Let_def)
  from Open_again [OF d(1), of sample_pools] d show ?thesis by (simp add: numeral_2_eq_2)
qed

theorem Open_keeps_rows_witness:
  "\<exists>d' g. Open (\<lambda>c. if c = SchemaStatement 2 then Some ''disk full'' else None) ''/x.db'' sample_pools
       \<lparr>db_files = [''/x.db'' \<mapsto> v1_file], open_handles = 0\<rparr> = (Inl (OpenError ''disk full''), d') \<and>
     db_files d' ''/x.db'' = Some g \<and> file_kept v1_file g \<and> open_handles d' = 0"
proof -
  let ?fl = "\<lambda>c. if c = SchemaStatement 2 then Some ''disk full'' else None"
  let ?d = "\<lparr>db_files = [''/x.db'' \<mapsto> v1_file], open_handles = 0\<rparr>"
  obtain r d' where run: "Open ?fl ''/x.db'' sample_pools ?d = (r, d')" by fastforce
  have "run_script (\<lambda>k. ?fl (SchemaStatement k)) 0 schema v1_file = (Some ''disk full'', v1_file)"
    by (simp add: schema_def v1_file_def numeral_2_eq_2)
  then have "migrate ?fl v1_file = (Some ''disk full'', v1_file)" by (simp add: migrate_def)
  then have r: "r = Inl (OpenError ''disk full'')" using run by (auto simp: Open_def Let_def)
  have here: "db_files ?d ''/x.db'' = Some v1_file" by simp
  from Open_keeps_rows [OF run, THEN conjunct1, rule_format, OF here] obtain g' where
    "db_files d' ''/x.db'' = Some g'" "file_kept v1_file g'" by blast
  moreover have "open_handles d' = 0" using Open_keeps_rows [OF run] r by simp
  ultimately show ?thesis using run r by blast
qed

end
