(* ===== verification/Cidr.thy ===== *)
theory Cidr
  imports Netaddr Paths
begin

text \<open>
  \<open>net.ParseCIDR\<close> and the printing of a network, as \<open>EnsureNetwork\<close>
  (\<open>internal/provisioner/provisioner.go\<close>) and \<open>buildNetworkInterface\<close>
  (\<open>internal/vm/machine_linux.go\<close>) use them: the bridge address becomes the subnet of the
  masquerading rule, the guest address a static configuration.
\<close>

subsection \<open>Parsing\<close>

text \<open>The decimal number at the front of a string; none for no digits or a value from 0xFFFFFF.\<close>

fun dtoi :: "nat \<Rightarrow> nat \<Rightarrow> string \<Rightarrow> (nat \<times> string) option" where
  "dtoi k n [] = (if k = 0 then None else Some (n, []))"
| "dtoi k n (c # cs) =
     (if is_digit c then
        (let v = n * 10 + digit_val c in if v \<ge> 16777215 then None else dtoi (Suc k) v cs)
      else if k = 0 then None else Some (n, c # cs))"

text \<open>Eight bits of a mask whose first \<open>n\<close> bits are set.\<close>

definition mask_byte :: "nat \<Rightarrow> u8" where
  "mask_byte n = (if n \<ge> 8 then 255 else of_nat (256 - 2 ^ (8 - n)))"

definition apply_mask :: "nat \<Rightarrow> u8 list \<Rightarrow> u8 list" where
  "apply_mask n bs = map (\<lambda>i. bs ! i AND mask_byte (n - 8 * i)) [0..<length bs]"

text \<open>
  The result: the address in sixteen bytes, the address of the network (four bytes when the
  text was dotted) and the length of the prefix.
\<close>

definition ParseCIDR :: "string \<Rightarrow> (u8 list \<times> u8 list \<times> nat) option" where
  "ParseCIDR s =
     (case split_at slash s of
        addr # m # ms \<Rightarrow>
          (case (ParseIP addr, dtoi 0 0 (join_with [slash] (m # ms))) of
             (Some ip, Some (n, [])) \<Rightarrow>
               (let dot = (find (\<lambda>c. c = CHR ''.'' \<or> c = CHR '':'') addr = Some (CHR ''.''));
                    bits = (if dot then 32 else 128) in
                if n > bits then None
                else Some (ip, apply_mask n (if dot then drop 12 ip else ip), n))
           | _ \<Rightarrow> None)
      | _ \<Rightarrow> None)"

subsection \<open>Printing\<close>

definition hex_digit :: "nat \<Rightarrow> char" where
  "hex_digit d = (if d < 10 then char_of (48 + d) else char_of (87 + d))"

fun hex :: "nat \<Rightarrow> string" where
  "hex n = (if n < 16 then [hex_digit n] else hex (n div 16) @ [hex_digit (n mod 16)])"

declare hex.simps [simp del]

definition group16 :: "u8 list \<Rightarrow> nat \<Rightarrow> nat" where
  "group16 bs i = unat (bs ! (2 * i)) * 256 + unat (bs ! (2 * i + 1))"

fun zero_run :: "nat list \<Rightarrow> nat" where
  "zero_run [] = 0"
| "zero_run (g # gs) = (if g = 0 then Suc (zero_run gs) else 0)"

text \<open>The first longest run of at least two zero groups, as a start and an end.\<close>

definition longest_zero_run :: "nat list \<Rightarrow> (nat \<times> nat) option" where
  "longest_zero_run gs =
     foldl (\<lambda>best i. let l = zero_run (drop i gs) in
              if l \<ge> 2 \<and> l > (case best of None \<Rightarrow> 0 | Some (a, b) \<Rightarrow> b - a) then Some (i, i + l) else best)
       None [0..<length gs]"

definition print_v6 :: "u8 list \<Rightarrow> string" where
  "print_v6 bs =
     (let gs = map (group16 bs) [0..<8] in
      case longest_zero_run gs of
        None \<Rightarrow> join_with '':'' (map hex gs)
      | Some (a, b) \<Rightarrow> join_with '':'' (map hex (take a gs)) @ ''::'' @ join_with '':'' (map hex (drop b gs)))"

definition print_net :: "u8 list \<Rightarrow> nat \<Rightarrow> string" where
  "print_net ip n =
     (if length ip = 4 then dotted ip @ ''/'' @ dec n
      else case To4 (Some ip) of
        Some v4 \<Rightarrow> dotted v4 @ ''/'' @ dec (n - 96)
      | None \<Rightarrow> print_v6 ip @ ''/'' @ dec n)"

text \<open>\<open>subnet.String()\<close> of the second result of \<open>ParseCIDR\<close>.\<close>

definition subnet_of :: "string \<Rightarrow> string option" where
  "subnet_of s = (case ParseCIDR s of None \<Rightarrow> None | Some (_, net, n) \<Rightarrow> Some (print_net net n))"

end
