(* ===== verification/Vm_Types.thy ===== *)
theory Vm_Types
  imports Cidr
begin

text \<open>
  \<open>internal/vm/options.go\<close> and the data of \<open>internal/vm/machine_linux.go\<close>: the options of
  a run, the identifiers a start returns, the parameters of a clone, the configuration
  handed to the Firecracker SDK, and the two kinds of machine.
\<close>

record run_options =
  FirecrackerBin :: string
  SocketPath :: string
  KernelImage :: string
  RootfsPath :: string
  KernelArgs :: string
  Vcpus :: int
  MemMIB :: int
  LogDir :: string
  TapDevice :: string
  MacAddress :: string
  GuestCIDR :: string
  GatewayIP :: string
  Nameservers :: string

record runtime_config =
  rt_SocketPath :: string
  rt_VMID :: string

record clone_params =
  MemPath :: string
  StatePath :: string
  CloneRootfsPath :: string
  CloneTap :: string
  CloneIP :: string
  CloneMac :: string
  CloneGateway :: string
  Prefix :: int
  Gen :: string

text \<open>\<open>fcsdk.NetworkInterface\<close> with its static configuration, and \<open>fcsdk.Config\<close>.\<close>

record network_interface =
  nif_mac :: string
  nif_host_dev :: string
  nif_cidr :: "u8 list \<times> nat"  \<comment> \<open>the address with the length of its prefix\<close>
  nif_gateway :: string
  nif_nameservers :: "string list"
  nif_name :: string
  nif_allow_mmds :: bool

record drive =
  dr_id :: string
  dr_path :: string
  dr_root :: bool
  dr_read_only :: bool

record fc_config =
  fc_vmid :: string
  fc_socket :: string
  fc_kernel :: string
  fc_kernel_args :: string
  fc_drives :: "drive list"
  fc_vcpus :: int
  fc_mem :: int
  fc_log_fifo :: string
  fc_log_level :: string
  fc_seccomp :: bool
  fc_seccomp_filter :: string
  fc_ifaces :: "network_interface list"
  fc_mmds_v2 :: bool
  fc_disable_validation :: bool

text \<open>The command the SDK runs: binary, API socket, further arguments, log file.\<close>

record fc_command =
  cmd_bin :: string
  cmd_socket :: string
  cmd_args :: "string list"
  cmd_log :: string

text \<open>
  A machine wraps a machine of the SDK or a process driven over its API socket; handles
  name the SDK object or the process. The functions test the two fields separately.
\<close>

record raw_machine =
  raw_process :: "int option"
  raw_sock :: string

record machine =
  m_sdk :: "int option"
  m_raw :: "raw_machine option"

end
