(* ===== verification/Host.thy ===== *)
theory Host
  imports Registry Vm_Types Paths "HOL-Library.State_Monad"
begin

text \<open>
  The outside world of a host. Everything the server asks of the operating system, of
  external programs, of the Firecracker SDK and of the guest agent is a \<open>host_call\<close>. What
  they answer is not code of this repository: it is the parameter \<open>env\<close>, an arbitrary
  function of the calls made so far and the call, and every call is recorded in order in
  the state. Database operations appear in the record too, so that their order relative to
  commands can be stated. Programs are written in the state monad; \<open>wp m Q s\<close> is the
  condition on \<open>s\<close> under which running \<open>m\<close> ends with \<open>Q\<close>.
\<close>

subsection \<open>Calls and answers\<close>

datatype db_op =
    OpCreate string | OpCreateRestore string | OpFinishStart string | OpSetExpiry string
  | OpExpired | OpDestroy string | OpGet string | OpAll | OpList
  | OpAddPort string int | OpPorts string | OpDeletePort string int
  | OpCreateSnapshot string | OpGetSnapshot string | OpListSnapshots | OpDeleteSnapshot string

datatype json =
    JNull | JStr string | JBool bool
  | JNum int | JReal string  \<comment> \<open>a number written as an integer, and any other\<close>
  | JObj "(string \<times> json) list" | JArr "json list"

datatype host_call =
    Cmd "string list"  \<comment> \<open>\<open>exec.Command\<close>, run to completion\<close>
  | MkdirAll string
  | RemoveFile string
  | RemoveAll string
  | Stat string
  | ReadFile string
  | Kill int int  \<comment> \<open>pid and signal\<close>
  | RandRead nat
  | NewUUID
  | Now
  | SleepNs int
  | Hostname
  | Listen string string
  | Chmod string
  | CtxDone  \<comment> \<open>answers ok when the context of the request is cancelled\<close>
  | ProbeAgent string  \<comment> \<open>\<open>GET /health\<close> of the guest agent; answers with the status\<close>
  | OpenLog string
  | SdkNew fc_config fc_command "(string \<times> string \<times> bool) option"  \<comment> \<open>with a snapshot to load\<close>
  | SdkStart int
  | SdkStopVMM int
  | SdkShutdown int
  | SdkPID int
  | SdkPauseVM int
  | SdkResumeVM int
  | SdkCreateSnapshot int string string
  | ProcStart "string list"
  | ProcSignal int int
  | ProcKill int
  | ProbeApi string  \<comment> \<open>\<open>GET /version\<close> on the socket; answers ok when a response arrives\<close>
  | FcApi string string string json  \<comment> \<open>socket, method, path, body; answers with the status\<close>
  | WaitExit machine "int option"  \<comment> \<open>\<open>vm.Wait\<close>, with the bound of the select around it\<close>
  | OpenRead string  \<comment> \<open>this and the following: calls of the agent inside the guest; \<open>r_num\<close> tells why a file call failed\<close>
  | IsDir string
  | ReadAll string
  | OpenWrite string
  | CopyTo string string
  | CloseFile string
  | MmdsToken  \<comment> \<open>the token request to the metadata service\<close>
  | MmdsGet string  \<comment> \<open>with a token; answers with the status\<close>
  | OpenDb string  \<comment> \<open>opening and migrating the registry file\<close>
  | WriteFile string string  \<comment> \<open>this and the following: calls of the command line\<close>
  | MkdirTemp
  | CreateTemp string
  | Symlink string string
  | DialUnix string
  | DbOp db_op

record reply =
  r_ok :: bool
  r_out :: string
  r_num :: int
  r_ns :: int  \<comment> \<open>the time the call took\<close>

record env =
  temp_dir :: string  \<comment> \<open>\<open>os.TempDir()\<close>\<close>
  answer :: "host_call list \<Rightarrow> host_call \<Rightarrow> reply"
  db_faults :: "host_call list \<Rightarrow> db_op \<Rightarrow> faults"

record host =
  calls :: "host_call list"

type_synonym ('z, 'a) action = "('z host_scheme, 'a) state"

abbreviation return :: "'a \<Rightarrow> ('s, 'a) state" where
  "return \<equiv> State_Monad.return"

definition call :: "env \<Rightarrow> host_call \<Rightarrow> ('z, reply) action" where
  "call E c = State (\<lambda>s. (answer E (calls s) c, s\<lparr>calls := calls s @ [c]\<rparr>))"

text \<open>Signals: \<open>SIGTERM\<close>, \<open>SIGKILL\<close>, and 0 to test for existence.\<close>

definition SIGTERM :: int where "SIGTERM = 15"
definition SIGKILL :: int where "SIGKILL = 9"

subsection \<open>Errors of the host layer\<close>

datatype host_error =
    CommandFailed "string list" string
  | MkdirFailed string
  | RemoveFailed string
  | ReflinkFailed string string string
  | CopyFailed string string string
  | NoDefaultRoute string
  | InvalidCIDR string
  | UuidFailed
  | InvalidGateway string
  | NilMachine
  | ProcessNotStarted
  | SdkError string
  | ApiTimeout
  | ContextCancelled
  | ApiError string string
  | SignalFailed

subsection \<open>Weakest preconditions\<close>

definition wp :: "('s, 'a) state \<Rightarrow> ('a \<Rightarrow> 's \<Rightarrow> bool) \<Rightarrow> 's \<Rightarrow> bool" where
  "wp m Q s = (case run_state m s of (a, t) \<Rightarrow> Q a t)"

named_theorems wp \<open>weakest preconditions of the program constructs\<close>

lemma wp_return [wp]: "wp (return x) Q = Q x"
  by (simp add: wp_def fun_eq_iff)

lemma wp_bind [wp]: "wp (State_Monad.bind m f) Q = wp m (\<lambda>a. wp (f a) Q)"
  by (simp add: wp_def fun_eq_iff split: prod.splits)

lemma wp_if [wp]: "wp (if b then m else n) Q = (if b then wp m Q else wp n Q)"
  by simp

lemma wp_sum [wp]:
  "wp (case r of Inl e \<Rightarrow> f e | Inr v \<Rightarrow> g v) Q = (case r of Inl e \<Rightarrow> wp (f e) Q | Inr v \<Rightarrow> wp (g v) Q)"
  by (cases r) simp_all

lemma wp_option [wp]:
  "wp (case x of None \<Rightarrow> n | Some v \<Rightarrow> g v) Q = (case x of None \<Rightarrow> wp n Q | Some v \<Rightarrow> wp (g v) Q)"
  by (cases x) simp_all

lemma wp_prod [wp]: "wp (case p of (a, b) \<Rightarrow> f a b) Q = (case p of (a, b) \<Rightarrow> wp (f a b) Q)"
  by (cases p) simp

lemma wp_call [wp]: "wp (call E c) Q = (\<lambda>s. Q (answer E (calls s) c) (s\<lparr>calls := calls s @ [c]\<rparr>))"
  by (simp add: wp_def call_def fun_eq_iff)

lemma wp_run: "run_state m s = (a, t) \<Longrightarrow> wp m Q s \<Longrightarrow> Q a t"
  by (simp add: wp_def)

lemma wpI: "(\<And>a t. run_state m s = (a, t) \<Longrightarrow> Q a t) \<Longrightarrow> wp m Q s"
  by (simp add: wp_def split: prod.splits)

lemma wp_any: "(\<And>a t. Q a t) \<Longrightarrow> wp m Q s"
  by (rule wpI)

lemma wp_conseq: "wp m P s \<Longrightarrow> (\<And>a t. P a t \<Longrightarrow> Q a t) \<Longrightarrow> wp m Q s"
  by (auto simp: wp_def split: prod.splits)

lemma wp_conj: "wp m P s \<Longrightarrow> wp m Q s \<Longrightarrow> wp m (\<lambda>a t. P a t \<and> Q a t) s"
  by (auto simp: wp_def split: prod.splits)

subsection \<open>Relations a program stays in\<close>

text \<open>
  The clients of the host layer need to know what it leaves alone. A reflexive and
  transitive relation between the states before and after holds of a program when it holds
  of its steps.
\<close>

locale state_relation =
  fixes R :: "'s \<Rightarrow> 's \<Rightarrow> bool"
  assumes refl: "R s s" and trans: "R s t \<Longrightarrow> R t u \<Longrightarrow> R s u"
begin

lemma io_return: "state_io_rel R (return x)"
  by (simp add: state_io_rel_def refl)

lemma io_bind: "state_io_rel R m \<Longrightarrow> (\<And>a. state_io_rel R (f a)) \<Longrightarrow> state_io_rel R (State_Monad.bind m f)"
  by (auto simp: state_io_rel_def split: prod.splits) (metis snd_conv trans)

lemma io_if: "state_io_rel R m \<Longrightarrow> state_io_rel R n \<Longrightarrow> state_io_rel R (if b then m else n)"
  by simp

lemma io_sum:
  "(\<And>e. state_io_rel R (f e)) \<Longrightarrow> (\<And>v. state_io_rel R (g v)) \<Longrightarrow>
     state_io_rel R (case r of Inl e \<Rightarrow> f e | Inr v \<Rightarrow> g v)"
  by (cases r) simp_all

lemma io_option:
  "state_io_rel R n \<Longrightarrow> (\<And>v. state_io_rel R (g v)) \<Longrightarrow>
     state_io_rel R (case x of None \<Rightarrow> n | Some v \<Rightarrow> g v)"
  by (cases x) simp_all

lemma io_prod: "(\<And>a b. state_io_rel R (f a b)) \<Longrightarrow> state_io_rel R (case p of (a, b) \<Rightarrow> f a b)"
  by (cases p) simp

lemma io_run: "state_io_rel R m \<Longrightarrow> run_state m s = (a, t) \<Longrightarrow> R s t"
  by (rule state_io_relD)

lemma io_wp: "state_io_rel R m \<Longrightarrow> (\<And>a t. R s t \<Longrightarrow> Q a t) \<Longrightarrow> wp m Q s"
  by (rule wpI) (blast dest: state_io_relD)

lemmas io_intros = io_return io_bind io_if io_sum io_option io_prod

end

lemma run_call [simp]: "run_state (call E c) s = (answer E (calls s) c, s\<lparr>calls := calls s @ [c]\<rparr>)"
  by (simp add: call_def)

text \<open>The calls only grow.\<close>

definition calls_grow :: "'z host_scheme \<Rightarrow> 'z host_scheme \<Rightarrow> bool" where
  "calls_grow s t \<longleftrightarrow> prefix (calls s) (calls t)"

interpretation grow: state_relation calls_grow
  by unfold_locales (auto simp: calls_grow_def)

lemma call_grow: "state_io_rel calls_grow (call E c)"
  by (simp add: state_io_rel_def call_def calls_grow_def)

text \<open>A host program changes nothing but the record of calls.\<close>

definition host_only :: "'z host_scheme \<Rightarrow> 'z host_scheme \<Rightarrow> bool" where
  "host_only s t \<longleftrightarrow> host.more t = host.more s"

interpretation host_frame: state_relation host_only
  by unfold_locales (auto simp: host_only_def)

lemma call_host_only: "state_io_rel host_only (call E c)"
  by (simp add: state_io_rel_def call_def host_only_def)

text \<open>Running a list of actions until one fails, and running all of them.\<close>

fun each_until_error :: "('x \<Rightarrow> ('s, ('e, unit) result) state) \<Rightarrow> 'x list \<Rightarrow> ('s, ('e, unit) result) state" where
  "each_until_error f [] = return (Inr ())"
| "each_until_error f (x # xs) = do {
     r \<leftarrow> f x;
     (case r of Inl e \<Rightarrow> return (Inl e) | Inr _ \<Rightarrow> each_until_error f xs)
   }"

fun each :: "('x \<Rightarrow> ('s, 'b) state) \<Rightarrow> 'x list \<Rightarrow> ('s, unit) state" where
  "each f [] = return ()"
| "each f (x # xs) = do { _ \<leftarrow> f x; each f xs }"

context state_relation
begin

lemma io_each: "(\<And>x. state_io_rel R (f x)) \<Longrightarrow> state_io_rel R (each f xs)"
  by (induction xs) (simp_all add: io_return io_bind)

lemma io_each_until_error: "(\<And>x. state_io_rel R (f x)) \<Longrightarrow> state_io_rel R (each_until_error f xs)"
  by (induction xs) (auto intro!: io_intros)

end

text \<open>
  Steps that make one call each: a run of \<open>each_until_error\<close> has made the calls of a prefix
  of the list, of all of it when it succeeded.
\<close>

lemma each_until_error_calls:
  assumes one: "\<And>x s. \<exists>r. run_state (f x) s = (r, s\<lparr>calls := calls s @ [g x]\<rparr>)"
    and run: "run_state (each_until_error f xs) s = (r, t)"
  shows "\<exists>k \<le> length xs. t = s\<lparr>calls := calls s @ map g (take k xs)\<rparr> \<and> (is_ok r \<longrightarrow> k = length xs)"
  using run
proof (induction xs arbitrary: s)
  case Nil
  then show ?case by simp
next
  case (Cons x xs)
  obtain q where q: "run_state (f x) s = (q, s\<lparr>calls := calls s @ [g x]\<rparr>)" using one by blast
  show ?case
  proof (cases q)
    case (Inl e)
    then show ?thesis using Cons.prems q by (intro exI [of _ 1]) auto
  next
    case (Inr u)
    then have "run_state (each_until_error f xs) (s\<lparr>calls := calls s @ [g x]\<rparr>) = (r, t)"
      using Cons.prems q by simp
    from Cons.IH [OF this] obtain k where "k \<le> length xs" "is_ok r \<longrightarrow> k = length xs"
      "t = s\<lparr>calls := calls s @ g x # map g (take k xs)\<rparr>"
      by auto
    then show ?thesis by (intro exI [of _ "Suc k"]) auto
  qed
qed

text \<open>
  An environment for the witnesses: every call succeeds, identifiers and process ids are
  numbered by the calls made before, time stands still.
\<close>

definition sunny :: env where
  "sunny = \<lparr>temp_dir = ''/tmp'', answer = (\<lambda>h c. \<lparr>r_ok = (c \<noteq> CtxDone), r_out = dec (length h),
       r_num = (case c of ProbeAgent _ \<Rightarrow> 200 | FcApi _ _ _ _ \<Rightarrow> 204 | _ \<Rightarrow> int (length h)), r_ns = 0\<rparr>),
     db_faults = (\<lambda>_ _. no_faults)\<rparr>"

end
