(* ===== verification/Provisioner.thy ===== *)
theory Provisioner
  imports Host
begin

text \<open>
  \<open>internal/provisioner/provisioner.go\<close>: the bridge and its rules, root file systems,
  snapshot directories, taps and port forwards. The functions issue commands; what the
  commands do belongs to the environment, so the lemmas speak of the commands issued, their
  order, and how failures end the sequence.
\<close>

record network =
  Bridge :: string
  GatewayCIDR :: string
  GuestPort :: int

record provisioner =
  Network :: network
  RootfsBase :: string
  RootfsDir :: string
  SnapshotDir :: string

text \<open>A command whose failure is an error carrying its arguments and output.\<close>

definition run_cmd :: "env \<Rightarrow> string list \<Rightarrow> ('z, (host_error, unit) result) action" where
  "run_cmd E args = do {
     r \<leftarrow> call E (Cmd args);
     return (if r_ok r then Inr () else Inl (CommandFailed args (r_out r)))
   }"

definition mkdir_all :: "env \<Rightarrow> string \<Rightarrow> ('z, (host_error, unit) result) action" where
  "mkdir_all E dir = do {
     r \<leftarrow> call E (MkdirAll dir);
     return (if r_ok r then Inr () else Inl (MkdirFailed dir))
   }"

definition remove_file :: "env \<Rightarrow> string \<Rightarrow> ('z, (host_error, unit) result) action" where
  "remove_file E path = do {
     r \<leftarrow> call E (RemoveFile path);
     return (if r_ok r then Inr () else Inl (RemoveFailed path))
   }"

subsection \<open>Networking of the host\<close>

definition with_verb :: "string \<Rightarrow> string list \<Rightarrow> string list" where
  "with_verb verb rule =
     (let verbAt = (if rule ! 0 = ''-t'' then 2 else 0)
      in take verbAt rule @ [verb, rule ! verbAt] @ drop (verbAt + 1) rule)"

definition ensureIptablesRule :: "env \<Rightarrow> string list \<Rightarrow> ('z, (host_error, unit) result) action" where
  "ensureIptablesRule E rule = do {
     r \<leftarrow> call E (Cmd (''iptables'' # with_verb ''-C'' rule));
     if r_ok r then return (Inr ())
     else run_cmd E (''iptables'' # with_verb ''-A'' rule)
   }"

fun after_dev :: "string list \<Rightarrow> string option" where
  "after_dev (f # g # fs) = (if f = ''dev'' then Some g else after_dev (g # fs))"
| "after_dev _ = None"

definition defaultInterface :: "env \<Rightarrow> ('z, (host_error, string) result) action" where
  "defaultInterface E = do {
     r \<leftarrow> call E (Cmd [''ip'', ''route'', ''show'', ''default'']);
     return (if \<not> r_ok r then Inl (CommandFailed [''ip'', ''route'', ''show'', ''default''] (r_out r))
             else (case after_dev (Fields (r_out r)) of
                     Some iface \<Rightarrow> Inr iface
                   | None \<Rightarrow> Inl (NoDefaultRoute (r_out r))))
   }"

definition bridge_setup :: "network \<Rightarrow> string list list" where
  "bridge_setup n =
     [[''ip'', ''addr'', ''replace'', GatewayCIDR n, ''dev'', Bridge n],
      [''ip'', ''link'', ''set'', Bridge n, ''up''],
      [''sysctl'', ''-w'', ''net.ipv4.ip_forward=1''],
      [''sysctl'', ''-w'', ''net.ipv4.conf.all.route_localnet=1'']]"

definition bridge_rules :: "network \<Rightarrow> string \<Rightarrow> string \<Rightarrow> string list list" where
  "bridge_rules n subnet hostIface =
     [[''-t'', ''nat'', ''POSTROUTING'', ''-s'', subnet, ''-o'', hostIface, ''-j'', ''MASQUERADE''],
      [''-t'', ''nat'', ''POSTROUTING'', ''-o'', Bridge n, ''-j'', ''MASQUERADE''],
      [''FORWARD'', ''-i'', Bridge n, ''-o'', hostIface, ''-j'', ''ACCEPT''],
      [''FORWARD'', ''-i'', hostIface, ''-o'', Bridge n, ''-m'', ''state'', ''--state'', ''RELATED,ESTABLISHED'', ''-j'', ''ACCEPT''],
      [''FORWARD'', ''-i'', Bridge n, ''-o'', Bridge n, ''-j'', ''ACCEPT'']]"

definition ensureBridge :: "env \<Rightarrow> network \<Rightarrow> ('z, (host_error, unit) result) action" where
  "ensureBridge E n = do {
     st \<leftarrow> call E (Stat (''/sys/class/net/'' @ Bridge n));
     if r_ok st then return (Inr ())
     else run_cmd E [''ip'', ''link'', ''add'', ''name'', Bridge n, ''type'', ''bridge'']
   }"

definition EnsureNetwork :: "env \<Rightarrow> provisioner \<Rightarrow> ('z, (host_error, unit) result) action" where
  "EnsureNetwork E p =
     (let n = Network p in
      case subnet_of (GatewayCIDR n) of
        None \<Rightarrow> return (Inl (InvalidCIDR (GatewayCIDR n)))
      | Some subnet \<Rightarrow> do {
          r \<leftarrow> ensureBridge E n;
          (case r of Inl e \<Rightarrow> return (Inl e) | Inr _ \<Rightarrow> do {
             r \<leftarrow> each_until_error (run_cmd E) (bridge_setup n);
             (case r of Inl e \<Rightarrow> return (Inl e) | Inr _ \<Rightarrow> do {
                r \<leftarrow> defaultInterface E;
                (case r of Inl e \<Rightarrow> return (Inl e) | Inr hostIface \<Rightarrow>
                   each_until_error (ensureIptablesRule E) (bridge_rules n subnet hostIface))
             })
          })
        })"

subsection \<open>Files\<close>

definition reflinkUnsupported :: "string \<Rightarrow> bool" where
  "reflinkUnsupported out =
     (let s = ToLower out
      in Contains s ''not supported'' \<or> Contains s ''operation not supported'' \<or>
         Contains s ''invalid cross-device'' \<or> Contains s ''cross-device link'')"

definition CloneFile :: "env \<Rightarrow> string \<Rightarrow> string \<Rightarrow> ('z, (host_error, unit) result) action" where
  "CloneFile E src dst = do {
     r \<leftarrow> mkdir_all E (Dir dst);
     (case r of Inl e \<Rightarrow> return (Inl e) | Inr _ \<Rightarrow> do {
        r \<leftarrow> call E (Cmd [''cp'', ''--reflink=always'', src, dst]);
        if r_ok r then return (Inr ())
        else if \<not> reflinkUnsupported (r_out r) then return (Inl (ReflinkFailed src dst (r_out r)))
        else do {
          r \<leftarrow> call E (Cmd [''cp'', ''--sparse=always'', src, dst]);
          return (if r_ok r then Inr () else Inl (CopyFailed src dst (r_out r)))
        }
     })
   }"

definition rootfsPath :: "provisioner \<Rightarrow> string \<Rightarrow> string" where
  "rootfsPath p sid = Join [RootfsDir p, sid @ ''.ext4'']"

definition RootfsPathFor :: "provisioner \<Rightarrow> string \<Rightarrow> string" where
  "RootfsPathFor p sid = rootfsPath p sid"

definition CloneRootfs :: "env \<Rightarrow> provisioner \<Rightarrow> string \<Rightarrow> string \<Rightarrow> ('z, (host_error, string) result) action" where
  "CloneRootfs E p sid srcRootfs = do {
     r \<leftarrow> mkdir_all E (RootfsDir p);
     (case r of Inl e \<Rightarrow> return (Inl e) | Inr _ \<Rightarrow> do {
        r \<leftarrow> CloneFile E srcRootfs (rootfsPath p sid);
        (case r of Inl e \<Rightarrow> return (Inl e) | Inr _ \<Rightarrow> return (Inr (rootfsPath p sid)))
     })
   }"

definition PrepareRootfs :: "env \<Rightarrow> provisioner \<Rightarrow> string \<Rightarrow> ('z, (host_error, string) result) action" where
  "PrepareRootfs E p sid = do {
     r \<leftarrow> mkdir_all E (RootfsDir p);
     (case r of Inl e \<Rightarrow> return (Inl e) | Inr _ \<Rightarrow> do {
        r \<leftarrow> CloneFile E (RootfsBase p) (rootfsPath p sid);
        (case r of Inl e \<Rightarrow> return (Inl e) | Inr _ \<Rightarrow> return (Inr (rootfsPath p sid)))
     })
   }"

definition CopyFileSparse :: "env \<Rightarrow> string \<Rightarrow> string \<Rightarrow> ('z, (host_error, unit) result) action" where
  "CopyFileSparse E src dst = CloneFile E src dst"

definition CleanupRootfs :: "env \<Rightarrow> provisioner \<Rightarrow> string \<Rightarrow> ('z, (host_error, unit) result) action" where
  "CleanupRootfs E p sid = remove_file E (rootfsPath p sid)"

definition RemoveRootfs :: "env \<Rightarrow> string \<Rightarrow> ('z, (host_error, unit) result) action" where
  "RemoveRootfs E path = (if path = '''' then return (Inr ()) else remove_file E path)"

definition SnapshotPaths :: "env \<Rightarrow> provisioner \<Rightarrow> string
    \<Rightarrow> ('z, (host_error, string \<times> string \<times> string) result) action" where
  "SnapshotPaths E p snapshotID =
     (let dir = Join [SnapshotDir p, snapshotID] in do {
        r \<leftarrow> mkdir_all E dir;
        (case r of Inl e \<Rightarrow> return (Inl e) | Inr _ \<Rightarrow>
           return (Inr (Join [dir, ''mem.bin''], Join [dir, ''state.bin''], Join [dir, ''rootfs.ext4''])))
      })"

definition CleanupSnapshot :: "env \<Rightarrow> provisioner \<Rightarrow> string \<Rightarrow> ('z, (host_error, unit) result) action" where
  "CleanupSnapshot E p snapshotID =
     (let dir = Join [SnapshotDir p, snapshotID] in do {
        r \<leftarrow> call E (RemoveAll dir);
        return (if r_ok r then Inr () else Inl (RemoveFailed dir))
      })"

subsection \<open>Taps\<close>

definition CreateTapUnbridged :: "env \<Rightarrow> string \<Rightarrow> ('z, (host_error, unit) result) action" where
  "CreateTapUnbridged E tap =
     each_until_error (run_cmd E)
       [[''ip'', ''tuntap'', ''add'', ''dev'', tap, ''mode'', ''tap''], [''ip'', ''link'', ''set'', tap, ''up'']]"

definition AttachTapToBridge :: "env \<Rightarrow> provisioner \<Rightarrow> string \<Rightarrow> ('z, (host_error, unit) result) action" where
  "AttachTapToBridge E p tap = run_cmd E [''ip'', ''link'', ''set'', tap, ''master'', Bridge (Network p)]"

definition CreateTap :: "env \<Rightarrow> provisioner \<Rightarrow> string \<Rightarrow> ('z, (host_error, unit) result) action" where
  "CreateTap E p tap = do {
     r \<leftarrow> CreateTapUnbridged E tap;
     (case r of Inl e \<Rightarrow> return (Inl e) | Inr _ \<Rightarrow> AttachTapToBridge E p tap)
   }"

definition DeleteTap :: "env \<Rightarrow> string \<Rightarrow> ('z, (host_error, unit) result) action" where
  "DeleteTap E tap = run_cmd E [''ip'', ''link'', ''delete'', tap]"

subsection \<open>Port forwards\<close>

definition target :: "string \<Rightarrow> int \<Rightarrow> string" where
  "target guestIP guestPort = guestIP @ '':'' @ itoa guestPort"

definition forward_rules :: "string \<Rightarrow> int \<Rightarrow> string \<Rightarrow> int \<Rightarrow> string list list" where
  "forward_rules verb hostPort guestIP guestPort =
     [[''iptables'', ''-t'', ''nat'', verb, ''PREROUTING'', ''-p'', ''tcp'', ''--dport'', itoa hostPort,
       ''-j'', ''DNAT'', ''--to-destination'', target guestIP guestPort],
      [''iptables'', ''-t'', ''nat'', verb, ''OUTPUT'', ''-p'', ''tcp'', ''-d'', ''127.0.0.1'', ''--dport'', itoa hostPort,
       ''-j'', ''DNAT'', ''--to-destination'', target guestIP guestPort]]"

definition AddPortForwardTo :: "env \<Rightarrow> int \<Rightarrow> string \<Rightarrow> int \<Rightarrow> ('z, (host_error, unit) result) action" where
  "AddPortForwardTo E hostPort guestIP guestPort =
     each_until_error (run_cmd E) (forward_rules ''-A'' hostPort guestIP guestPort)"

definition AddPortForward :: "env \<Rightarrow> provisioner \<Rightarrow> int \<Rightarrow> string \<Rightarrow> ('z, (host_error, unit) result) action" where
  "AddPortForward E p hostPort guestIP = AddPortForwardTo E hostPort guestIP (GuestPort (Network p))"

definition RemovePortForwardTo :: "env \<Rightarrow> int \<Rightarrow> string \<Rightarrow> int \<Rightarrow> ('z, unit) action" where
  "RemovePortForwardTo E hostPort guestIP guestPort =
     each (\<lambda>args. call E (Cmd args)) (forward_rules ''-D'' hostPort guestIP guestPort)"

definition RemovePortForward :: "env \<Rightarrow> provisioner \<Rightarrow> int \<Rightarrow> string \<Rightarrow> ('z, unit) action" where
  "RemovePortForward E p hostPort guestIP = RemovePortForwardTo E hostPort guestIP (GuestPort (Network p))"

subsection \<open>Nothing but commands\<close>

named_theorems io_host \<open>programs of the host layer leave the rest of the state alone\<close>

lemmas provisioner_defs =
  run_cmd_def mkdir_all_def remove_file_def ensureIptablesRule_def defaultInterface_def ensureBridge_def
  EnsureNetwork_def CloneFile_def CloneRootfs_def PrepareRootfs_def CopyFileSparse_def CleanupRootfs_def
  RemoveRootfs_def SnapshotPaths_def CleanupSnapshot_def CreateTapUnbridged_def AttachTapToBridge_def
  CreateTap_def DeleteTap_def AddPortForwardTo_def AddPortForward_def RemovePortForwardTo_def
  RemovePortForward_def

lemma provisioner_host_only [io_host]:
  "state_io_rel host_only (run_cmd E args)"
  "state_io_rel host_only (EnsureNetwork E p)"
  "state_io_rel host_only (CloneFile E src dst)"
  "state_io_rel host_only (CopyFileSparse E src dst)"
  "state_io_rel host_only (CloneRootfs E p sid src)"
  "state_io_rel host_only (PrepareRootfs E p sid)"
  "state_io_rel host_only (CleanupRootfs E p sid)"
  "state_io_rel host_only (RemoveRootfs E path)"
  "state_io_rel host_only (SnapshotPaths E p snap)"
  "state_io_rel host_only (CleanupSnapshot E p snap)"
  "state_io_rel host_only (CreateTapUnbridged E tap)"
  "state_io_rel host_only (AttachTapToBridge E p tap)"
  "state_io_rel host_only (CreateTap E p tap)"
  "state_io_rel host_only (DeleteTap E tap)"
  "state_io_rel host_only (AddPortForwardTo E hp ip gp)"
  "state_io_rel host_only (AddPortForward E p hp ip)"
  "state_io_rel host_only (RemovePortForwardTo E hp ip gp)"
  "state_io_rel host_only (RemovePortForward E p hp ip)"
  unfolding provisioner_defs Let_def
  by (intro host_frame.io_intros host_frame.io_each host_frame.io_each_until_error call_host_only)+

end
