(* ===== verification/Vm.thy ===== *)
theory Vm
  imports Provisioner
begin

text \<open>
  \<open>internal/vm/machine_linux.go\<close>: building the configuration of a microVM, the lifecycle
  functions over the two kinds of machine, and \<open>StartClone\<close>, which drives a Firecracker
  process over its API socket. The SDK and Firecracker answer through the environment.
\<close>

type_synonym machine_ptr = "machine option"  \<comment> \<open>\<open>*Machine\<close>, which may be nil\<close>

subsection \<open>Configuration\<close>

definition applyDefaults :: "env \<Rightarrow> run_options \<Rightarrow> ('z, (host_error, run_options) result) action" where
  "applyDefaults E o1 =
     (let o2 = (if FirecrackerBin o1 = '''' then o1\<lparr>FirecrackerBin := ''firecracker''\<rparr> else o1);
          logdir = (\<lambda>x. if LogDir x = '''' then x\<lparr>LogDir := temp_dir E\<rparr> else x)
      in if SocketPath o2 = '''' then do {
           r \<leftarrow> call E NewUUID;
           if \<not> r_ok r then return (Inl UuidFailed)
           else return (Inr (logdir (o2\<lparr>SocketPath := Join [temp_dir E, ''sandbox-'' @ r_out r @ ''.sock'']\<rparr>)))
         }
         else return (Inr (logdir o2)))"

definition buildNetworkInterface :: "run_options \<Rightarrow> (host_error, network_interface) result" where
  "buildNetworkInterface opts =
     (case ParseCIDR (GuestCIDR opts) of
        None \<Rightarrow> Inl (InvalidCIDR (GuestCIDR opts))
      | Some (ip, _, n) \<Rightarrow>
          if ParseIP (GatewayIP opts) = None then Inl (InvalidGateway (GatewayIP opts))
          else Inr \<lparr>nif_mac = MacAddress opts, nif_host_dev = TapDevice opts, nif_cidr = (ip, n),
                    nif_gateway = GatewayIP opts,
                    nif_nameservers = (if Nameservers opts = '''' then [] else split_at (CHR '','') (Nameservers opts)),
                    nif_name = ''eth0'', nif_allow_mmds = False\<rparr>)"

definition base_config :: "run_options \<Rightarrow> string \<Rightarrow> string \<Rightarrow> fc_config" where
  "base_config opts vmID logFIFO =
     \<lparr>fc_vmid = vmID, fc_socket = SocketPath opts, fc_kernel = KernelImage opts,
      fc_kernel_args = KernelArgs opts, 
      fc_drives = [\<lparr>dr_id = ''rootfs'', dr_path = RootfsPath opts, dr_root = True, dr_read_only = False\<rparr>],
      fc_vcpus = Vcpus opts,
      fc_mem = MemMIB opts, fc_log_fifo = logFIFO, fc_log_level = ''Warn'', fc_seccomp = False, fc_seccomp_filter = [],
      fc_ifaces = [], fc_mmds_v2 = False, fc_disable_validation = False\<rparr>"

definition fcConfig :: "env \<Rightarrow> run_options \<Rightarrow> ('z, (host_error, fc_config) result) action" where
  "fcConfig E opts0 = do {
     r \<leftarrow> applyDefaults E opts0;
     (case r of Inl e \<Rightarrow> return (Inl e) | Inr opts \<Rightarrow> do {
        uid \<leftarrow> call E NewUUID;
        if \<not> r_ok uid then return (Inl UuidFailed)
        else do {
          vmID \<leftarrow> call E NewUUID;
          if \<not> r_ok vmID then return (Inl UuidFailed)
          else
            (let cfg = base_config opts (r_out vmID) (Join [LogDir opts, ''sandbox-log-'' @ r_out uid @ ''.fifo''])
             in if TapDevice opts \<noteq> '''' then
                  (case buildNetworkInterface opts of
                     Inl e \<Rightarrow> return (Inl e)
                   | Inr iface \<Rightarrow>
                       return (Inr (cfg\<lparr>fc_ifaces := [iface\<lparr>nif_allow_mmds := True\<rparr>], fc_mmds_v2 := True\<rparr>)))
                else return (Inr cfg))
        }
     })
   }"

definition buildCommand :: "env \<Rightarrow> fc_config \<Rightarrow> string \<Rightarrow> string \<Rightarrow> ('z, fc_command) action" where
  "buildCommand E cfg fcBin logDir =
     (let logPath = Join [logDir, ''firecracker-'' @ fc_vmid cfg @ ''.log''] in do {
        r \<leftarrow> call E (OpenLog logPath);
        return \<lparr>cmd_bin = fcBin, cmd_socket = fc_socket cfg,
          cmd_args = [''--id'', fc_vmid cfg] @ (if \<not> fc_seccomp cfg then [''--no-seccomp'']
            else if fc_seccomp_filter cfg \<noteq> [] then [''--seccomp-filter'', fc_seccomp_filter cfg] else []),
          cmd_log = (if r_ok r then logPath else '''')\<rparr>
      })"

text \<open>
  Both constructors of a machine; the second loads a snapshot, resumes it (\<open>ResumeVM\<close>) and
  gets no network device. The handlers pass \<open>disableValidation = false\<close>.
\<close>

definition new_sdk_machine :: "env \<Rightarrow> run_options \<Rightarrow> (string \<times> string \<times> bool) option
    \<Rightarrow> ('z, (host_error, machine \<times> runtime_config) result) action" where
  "new_sdk_machine E opts snap = do {
     r \<leftarrow> fcConfig E opts;
     (case r of Inl e \<Rightarrow> return (Inl e) | Inr cfg0 \<Rightarrow> (let cfg = cfg0\<lparr>fc_disable_validation := False\<rparr> in do {
        cmd \<leftarrow> buildCommand E cfg (FirecrackerBin opts) (LogDir opts);
        m \<leftarrow> call E (SdkNew cfg cmd snap);
        if \<not> r_ok m then return (Inl (SdkError (r_out m)))
        else return (Inr (\<lparr>m_sdk = Some (r_num m), m_raw = None\<rparr>,
                          \<lparr>rt_SocketPath = fc_socket cfg, rt_VMID = fc_vmid cfg\<rparr>))
     }))
   }"

definition NewMachine :: "env \<Rightarrow> run_options \<Rightarrow> ('z, (host_error, machine \<times> runtime_config) result) action" where
  "NewMachine E opts = new_sdk_machine E opts None"

definition NewMachineFromSnapshot :: "env \<Rightarrow> run_options \<Rightarrow> string \<Rightarrow> string
    \<Rightarrow> ('z, (host_error, machine \<times> runtime_config) result) action" where
  "NewMachineFromSnapshot E opts memPath statePath =
     new_sdk_machine E (opts\<lparr>TapDevice := ''''\<rparr>) (Some (memPath, statePath, True))"

subsection \<open>Lifecycle\<close>

definition sdk_call :: "env \<Rightarrow> host_call \<Rightarrow> ('z, (host_error, unit) result) action" where
  "sdk_call E c = do { r \<leftarrow> call E c; return (if r_ok r then Inr () else Inl (SdkError (r_out r))) }"

text \<open>Start, Pause, Resume and Snapshot need a machine of the SDK.\<close>

definition with_sdk :: "env \<Rightarrow> machine_ptr \<Rightarrow> (int \<Rightarrow> host_call) \<Rightarrow> ('z, (host_error, unit) result) action" where
  "with_sdk E mp c =
     (case mp of
        None \<Rightarrow> return (Inl NilMachine)
      | Some m \<Rightarrow> (case m_sdk m of None \<Rightarrow> return (Inl NilMachine) | Some h \<Rightarrow> sdk_call E (c h)))"

definition Start :: "env \<Rightarrow> machine_ptr \<Rightarrow> ('z, (host_error, unit) result) action" where
  "Start E mp = with_sdk E mp SdkStart"

definition StopForce :: "env \<Rightarrow> machine_ptr \<Rightarrow> ('z, (host_error, unit) result) action" where
  "StopForce E mp =
     (case mp of
        None \<Rightarrow> return (Inr ())
      | Some m \<Rightarrow>
          (case m_raw m of
             Some raw \<Rightarrow>
               (case raw_process raw of
                  Some pid \<Rightarrow> do {
                    r \<leftarrow> call E (ProcSignal pid SIGTERM);
                    return (if r_ok r then Inr () else Inl SignalFailed)
                  }
                | None \<Rightarrow> return (Inr ()))
           | None \<Rightarrow> (case m_sdk m of None \<Rightarrow> return (Inr ()) | Some h \<Rightarrow> sdk_call E (SdkStopVMM h))))"

definition ShutdownGuest :: "env \<Rightarrow> machine_ptr \<Rightarrow> ('z, (host_error, unit) result) action" where
  "ShutdownGuest E mp =
     (case mp of
        None \<Rightarrow> return (Inl NilMachine)
      | Some m \<Rightarrow> if m_raw m \<noteq> None then StopForce E mp
                  else (case m_sdk m of None \<Rightarrow> return (Inl NilMachine) | Some h \<Rightarrow> sdk_call E (SdkShutdown h)))"

text \<open>\<open>Wait\<close>; ok when the process exited within the bound of the caller's select.\<close>

definition Wait :: "env \<Rightarrow> machine \<Rightarrow> int option \<Rightarrow> ('z, bool) action" where
  "Wait E m bound =
     (if m_raw m = None \<and> m_sdk m = None then return True
      else do { r \<leftarrow> call E (WaitExit m bound); return (r_ok r) })"

definition PID :: "env \<Rightarrow> machine_ptr \<Rightarrow> ('z, (host_error, int) result) action" where
  "PID E mp =
     (case mp of
        None \<Rightarrow> return (Inl NilMachine)
      | Some m \<Rightarrow>
          (case m_raw m of
             Some raw \<Rightarrow> return (case raw_process raw of None \<Rightarrow> Inl ProcessNotStarted | Some pid \<Rightarrow> Inr pid)
           | None \<Rightarrow>
               (case m_sdk m of
                  None \<Rightarrow> return (Inl NilMachine)
                | Some h \<Rightarrow> do {
                    r \<leftarrow> call E (SdkPID h);
                    return (if r_ok r then Inr (r_num r) else Inl (SdkError (r_out r)))
                  })))"

definition Pause :: "env \<Rightarrow> machine_ptr \<Rightarrow> ('z, (host_error, unit) result) action" where
  "Pause E mp = with_sdk E mp SdkPauseVM"

definition Resume :: "env \<Rightarrow> machine_ptr \<Rightarrow> ('z, (host_error, unit) result) action" where
  "Resume E mp = with_sdk E mp SdkResumeVM"

definition Snapshot :: "env \<Rightarrow> machine_ptr \<Rightarrow> string \<Rightarrow> string \<Rightarrow> ('z, (host_error, unit) result) action" where
  "Snapshot E mp memPath statePath = with_sdk E mp (\<lambda>h. SdkCreateSnapshot h memPath statePath)"

subsection \<open>Clones\<close>

definition fcAPI :: "env \<Rightarrow> string \<Rightarrow> string \<Rightarrow> string \<Rightarrow> json \<Rightarrow> ('z, (host_error, unit) result) action" where
  "fcAPI E sock meth path body = do {
     r \<leftarrow> call E (FcApi sock meth path body);
     return (if \<not> r_ok r then Inl (ApiError path (r_out r))
             else if r_num r \<ge> 400 then Inl (ApiError path (TrimSpace (r_out r)))
             else Inr ())
   }"

text \<open>
  The poll of \<open>waitAPI\<close>, in nanoseconds left until the deadline: a probe takes the time it
  answers with, a round waits 10 ms.
\<close>

function poll_api :: "env \<Rightarrow> string \<Rightarrow> int \<Rightarrow> 'z host_scheme \<Rightarrow> (host_error, unit) result \<times> 'z host_scheme" where
  "poll_api E sock rem s =
     (let (r, s) = run_state (call E (ProbeApi sock)) s in
      if r_ok r then (Inr (), s)
      else let rem = rem - max 0 (r_ns r) in
        if rem < 0 then (Inl ApiTimeout, s)
        else let (d, s) = run_state (call E CtxDone) s in
          if r_ok d then (Inl ContextCancelled, s)
          else poll_api E sock (rem - 10000000) s)"
  by pat_completeness auto
termination
  by (relation "measure (\<lambda>(E, sock, rem, s). nat (rem + 10000001))") auto

declare poll_api.simps [simp del]

definition waitAPI :: "env \<Rightarrow> string \<Rightarrow> ('z, (host_error, unit) result) action" where
  "waitAPI E sock = State (poll_api E sock 5000000000)"

definition load_body :: "clone_params \<Rightarrow> json" where
  "load_body c = JObj
     [(''snapshot_path'', JStr (StatePath c)),
      (''mem_backend'', JObj [(''backend_type'', JStr ''File''), (''backend_path'', JStr (MemPath c))]),
      (''enable_diff_snapshots'', JBool False),
      (''resume_vm'', JBool False),
      (''network_overrides'', JArr [JObj [(''iface_id'', JStr ''1''), (''host_dev_name'', JStr (CloneTap c))]])]"

definition mmds_body :: "clone_params \<Rightarrow> json" where
  "mmds_body c = JObj
     [(''ip'', JStr (CloneIP c)), (''mac'', JStr (CloneMac c)), (''gw'', JStr (CloneGateway c)),
      (''prefix'', JStr (itoa (Prefix c))), (''gen'', JStr (Gen c))]"

text \<open>The four requests of a clone, in order.\<close>

definition clone_requests :: "clone_params \<Rightarrow> (string \<times> string \<times> json) list" where
  "clone_requests c =
     [(''PUT'', ''/snapshot/load'', load_body c),
      (''PATCH'', ''/drives/rootfs'', JObj [(''drive_id'', JStr ''rootfs''), (''path_on_host'', JStr (CloneRootfsPath c))]),
      (''PUT'', ''/mmds'', mmds_body c),
      (''PATCH'', ''/vm'', JObj [(''state'', JStr ''Resumed'')])]"

definition StartClone :: "env \<Rightarrow> run_options \<Rightarrow> clone_params
    \<Rightarrow> ('z, (host_error, machine \<times> runtime_config) result) action" where
  "StartClone E opts0 c = do {
     r \<leftarrow> applyDefaults E opts0;
     (case r of Inl e \<Rightarrow> return (Inl e) | Inr opts \<Rightarrow> do {
        vmID \<leftarrow> call E NewUUID;
        _ \<leftarrow> call E (OpenLog (Join [LogDir opts, ''firecracker-'' @ r_out vmID @ ''.log'']));
        p \<leftarrow> call E (ProcStart [FirecrackerBin opts, ''--api-sock'', SocketPath opts, ''--id'', r_out vmID, ''--no-seccomp'']);
        if \<not> r_ok p then return (Inl (CommandFailed [FirecrackerBin opts] (r_out p)))
        else do {
          r \<leftarrow> waitAPI E (SocketPath opts);
          r \<leftarrow> (case r of Inl e \<Rightarrow> return (Inl e)
                | Inr _ \<Rightarrow> each_until_error (\<lambda>(meth, path, body). fcAPI E (SocketPath opts) meth path body) (clone_requests c));
          (case r of
             Inl e \<Rightarrow> do { _ \<leftarrow> call E (ProcKill (r_num p)); return (Inl e) }
           | Inr _ \<Rightarrow>
               return (Inr (\<lparr>m_sdk = None, m_raw = Some \<lparr>raw_process = Some (r_num p), raw_sock = SocketPath opts\<rparr>\<rparr>,
                            \<lparr>rt_SocketPath = SocketPath opts, rt_VMID = r_out vmID\<rparr>)))
        }
     })
   }"

subsection \<open>Nothing but calls\<close>

lemma poll_api_host_only: "host_only s (snd (poll_api E sock rem s))"
proof (induction E sock rem s rule: poll_api.induct)
  case (1 E sock rem s)
  then show ?case
    by (subst poll_api.simps) (auto simp: call_def Let_def host_only_def)
qed

lemma waitAPI_host_only [io_host]: "state_io_rel host_only (waitAPI E sock)"
  by (simp add: waitAPI_def state_io_rel_def poll_api_host_only)

lemmas vm_defs =
  applyDefaults_def fcConfig_def buildCommand_def new_sdk_machine_def NewMachine_def NewMachineFromSnapshot_def
  sdk_call_def with_sdk_def Start_def StopForce_def ShutdownGuest_def Wait_def PID_def Pause_def Resume_def
  Snapshot_def fcAPI_def StartClone_def

lemma vm_host_only [io_host]:
  "state_io_rel host_only (NewMachine E opts)"
  "state_io_rel host_only (NewMachineFromSnapshot E opts mem st)"
  "state_io_rel host_only (Start E mp)"
  "state_io_rel host_only (StopForce E mp)"
  "state_io_rel host_only (ShutdownGuest E mp)"
  "state_io_rel host_only (Wait E m b)"
  "state_io_rel host_only (PID E mp)"
  "state_io_rel host_only (Pause E mp)"
  "state_io_rel host_only (Resume E mp)"
  "state_io_rel host_only (Snapshot E mp mem st)"
  "state_io_rel host_only (StartClone E opts c)"
  unfolding vm_defs Let_def
  by (intro host_frame.io_intros host_frame.io_each_until_error call_host_only waitAPI_host_only)+

end
