(* ===== verification/Server.thy ===== *)
theory Server
  imports Vm Registry_Inv
begin

text \<open>
  \<open>internal/server/server.go\<close>, \<open>ports.go\<close>, \<open>ttl.go\<close>, \<open>reconcile.go\<close> and \<open>waitForAgent\<close>
  of \<open>proxy.go\<close>: the state of the server is the record of host calls extended with the
  database and the map of tracked machines; every handler is an action on it that returns
  the status and the body of the response. A request body arrives decoded: malformed,
  absent or a value. A cancelled request context shows up as failing calls. The goroutine
  that logs the end of a VM has no effect on the state and is left out.
\<close>

record server = host +
  reg_db :: registry_db
  machines :: "string \<Rightarrow> machine option"

record server_config =
  ServerSocketPath :: string
  Prov :: provisioner
  ServerGatewayIP :: string
  VMTemplate :: run_options
  RegPools :: pools
  ListenAddr :: string
  APIToken :: string
  GatewayURL :: string
  GatewayToken :: string
  AdvertiseAddr :: string
  HostID :: string

type_synonym 'a server_action = "(server, 'a) state"

datatype server_error =
    ErrDecode | ErrNegativeTimeout | ErrCount | ErrInvalidGuestPort int
  | ErrRegistry reg_error | ErrGetSandbox reg_error
  | ErrPrepareRootfs host_error | ErrRegistryCreate reg_error | ErrCreateTap host_error
  | ErrNewMachine host_error | ErrStart host_error | ErrPid host_error
  | ErrPortForward host_error | ErrFinishStart reg_error | ErrAgentNotReady int
  | ErrAllocatePort reg_error
  | ErrNotRunning string | ErrSnapshotDir host_error | ErrPause host_error
  | ErrCreateSnapshot host_error | ErrFreezeRootfs host_error | ErrRecordSnapshot reg_error
  | ErrSnapshotNotFound string | ErrRegistryRestore reg_error | ErrCopyRootfs host_error
  | ErrStageRootfs host_error | ErrCloneRootfs host_error | ErrStartClone host_error
  | ErrAttachTap host_error | ErrAllClonesFailed
  | ErrBadRequest | ErrAgentUnreachable | ErrUnauthorized

datatype body =
    BError server_error
  | BSandbox sandbox
  | BSandboxes "sandbox list"
  | BPort port_mapping
  | BPorts "port_mapping list"
  | BSnapshot snapshot
  | BSnapshots "snapshot list"
  | BProxied "(string \<times> string) list" string  \<comment> \<open>headers and body of the agent's answer\<close>
  | BEmpty

type_synonym response = "nat \<times> body"

abbreviation httpError :: "nat \<Rightarrow> server_error \<Rightarrow> response server_action" where
  "httpError code e \<equiv> return (code, BError e)"

abbreviation writeJSON :: "nat \<Rightarrow> body \<Rightarrow> response server_action" where
  "writeJSON code b \<equiv> return (code, b)"

subsection \<open>Registry calls and the machine map\<close>

definition db_update :: "env \<Rightarrow> db_op \<Rightarrow> (faults \<Rightarrow> registry_db \<Rightarrow> 'r \<times> registry_db) \<Rightarrow> 'r server_action" where
  "db_update E op f = State (\<lambda>s.
     (case f (db_faults E (calls s) op) (reg_db s) of
        (r, d) \<Rightarrow> (r, s\<lparr>calls := calls s @ [DbOp op], reg_db := d\<rparr>)))"

definition db_query :: "env \<Rightarrow> db_op \<Rightarrow> (faults \<Rightarrow> registry_db \<Rightarrow> 'r) \<Rightarrow> 'r server_action" where
  "db_query E op f = State (\<lambda>s.
     (f (db_faults E (calls s) op) (reg_db s), s\<lparr>calls := calls s @ [DbOp op]\<rparr>))"

definition reg_Destroy :: "env \<Rightarrow> string \<Rightarrow> (reg_error, unit) result server_action" where
  "reg_Destroy E sid = db_update E (OpDestroy sid) (\<lambda>fl. Destroy fl sid)"

definition reg_Get :: "env \<Rightarrow> string \<Rightarrow> (reg_error, sandbox) result server_action" where
  "reg_Get E sid = db_query E (OpGet sid) (\<lambda>fl. Get fl sid)"

definition reg_Ports :: "env \<Rightarrow> string \<Rightarrow> (reg_error, port_mapping list) result server_action" where
  "reg_Ports E sid = db_query E (OpPorts sid) (\<lambda>fl. Ports fl sid)"

definition reg_FinishStart :: "env \<Rightarrow> string \<Rightarrow> int \<Rightarrow> runtime_config \<Rightarrow> (reg_error, unit) result server_action" where
  "reg_FinishStart E sid pid rt = db_update E (OpFinishStart sid)
     (\<lambda>fl. FinishStart fl sid pid (rt_VMID rt) (rt_SocketPath rt))"

definition reg_Create :: "env \<Rightarrow> server_config \<Rightarrow> string \<Rightarrow> string \<Rightarrow> int option
    \<Rightarrow> (reg_error, sandbox) result server_action" where
  "reg_Create E cfg sid path expiresAt = do {
     now \<leftarrow> call E Now;
     db_update E (OpCreate sid) (\<lambda>fl. Create (RegPools cfg) fl (r_num now) sid path expiresAt)
   }"

definition machines_Store :: "string \<Rightarrow> machine \<Rightarrow> unit server_action" where
  "machines_Store sid m = State (\<lambda>s. ((), s\<lparr>machines := (machines s)(sid \<mapsto> m)\<rparr>))"

definition machines_Load :: "string \<Rightarrow> machine option server_action" where
  "machines_Load sid = State (\<lambda>s. (machines s sid, s))"

definition machines_LoadAndDelete :: "string \<Rightarrow> machine option server_action" where
  "machines_LoadAndDelete sid = State (\<lambda>s. (machines s sid, s\<lparr>machines := (machines s)(sid := None)\<rparr>))"

subsection \<open>Helpers\<close>

text \<open>The bytes of a MAC address: locally administered, unicast.\<close>

definition mac_bytes :: "u8 list \<Rightarrow> u8 list" where
  "mac_bytes b = b[0 := (b ! 0 OR 0x02) AND 0xfe]"

definition hex_upper :: "nat \<Rightarrow> char" where
  "hex_upper d = (if d < 10 then char_of (48 + d) else char_of (55 + d))"

definition print_mac :: "u8 list \<Rightarrow> string" where
  "print_mac b = join_with '':'' (map (\<lambda>x. [hex_upper (unat x div 16), hex_upper (unat x mod 16)]) b)"

definition randomMAC :: "env \<Rightarrow> ('z, string) action" where
  "randomMAC E = do {
     r \<leftarrow> call E (RandRead 6);
     return (print_mac (mac_bytes (take 6 (map of_char (r_out r) @ replicate 6 0))))
   }"

text \<open>
  The poll of \<open>waitForAgent\<close>, in nanoseconds left until the deadline: a probe takes the time
  it answers with, at most what is left; a round waits 200 ms, and the deadline wins when it
  comes first.
\<close>

function poll_agent :: "env \<Rightarrow> string \<Rightarrow> int \<Rightarrow> 'z host_scheme \<Rightarrow> bool \<times> 'z host_scheme" where
  "poll_agent E ip rem s =
     (let (r, s) = run_state (call E (ProbeAgent ip)) s in
      if r_ok r \<and> r_num r = 200 then (True, s)
      else let rem = rem - max 0 (r_ns r) in
        if rem < 200000000 then (False, s)
        else let (d, s) = run_state (call E CtxDone) s in
          if r_ok d then (False, s)
          else poll_agent E ip (rem - 200000000) s)"
  by pat_completeness auto
termination
  by (relation "measure (\<lambda>(E, ip, rem, s). nat rem)") auto

declare poll_agent.simps [simp del]

definition waitForAgent :: "env \<Rightarrow> string \<Rightarrow> int \<Rightarrow> ('z, (server_error, unit) result) action" where
  "waitForAgent E ip timeout = do {
     ok \<leftarrow> State (poll_agent E ip timeout);
     return (if ok then Inr () else Inl (ErrAgentNotReady timeout))
   }"

text \<open>The deadline of a request: none, an error, or a point in time.\<close>

definition timeout_of :: "int request_body \<Rightarrow> (server_error, int) result" where
  "timeout_of b = (case b of
     Malformed \<Rightarrow> Inl ErrDecode
   | NoBody \<Rightarrow> Inr 0
   | Decoded n \<Rightarrow> if n < 0 then Inl ErrNegativeTimeout else Inr n)"

definition expires_at :: "env \<Rightarrow> int \<Rightarrow> int option server_action" where
  "expires_at E n =
     (if n > 0 then do { now \<leftarrow> call E Now; return (deadline (r_num now) n) } else return None)"

subsection \<open>Destroying\<close>

definition rollbackPreVM :: "env \<Rightarrow> server_config \<Rightarrow> string \<Rightarrow> sandbox \<Rightarrow> unit server_action" where
  "rollbackPreVM E cfg sid sb = do {
     _ \<leftarrow> DeleteTap E (sb_tap_device sb);
     _ \<leftarrow> RemoveRootfs E (sb_rootfs_path sb);
     _ \<leftarrow> reg_Destroy E sid;
     return ()
   }"

definition stop_machine :: "env \<Rightarrow> machine \<Rightarrow> unit server_action" where
  "stop_machine E m = do {
     _ \<leftarrow> ShutdownGuest E (Some m);
     exited \<leftarrow> Wait E m (Some 120000000000);
     if exited then return ()
     else do {
       _ \<leftarrow> StopForce E (Some m);
       _ \<leftarrow> Wait E m None;
       return ()
     }
   }"

definition release :: "env \<Rightarrow> server_config \<Rightarrow> sandbox \<Rightarrow> port_mapping list \<Rightarrow> unit server_action" where
  "release E cfg sb ports = do {
     _ \<leftarrow> each (\<lambda>pm. RemovePortForwardTo E (pm_host_port pm) (sb_guest_ip sb) (pm_guest_port pm)) ports;
     _ \<leftarrow> RemovePortForward E (Prov cfg) (sb_host_port sb) (sb_guest_ip sb);
     _ \<leftarrow> DeleteTap E (sb_tap_device sb);
     _ \<leftarrow> RemoveRootfs E (sb_rootfs_path sb);
     return ()
   }"

definition destroy :: "env \<Rightarrow> server_config \<Rightarrow> string \<Rightarrow> (server_error, unit) result server_action" where
  "destroy E cfg sid = do {
     r \<leftarrow> reg_Get E sid;
     (case r of Inl e \<Rightarrow> return (Inl (ErrGetSandbox e)) | Inr sb \<Rightarrow> do {
        ps \<leftarrow> reg_Ports E sid;
        v \<leftarrow> machines_LoadAndDelete sid;
        _ \<leftarrow> (case v of None \<Rightarrow> return () | Some m \<Rightarrow> stop_machine E m);
        _ \<leftarrow> release E cfg sb (case ps of Inl _ \<Rightarrow> [] | Inr ports \<Rightarrow> ports);
        r \<leftarrow> reg_Destroy E sid;
        return (case r of Inl e \<Rightarrow> Inl (ErrRegistry e) | Inr _ \<Rightarrow> Inr ())
     })
   }"

definition shutdownAll :: "env \<Rightarrow> server_config \<Rightarrow> string list \<Rightarrow> unit server_action" where
  "shutdownAll E cfg ids = each (destroy E cfg) ids"

subsection \<open>Creating\<close>

definition vm_options :: "server_config \<Rightarrow> string \<Rightarrow> sandbox \<Rightarrow> string \<Rightarrow> run_options" where
  "vm_options cfg rootfs sb mac =
     (VMTemplate cfg)\<lparr>RootfsPath := rootfs, TapDevice := sb_tap_device sb,
       GuestCIDR := sb_guest_ip sb @ ''/24'', GatewayIP := ServerGatewayIP cfg,
       MacAddress := mac, SocketPath := ''''\<rparr>"

definition started :: "sandbox \<Rightarrow> int \<Rightarrow> runtime_config \<Rightarrow> sandbox" where
  "started sb pid rt = sb\<lparr>sb_pid := pid, sb_vm_id := rt_VMID rt, sb_socket_path := rt_SocketPath rt\<rparr>"

text \<open>From a started machine to an answering agent; shared by create and restore.\<close>

definition bring_up :: "env \<Rightarrow> server_config \<Rightarrow> string \<Rightarrow> sandbox \<Rightarrow> machine \<Rightarrow> runtime_config
    \<Rightarrow> (host_error \<Rightarrow> server_error) \<Rightarrow> int \<Rightarrow> response server_action" where
  "bring_up E cfg sid sb m rt start_error agent_deadline = do {
     r \<leftarrow> Start E (Some m);
     (case r of
        Inl e \<Rightarrow> do { _ \<leftarrow> StopForce E (Some m); _ \<leftarrow> rollbackPreVM E cfg sid sb; httpError 500 (start_error e) }
      | Inr _ \<Rightarrow> do {
     r \<leftarrow> PID E (Some m);
     (case r of
        Inl e \<Rightarrow> do { _ \<leftarrow> StopForce E (Some m); _ \<leftarrow> rollbackPreVM E cfg sid sb; httpError 500 (ErrPid e) }
      | Inr pid \<Rightarrow> do {
     r \<leftarrow> AddPortForward E (Prov cfg) (sb_host_port sb) (sb_guest_ip sb);
     (case r of
        Inl e \<Rightarrow> do { _ \<leftarrow> StopForce E (Some m); _ \<leftarrow> rollbackPreVM E cfg sid sb; httpError 500 (ErrPortForward e) }
      | Inr _ \<Rightarrow> do {
     r \<leftarrow> reg_FinishStart E sid pid rt;
     (case r of
        Inl e \<Rightarrow> do {
          _ \<leftarrow> RemovePortForward E (Prov cfg) (sb_host_port sb) (sb_guest_ip sb);
          _ \<leftarrow> StopForce E (Some m);
          _ \<leftarrow> rollbackPreVM E cfg sid sb;
          httpError 500 (ErrFinishStart e)
        }
      | Inr _ \<Rightarrow> do {
     _ \<leftarrow> machines_Store sid m;
     r \<leftarrow> waitForAgent E (sb_guest_ip sb) agent_deadline;
     (case r of
        Inl e \<Rightarrow> do { _ \<leftarrow> destroy E cfg sid; httpError 500 e }
      | Inr _ \<Rightarrow> writeJSON 201 (BSandbox (started sb pid rt))) }) }) }) }) }"

definition handleCreate :: "env \<Rightarrow> server_config \<Rightarrow> int request_body \<Rightarrow> response server_action" where
  "handleCreate E cfg rb = do {
     u \<leftarrow> call E NewUUID;
     (let sid = r_out u in
      case timeout_of rb of
        Inl e \<Rightarrow> httpError 400 e
      | Inr timeout \<Rightarrow> do {
     expiresAt \<leftarrow> expires_at E timeout;
     r \<leftarrow> PrepareRootfs E (Prov cfg) sid;
     (case r of
        Inl e \<Rightarrow> httpError 500 (ErrPrepareRootfs e)
      | Inr rootfs \<Rightarrow> do {
     r \<leftarrow> reg_Create E cfg sid rootfs expiresAt;
     (case r of
        Inl e \<Rightarrow> do { _ \<leftarrow> CleanupRootfs E (Prov cfg) sid; httpError 500 (ErrRegistryCreate e) }
      | Inr sb \<Rightarrow> do {
     r \<leftarrow> CreateTap E (Prov cfg) (sb_tap_device sb);
     (case r of
        Inl e \<Rightarrow> do { _ \<leftarrow> rollbackPreVM E cfg sid sb; httpError 500 (ErrCreateTap e) }
      | Inr _ \<Rightarrow> do {
     mac \<leftarrow> randomMAC E;
     r \<leftarrow> NewMachine E (vm_options cfg rootfs sb mac);
     (case r of
        Inl e \<Rightarrow> do { _ \<leftarrow> rollbackPreVM E cfg sid sb; httpError 500 (ErrNewMachine e) }
      | Inr (m, rt) \<Rightarrow> bring_up E cfg sid sb m rt ErrStart 60000000000) }) }) }) }) }"

subsection \<open>Reading and destroying\<close>

definition handleList :: "env \<Rightarrow> response server_action" where
  "handleList E = do {
     r \<leftarrow> db_query E OpList List;
     (case r of Inl e \<Rightarrow> httpError 500 (ErrRegistry e) | Inr sbs \<Rightarrow> writeJSON 200 (BSandboxes sbs))
   }"

definition handleGet :: "env \<Rightarrow> string \<Rightarrow> response server_action" where
  "handleGet E sid = do {
     r \<leftarrow> reg_Get E sid;
     (case r of Inl e \<Rightarrow> httpError 404 (ErrRegistry e) | Inr sb \<Rightarrow> writeJSON 200 (BSandbox sb))
   }"

definition handleDestroy :: "env \<Rightarrow> server_config \<Rightarrow> string \<Rightarrow> response server_action" where
  "handleDestroy E cfg sid = do {
     r \<leftarrow> destroy E cfg sid;
     (case r of Inl e \<Rightarrow> httpError 500 e | Inr _ \<Rightarrow> writeJSON 204 BEmpty)
   }"

subsection \<open>Ports\<close>

definition handleExposePort :: "env \<Rightarrow> server_config \<Rightarrow> string \<Rightarrow> int request_body \<Rightarrow> response server_action" where
  "handleExposePort E cfg sid rb =
     (case (case rb of Malformed \<Rightarrow> None | NoBody \<Rightarrow> None | Decoded gp \<Rightarrow> Some gp) of
        None \<Rightarrow> httpError 400 ErrDecode
      | Some gp \<Rightarrow>
          if gp < 1 \<or> gp > 65535 then httpError 400 (ErrInvalidGuestPort gp)
          else do {
     r \<leftarrow> reg_Get E sid;
     (case r of
        Inl e \<Rightarrow> httpError 404 (ErrRegistry e)
      | Inr sb \<Rightarrow>
          if gp = GuestPort (Network (Prov cfg))
          then writeJSON 200 (BPort \<lparr>pm_guest_port = gp, pm_host_port = sb_host_port sb\<rparr>)
          else do {
     r \<leftarrow> reg_Ports E sid;
     (case r of
        Inl e \<Rightarrow> httpError 500 (ErrRegistry e)
      | Inr existing \<Rightarrow>
          (case find (\<lambda>pm. pm_guest_port pm = gp) existing of
             Some pm \<Rightarrow> writeJSON 200 (BPort pm)
           | None \<Rightarrow> do {
     r \<leftarrow> db_update E (OpAddPort sid gp) (\<lambda>fl. AddPort (RegPools cfg) fl sid gp);
     (case r of
        Inl e \<Rightarrow> httpError 500 (ErrAllocatePort e)
      | Inr hostPort \<Rightarrow> do {
     r \<leftarrow> AddPortForwardTo E hostPort (sb_guest_ip sb) gp;
     (case r of
        Inl e \<Rightarrow> do {
          _ \<leftarrow> db_update E (OpDeletePort sid gp) (\<lambda>fl. DeletePort fl sid gp);
          httpError 500 (ErrPortForward e)
        }
      | Inr _ \<Rightarrow> writeJSON 200 (BPort \<lparr>pm_guest_port = gp, pm_host_port = hostPort\<rparr>)) }) })) }) })"

definition handleListPorts :: "env \<Rightarrow> server_config \<Rightarrow> string \<Rightarrow> response server_action" where
  "handleListPorts E cfg sid = do {
     r \<leftarrow> reg_Get E sid;
     (case r of
        Inl e \<Rightarrow> httpError 404 (ErrRegistry e)
      | Inr sb \<Rightarrow> do {
     r \<leftarrow> reg_Ports E sid;
     (case r of
        Inl e \<Rightarrow> httpError 500 (ErrRegistry e)
      | Inr extra \<Rightarrow> writeJSON 200 (BPorts
          (\<lparr>pm_guest_port = GuestPort (Network (Prov cfg)), pm_host_port = sb_host_port sb\<rparr> # extra))) }) }"

subsection \<open>Timeouts\<close>

definition handleSetTimeout :: "env \<Rightarrow> string \<Rightarrow> int request_body \<Rightarrow> response server_action" where
  "handleSetTimeout E sid rb =
     (case (case rb of NoBody \<Rightarrow> Inl ErrDecode | _ \<Rightarrow> timeout_of rb) of
        Inl e \<Rightarrow> httpError 400 e
      | Inr timeout \<Rightarrow> do {
     expiresAt \<leftarrow> expires_at E timeout;
     r \<leftarrow> db_update E (OpSetExpiry sid) (\<lambda>fl. SetExpiry fl sid expiresAt);
     (case r of
        Inl e \<Rightarrow> httpError 404 (ErrRegistry e)
      | Inr _ \<Rightarrow> do {
     r \<leftarrow> reg_Get E sid;
     (case r of Inl e \<Rightarrow> httpError 500 (ErrRegistry e) | Inr sb \<Rightarrow> writeJSON 200 (BSandbox sb)) }) })"

text \<open>One tick of \<open>reapExpired\<close>, at time \<open>now\<close>.\<close>

definition reap_tick :: "env \<Rightarrow> server_config \<Rightarrow> int \<Rightarrow> unit server_action" where
  "reap_tick E cfg now = do {
     r \<leftarrow> db_query E OpExpired (\<lambda>fl. Expired fl now);
     (case r of Inl e \<Rightarrow> return () | Inr expired \<Rightarrow> each (\<lambda>sb. destroy E cfg (sb_id sb)) expired)
   }"

subsection \<open>Reconciling at startup\<close>

definition isFirecrackerProc :: "env \<Rightarrow> int \<Rightarrow> ('z, bool) action" where
  "isFirecrackerProc E pid =
     (if pid \<le> 0 then return False
      else do {
        r \<leftarrow> call E (ReadFile (''/proc/'' @ itoa pid @ ''/comm''));
        return (r_ok r \<and> TrimSpace (r_out r) = ''firecracker'')
      })"

text \<open>
  The loop of \<open>killWithGrace\<close>, in nanoseconds left of the grace period; signal 0 answers ok
  while the process exists, and a round sleeps 100 ms.
\<close>

function poll_exit :: "env \<Rightarrow> int \<Rightarrow> int \<Rightarrow> 'z host_scheme \<Rightarrow> bool \<times> 'z host_scheme" where
  "poll_exit E pid rem s =
     (if rem \<le> 0 then (False, s)
      else let (r, s) = run_state (call E (Kill pid 0)) s in
        if \<not> r_ok r then (True, s)
        else let (_, s) = run_state (call E (SleepNs 100000000)) s in
          poll_exit E pid (rem - max 0 (r_ns r) - 100000000) s)"
  by pat_completeness auto
termination
  by (relation "measure (\<lambda>(E, pid, rem, s). nat rem)") auto

declare poll_exit.simps [simp del]

definition killWithGrace :: "env \<Rightarrow> int \<Rightarrow> int \<Rightarrow> ('z, unit) action" where
  "killWithGrace E pid grace = do {
     _ \<leftarrow> call E (Kill pid SIGTERM);
     exited \<leftarrow> State (poll_exit E pid grace);
     if exited then return () else do { _ \<leftarrow> call E (Kill pid SIGKILL); return () }
   }"

definition reconcile_row :: "env \<Rightarrow> server_config \<Rightarrow> sandbox \<Rightarrow> unit server_action" where
  "reconcile_row E cfg sb = do {
     fc \<leftarrow> isFirecrackerProc E (sb_pid sb);
     _ \<leftarrow> (if fc then killWithGrace E (sb_pid sb) 5000000000 else return ());
     ps \<leftarrow> reg_Ports E (sb_id sb);
     _ \<leftarrow> release E cfg sb (case ps of Inl _ \<Rightarrow> [] | Inr ports \<Rightarrow> ports);
     _ \<leftarrow> reg_Destroy E (sb_id sb);
     return ()
   }"

definition reconcile :: "env \<Rightarrow> server_config \<Rightarrow> unit server_action" where
  "reconcile E cfg = do {
     r \<leftarrow> db_query E OpAll All;
     (case r of Inl e \<Rightarrow> return () | Inr rows \<Rightarrow> each (reconcile_row E cfg) rows)
   }"

end
