(* ===== verification/Server_Core.thy ===== *)
theory Server_Core
  imports Server Registry_Roundtrip
begin

text \<open>
  Reasoning about handlers: what a host program, a registry call, a rollback and a destroy
  do to the database and the tracked machines.
\<close>

subsection \<open>Rules\<close>

lemma host_onlyD: "host_only s t \<Longrightarrow> reg_db t = reg_db s \<and> machines t = machines (s :: server)"
  by (cases s; cases t) (simp add: host_only_def)

lemma host_wp:
  "state_io_rel host_only m \<Longrightarrow> (\<And>a t. reg_db t = reg_db s \<Longrightarrow> machines t = machines s \<Longrightarrow> Q a t) \<Longrightarrow>
     wp m Q (s :: server)"
  by (rule host_frame.io_wp) (auto dest: host_onlyD)

lemma wp_db_update [wp]:
  "wp (db_update E op f) Q = (\<lambda>s.
     case f (db_faults E (calls s) op) (reg_db s) of (r, d) \<Rightarrow> Q r (s\<lparr>calls := calls s @ [DbOp op], reg_db := d\<rparr>))"
  by (simp add: wp_def db_update_def fun_eq_iff split: prod.split)

lemma wp_db_query [wp]:
  "wp (db_query E op f) Q = (\<lambda>s.
     Q (f (db_faults E (calls s) op) (reg_db s)) (s\<lparr>calls := calls s @ [DbOp op]\<rparr>))"
  by (simp add: wp_def db_query_def fun_eq_iff)

lemma wp_machines [wp]:
  "wp (machines_Store sid m) P = (\<lambda>s. P () (s\<lparr>machines := (machines s)(sid \<mapsto> m)\<rparr>))"
  "wp (machines_Load sid) Q = (\<lambda>s. Q (machines s sid) s)"
  "wp (machines_LoadAndDelete sid) Q = (\<lambda>s. Q (machines s sid) (s\<lparr>machines := (machines s)(sid := None)\<rparr>))"
  by (simp_all add: wp_def fun_eq_iff machines_Store_def machines_Load_def machines_LoadAndDelete_def)

lemma poll_agent_host_only: "host_only s (snd (poll_agent E ip rem s))"
proof (induction E ip rem s rule: poll_agent.induct)
  case (1 E ip rem s)
  then show ?case by (subst poll_agent.simps) (auto simp: Let_def host_only_def)
qed

lemma poll_exit_host_only: "host_only s (snd (poll_exit E pid rem s))"
proof (induction E pid rem s rule: poll_exit.induct)
  case (1 E pid rem s)
  then show ?case by (subst poll_exit.simps) (auto simp: Let_def host_only_def)
qed

lemma server_host_only [io_host]:
  "state_io_rel host_only (waitForAgent E ip n)"
  "state_io_rel host_only (randomMAC E)"
  "state_io_rel host_only (isFirecrackerProc E pid)"
  "state_io_rel host_only (killWithGrace E pid n)"
  "state_io_rel host_only (expires_at E n)"
  "state_io_rel host_only (stop_machine E m)"
  "state_io_rel host_only (release E cfg sb ports)"
proof -
  have "state_io_rel host_only (State (poll_agent E ip n))" "state_io_rel host_only (State (poll_exit E pid n))"
    by (simp_all add: state_io_rel_def poll_agent_host_only poll_exit_host_only)
  note io = this host_frame.io_intros host_frame.io_each call_host_only io_host
  show "state_io_rel host_only (waitForAgent E ip n)"
    "state_io_rel host_only (randomMAC E)"
    "state_io_rel host_only (isFirecrackerProc E pid)"
    "state_io_rel host_only (killWithGrace E pid n)"
    "state_io_rel host_only (expires_at E n)"
    "state_io_rel host_only (stop_machine E m)"
    "state_io_rel host_only (release E cfg sb ports)"
    unfolding waitForAgent_def randomMAC_def isFirecrackerProc_def killWithGrace_def expires_at_def
      stop_machine_def release_def
    by (intro io)+
qed

lemmas host_wps = io_host [THEN host_wp]

text \<open>The calls a cleanup needs: reading and deleting the row do not fail.\<close>

definition cleanup_ok :: "env \<Rightarrow> bool" where
  "cleanup_ok E \<longleftrightarrow> (\<forall>h sid. db_faults E h (OpDestroy sid) = no_faults \<and> db_faults E h (OpGet sid) = no_faults)"

lemma cleanup_okD [simp]:
  "cleanup_ok E \<Longrightarrow> db_faults E h (OpDestroy sid) = no_faults"
  "cleanup_ok E \<Longrightarrow> db_faults E h (OpGet sid) = no_faults"
  by (simp_all add: cleanup_ok_def)

subsection \<open>Rolling back and destroying\<close>

lemma rollback_wp:
  assumes "cleanup_ok E"
    and "\<And>t. reg_db t = snd (Destroy no_faults sid (reg_db s)) \<Longrightarrow> machines t = machines s \<Longrightarrow> Q () t"
  shows "wp (rollbackPreVM E cfg sid sb) Q s"
  unfolding rollbackPreVM_def reg_Destroy_def wp
  using assms by (intro host_wp io_host) (auto split: prod.splits)

lemma Get_no_faults: "Get no_faults sid db = (case find_sandbox sid db of None \<Rightarrow> Inl NoRows | Some r \<Rightarrow> Inr (scanSandbox r))"
  by (simp add: Get_def)

lemma Destroy_no_faults:
  "Destroy no_faults sid db =
     (if find_sandbox sid db = None then (Inl (SandboxNotFound sid), db)
      else (Inr (), delete_sandbox sid (delete_ports_of sid db)))"
  by (simp add: Destroy_def)

text \<open>Destroying a known sandbox removes its row, its ports and its machine, and nothing else.\<close>

lemma destroy_wp:
  assumes "cleanup_ok E" "find_sandbox sid (reg_db s) \<noteq> None"
    and "\<And>t. reg_db t = snd (Destroy no_faults sid (reg_db s)) \<Longrightarrow>
           machines t = (machines s)(sid := None) \<Longrightarrow> Q (Inr ()) t"
  shows "wp (destroy E cfg sid) Q s"
  unfolding destroy_def reg_Get_def reg_Ports_def reg_Destroy_def wp
  using assms
  by (auto simp: Get_no_faults Destroy_no_faults wp split: option.splits sum.splits
      intro!: host_wp io_host)

lemma destroy_unknown_wp:
  assumes "cleanup_ok E" "find_sandbox sid (reg_db s) = None"
    and "\<And>t. reg_db t = reg_db s \<Longrightarrow> machines t = machines s \<Longrightarrow> Q (Inl (ErrGetSandbox NoRows)) t"
  shows "wp (destroy E cfg sid) Q s"
  unfolding destroy_def reg_Get_def wp
  using assms by (auto simp: Get_no_faults wp)

end
