(* ===== verification/Server_Create.thy ===== *)
theory Server_Create
  imports Server_Core
begin

text \<open>
  Creating a sandbox is all or nothing: whatever fails on the way, the database and the
  machine map end as they began; on success the caller gets the row that is stored.
\<close>

subsection \<open>From a machine to a running sandbox\<close>

lemma delete_after_update:
  assumes "\<And>r. c_id (f r) = c_id r"
  shows "delete_sandbox sid (delete_ports_of sid (update_sandbox sid f db)) = delete_sandbox sid (delete_ports_of sid db)"
proof -
  have "filter (\<lambda>r. c_id r \<noteq> sid) (map (\<lambda>r. if c_id r = sid then f r else r) rs) = filter (\<lambda>r. c_id r \<noteq> sid) rs" for rs
    by (induction rs) (simp_all add: assms)
  then show ?thesis
    by (simp add: delete_sandbox_def delete_ports_of_def update_sandbox_def)
qed

lemma find_after_update:
  "(\<And>r. c_id (f r) = c_id r) \<Longrightarrow>
     find_sandbox x (update_sandbox sid f db) =
       map_option (\<lambda>r. if c_id r = sid then f r else r) (find_sandbox x db)"
  unfolding find_sandbox_def update_sandbox_def by (simp add: find_map_same)

definition set_started :: "int \<Rightarrow> runtime_config \<Rightarrow> sandbox_row \<Rightarrow> sandbox_row" where
  "set_started pid rt r = r\<lparr>c_pid := pid, c_vm_id := rt_VMID rt, c_socket_path := rt_SocketPath rt\<rparr>"

lemma set_started_id [simp]: "c_id (set_started pid rt r) = c_id r"
  by (simp add: set_started_def)

lemma FinishStart_cases:
  "find_sandbox sid db \<noteq> None \<Longrightarrow>
     (\<exists>e. FinishStart fl sid pid (rt_VMID rt) (rt_SocketPath rt) db = (Inl e, db)) \<or>
     FinishStart fl sid pid (rt_VMID rt) (rt_SocketPath rt) db = (Inr (), update_sandbox sid (set_started pid rt) db)"
  by (auto simp: FinishStart_def set_started_def [abs_def])

lemma bring_up_wp:
  assumes "cleanup_ok E" "find_sandbox sid (reg_db s) \<noteq> None" "machines s sid = None"
    and fail: "\<And>e t. reg_db t = snd (Destroy no_faults sid (reg_db s)) \<Longrightarrow> machines t = machines s \<Longrightarrow>
           Q (500, BError e) t"
    and ok: "\<And>pid t. reg_db t = update_sandbox sid (set_started pid rt) (reg_db s) \<Longrightarrow>
           machines t = (machines s)(sid \<mapsto> m) \<Longrightarrow> Q (201, BSandbox (started sb pid rt)) t"
  shows "wp (bring_up E cfg sid sb m rt start_error n) Q s"
proof -
  have undo: "wp (rollbackPreVM E cfg sid sb) (\<lambda>_. Q (500, BError e)) t"
    if "reg_db t = reg_db s" "machines t = machines s" for t e
    using that assms(1) by (intro rollback_wp) (auto intro!: fail)
  have agent: "wp (do { r \<leftarrow> waitForAgent E ip n;
      (case r of Inl e \<Rightarrow> do { _ \<leftarrow> destroy E cfg sid; httpError 500 e }
       | Inr _ \<Rightarrow> writeJSON 201 (BSandbox (started sb pid rt))) }) Q t"
    if t: "reg_db t = update_sandbox sid (set_started pid rt) (reg_db s)" "machines t = (machines s)(sid \<mapsto> m)"
    for t pid ip
  proof -
    have gone: "wp (do { _ \<leftarrow> destroy E cfg sid; httpError 500 e }) Q u"
      if "reg_db u = reg_db t" "machines u = machines t" for u e
      unfolding wp
    proof (rule destroy_wp [OF assms(1)])
      show "find_sandbox sid (reg_db u) \<noteq> None"
        using assms(2) t that by (simp add: find_after_update)
      fix v :: server
      assume "reg_db v = snd (Destroy no_faults sid (reg_db u))" "machines v = (machines u)(sid := None)"
      then show "Q (500, BError e) v"
        using assms(2,3) t that
        by (intro fail) (auto simp: Destroy_no_faults find_after_update delete_after_update fun_upd_idem)
    qed
    show ?thesis
      unfolding wp using t gone [unfolded wp]
      by (intro host_wps) (auto split: sum.split intro!: ok simp: wp)
  qed
  have finish: "wp (reg_FinishStart E sid pid rt) (\<lambda>r. wp (case r of
        Inl e \<Rightarrow> do {
          _ \<leftarrow> RemovePortForward E (Prov cfg) hp ip;
          _ \<leftarrow> StopForce E (Some m);
          _ \<leftarrow> rollbackPreVM E cfg sid sb;
          httpError 500 (ErrFinishStart e)
        }
      | Inr _ \<Rightarrow> do {
          _ \<leftarrow> machines_Store sid m;
          r \<leftarrow> waitForAgent E ip n;
          (case r of Inl e \<Rightarrow> do { _ \<leftarrow> destroy E cfg sid; httpError 500 e }
           | Inr _ \<Rightarrow> writeJSON 201 (BSandbox (started sb pid rt)))
        }) Q) t"
    if t: "reg_db t = reg_db s" "machines t = machines s" for t pid hp ip
    using FinishStart_cases [OF assms(2), of "db_faults E (calls t) (OpFinishStart sid)" pid rt]
  proof
    assume "\<exists>e. FinishStart (db_faults E (calls t) (OpFinishStart sid)) sid pid (rt_VMID rt) (rt_SocketPath rt) (reg_db s) =
        (Inl e, reg_db s)"
    then show ?thesis
      using t unfolding reg_FinishStart_def by (auto simp: wp intro!: host_wps undo)
  next
    assume "FinishStart (db_faults E (calls t) (OpFinishStart sid)) sid pid (rt_VMID rt) (rt_SocketPath rt) (reg_db s) =
        (Inr (), update_sandbox sid (set_started pid rt) (reg_db s))"
    then show ?thesis
      using t unfolding reg_FinishStart_def by (auto simp: wp intro!: agent [unfolded wp])
  qed
  show ?thesis
    unfolding bring_up_def wp
    by (rule host_wps)
      (auto simp: wp split: sum.split intro!: host_wps undo finish [unfolded wp])
qed

subsection \<open>The whole handler\<close>

lemma Create_error: "Create p fl now sid path e db = (Inl err, db') \<Longrightarrow> db' = db"
  by (erule Create_cases) auto

lemma whole_seconds_started:
  "scanSandbox r = whole_seconds sb \<Longrightarrow> scanSandbox (set_started pid rt r) = whole_seconds (started sb pid rt)"
proof -
  have "scanSandbox (set_started pid rt r) = started (scanSandbox r) pid rt"
    by (simp add: scanSandbox_def set_started_def started_def)
  moreover have "started (whole_seconds sb) pid rt = whole_seconds (started sb pid rt)"
    by (simp add: whole_seconds_def started_def)
  ultimately show "scanSandbox r = whole_seconds sb \<Longrightarrow> ?thesis" by simp
qed

definition fresh_id :: "env \<Rightarrow> 'z host_scheme \<Rightarrow> string" where
  "fresh_id E s = r_out (answer E (calls s) NewUUID)"

text \<open>What a caller may rely on after a create.\<close>

definition create_post :: "string \<Rightarrow> server \<Rightarrow> response \<Rightarrow> server \<Rightarrow> bool" where
  "create_post sid s r t \<longleftrightarrow>
     (if fst r = 201
      then \<exists>sb m. snd r = BSandbox sb \<and> sb_id sb = sid \<and> machines t = (machines s)(sid \<mapsto> m) \<and>
             Get no_faults sid (reg_db t) = Inr (whole_seconds sb) \<and>
             (\<forall>x. x = sid \<or> Get no_faults x (reg_db t) = Get no_faults x (reg_db s))
      else reg_db t = reg_db s \<and> machines t = machines s)"

text \<open>Every tracked machine belongs to a row.\<close>

definition tracked_ok :: "server \<Rightarrow> bool" where
  "tracked_ok s \<longleftrightarrow> dom (machines s) \<subseteq> c_id ` set (sandboxes (reg_db s))"

lemma tracked_okD: "tracked_ok s \<Longrightarrow> find_sandbox x (reg_db s) = None \<Longrightarrow> machines s x = None"
  by (force simp: tracked_ok_def find_sandbox_def find_None_iff dom_def)

lemma bring_up_post:
  assumes "cleanup_ok E" "registry_ok (reg_db s)" "tracked_ok s"
    and "allocated (reg_db s) sid sb db'"
    and "reg_db u = db'" "machines u = machines s"
  shows "wp (bring_up E cfg sid sb m rt err n) (create_post sid s) u"
proof (rule bring_up_wp [OF assms(1)])
  obtain r where q: "scanSandbox r = whole_seconds sb" "c_id r = sid"
    and f: "\<And>x. find_sandbox x db' = (if x = sid then Some r else find_sandbox x (reg_db s))"
    and new: "find_sandbox sid (reg_db s) = None"
    using allocated_find [OF assms(4)] by metis
  have undo: "snd (Destroy no_faults sid db') = reg_db s"
    using Destroy_allocated [OF assms(2,4)] by simp
  have sbid: "sb_id sb = sid" using assms(4) by (auto simp: allocated_def)
  show "find_sandbox sid (reg_db u) \<noteq> None" "machines u sid = None"
    using f tracked_okD [OF assms(3) new] assms(5,6) by simp_all
  show "create_post sid s (500, BError x) t"
    if "reg_db t = snd (Destroy no_faults sid (reg_db u))" "machines t = machines u" for x and t :: server
    using that undo assms(5,6) by (simp add: create_post_def)
  show "create_post sid s (201, BSandbox (started sb pid rt)) t"
    if t: "reg_db t = update_sandbox sid (set_started pid rt) (reg_db u)" "machines t = (machines u)(sid \<mapsto> m)"
    for pid and t :: server
  proof -
    have "find_sandbox x (reg_db t) = (if x = sid then Some (set_started pid rt r) else find_sandbox x (reg_db s))" for x
    proof (cases "x = sid")
      case True
      then show ?thesis using f q(2) t(1) assms(5) by (simp add: find_after_update)
    next
      case False
      have "map_option (\<lambda>r. if c_id r = sid then set_started pid rt r else r) (find_sandbox x db') = find_sandbox x db'"
        using find_sandbox_SomeD [of x db'] False by (cases "find_sandbox x db'") auto
      then show ?thesis using f [of x] False t(1) assms(5) by (simp add: find_after_update)
    qed
    then show ?thesis
      using t(2) assms(6) sbid whole_seconds_started [OF q(1)]
      by (auto simp: create_post_def Get_no_faults started_def)
  qed
qed

lemma handleCreate_wp:
  assumes "cleanup_ok E" "registry_ok (reg_db s)" "tracked_ok s"
  shows "wp (handleCreate E cfg rb) (create_post (fresh_id E s) s) s"
proof -
  let ?sid = "fresh_id E s"
  have fail: "create_post ?sid s (code, BError e) t"
    if "code \<noteq> 201" "reg_db t = reg_db s" "machines t = machines s" for code e t
    using that by (simp add: create_post_def)
  have rest: "wp (reg_Create E cfg ?sid path ex) (\<lambda>r. wp (case r of
        Inl e \<Rightarrow> do { _ \<leftarrow> CleanupRootfs E (Prov cfg) ?sid; httpError 500 (ErrRegistryCreate e) }
      | Inr sb \<Rightarrow> do {
          r \<leftarrow> CreateTap E (Prov cfg) (sb_tap_device sb);
          (case r of
             Inl e \<Rightarrow> do { _ \<leftarrow> rollbackPreVM E cfg ?sid sb; httpError 500 (ErrCreateTap e) }
           | Inr _ \<Rightarrow> do {
               mac \<leftarrow> randomMAC E;
               r \<leftarrow> NewMachine E (vm_options cfg path sb mac);
               (case r of
                  Inl e \<Rightarrow> do { _ \<leftarrow> rollbackPreVM E cfg ?sid sb; httpError 500 (ErrNewMachine e) }
                | Inr (m, rt) \<Rightarrow> bring_up E cfg ?sid sb m rt ErrStart 60000000000) }) }) (create_post ?sid s)) u"
    if u: "reg_db u = reg_db s" "machines u = machines s" for u path ex
  proof -
    obtain res db' where Pair: "Create (RegPools cfg) (db_faults E (calls u @ [Now]) (OpCreate ?sid))
      (r_num (answer E (calls u) Now)) ?sid path ex (reg_db s) = (res, db')" by fastforce
    show ?thesis
    proof (cases res)
      case (Inl e)
      then show ?thesis
        using Pair u Create_error unfolding reg_Create_def
        by (auto simp: wp intro!: host_wps fail)
    next
      case (Inr sb)
      have c: "allocated (reg_db s) ?sid sb db'"
        using Create_allocated [OF Pair [unfolded Inr]] by simp
      have undo: "wp (rollbackPreVM E cfg ?sid sb) (\<lambda>_. create_post ?sid s (500, BError e)) v"
        if "reg_db v = db'" "machines v = machines s" for v e
        using that assms(1) Destroy_allocated [OF assms(2) c] by (intro rollback_wp) (auto intro!: fail)
      show ?thesis
        using Inr Pair u unfolding reg_Create_def
        by (auto simp: wp split: sum.split prod.split intro!: host_wps undo bring_up_post [OF assms c])
    qed
  qed
  show ?thesis
    unfolding handleCreate_def wp fresh_id_def [symmetric] Let_def
    by (auto simp: wp split: sum.split intro!: host_wps fail rest [unfolded wp])
qed

subsection \<open>The property\<close>

text \<open>A configuration and a server for the witnesses.\<close>

definition sample_cfg :: server_config where
  "sample_cfg =
     \<lparr>ServerSocketPath = [], Prov = \<lparr>Network = \<lparr>Bridge = ''br-fc'', GatewayCIDR = ''172.16.0.1/24'', GuestPort = 3000\<rparr>,
        RootfsBase = ''/opt/base.ext4'', RootfsDir = ''/r'', SnapshotDir = ''/s''\<rparr>,
      ServerGatewayIP = ''172.16.0.1'',
      VMTemplate = \<lparr>FirecrackerBin = '''', SocketPath = '''', KernelImage = ''/k'', RootfsPath = '''', KernelArgs = '''',
        Vcpus = 1, MemMIB = 512, LogDir = '''', TapDevice = '''', MacAddress = '''', GuestCIDR = '''', GatewayIP = '''',
        Nameservers = ''8.8.8.8''\<rparr>,
      RegPools = sample_pools, ListenAddr = '''', APIToken = '''', GatewayURL = '''', GatewayToken = '''', AdvertiseAddr = '''', HostID = ''h''\<rparr>"

definition server0 :: server where
  "server0 = \<lparr>calls = [], reg_db = empty_db, machines = (\<lambda>_. None)\<rparr>"

lemma sunny_cleanup [simp]: "cleanup_ok sunny"
  by (simp add: cleanup_ok_def sunny_def)

text \<open>
  C4: Creating a sandbox is all or nothing. Whatever external call fails and at whatever
  point, a response other than 201 means that the database and the tracked machines are
  exactly as before; a 201 returns a sandbox whose machine is tracked, which reads back
  from the registry as returned (up to whole seconds), and no other sandbox is touched.
\<close>
theorem handleCreate_all_or_nothing:
  assumes "registry_ok (reg_db s)" "cleanup_ok E" "tracked_ok s"
    and "run_state (handleCreate E cfg rb) s = ((code, b), t)"
  shows "if code = 201
    then \<exists>sb m. b = BSandbox sb \<and> sb_id sb = fresh_id E s \<and> machines t = (machines s)(fresh_id E s \<mapsto> m) \<and>
           Get no_faults (fresh_id E s) (reg_db t) = Inr (whole_seconds sb) \<and>
           (\<forall>x. x = fresh_id E s \<or> Get no_faults x (reg_db t) = Get no_faults x (reg_db s))
    else reg_db t = reg_db s \<and> machines t = machines s"
  using wp_run [OF assms(4) handleCreate_wp [OF assms(2,1,3)]] unfolding create_post_def fst_conv snd_conv .

theorem handleCreate_all_or_nothing_witness:
  "\<exists>code b t. run_state (handleCreate sunny sample_cfg (Decoded 60)) server0 = ((code, b), t) \<and>
     (if code = 201
      then \<exists>sb m. b = BSandbox sb \<and> sb_id sb = ''0'' \<and> machines t = [''0'' \<mapsto> m] \<and>
             Get no_faults ''0'' (reg_db t) = Inr (whole_seconds sb) \<and>
             (\<forall>x. x = ''0'' \<or> Get no_faults x (reg_db t) = Get no_faults x empty_db)
      else reg_db t = empty_db \<and> machines t = (\<lambda>_. None))"
proof -
  obtain code b t where run: "run_state (handleCreate sunny sample_cfg (Decoded 60)) server0 = ((code, b), t)"
    by (metis prod.exhaust)
  have "fresh_id sunny server0 = ''0''"
    by (simp add: fresh_id_def sunny_def server0_def dec_eval)
  with handleCreate_all_or_nothing [OF _ sunny_cleanup _ run] run show ?thesis
    by (auto simp: server0_def empty_db_ok tracked_ok_def)
qed

end
