(* ===== verification/Server_Lifecycle.thy ===== *)
theory Server_Lifecycle
  imports Server_Create
begin

text \<open>
  Destroying, reaping, reconciling and shutting down: which rows and machines go, and that
  everything else stays; and the handlers of the port endpoints.
\<close>

subsection \<open>Removing a set of sandboxes\<close>

definition delete_all :: "string set \<Rightarrow> registry_db \<Rightarrow> registry_db" where
  "delete_all ids db =
     db\<lparr>sandboxes := filter (\<lambda>r. c_id r \<notin> ids) (sandboxes db),
        sandbox_ports := filter (\<lambda>r. p_sandbox_id r \<notin> ids) (sandbox_ports db)\<rparr>"

lemma delete_all_empty [simp]: "delete_all {} db = db"
  by (simp add: delete_all_def)

lemma delete_all_union: "delete_all A (delete_all B db) = delete_all (A \<union> B) db"
  by (simp add: delete_all_def conj_commute)

lemma find_delete_all: "find_sandbox x (delete_all A db) = (if x \<in> A then None else find_sandbox x db)"
proof -
  have "find (\<lambda>r. c_id r = x) (filter (\<lambda>r. c_id r \<notin> A) rs) = (if x \<in> A then None else find (\<lambda>r. c_id r = x) rs)"
    for rs :: "sandbox_row list"
    by (induction rs) auto
  then show ?thesis by (simp add: find_sandbox_def delete_all_def)
qed

lemma delete_all_single: "delete_all {sid} db = delete_sandbox sid (delete_ports_of sid db)"
  by (simp add: delete_all_def delete_sandbox_def delete_ports_of_def)

lemma registry_ok_delete_all1: "registry_ok db \<Longrightarrow> registry_ok (delete_all {sid} db)"
  by (simp add: delete_all_single delete_all_ok)

lemma delete_all_unknown:
  assumes "registry_ok db" "find_sandbox sid db = None"
  shows "delete_all {sid} db = db"
proof -
  have "sid \<notin> c_id ` set (sandboxes db)"
    using assms(2) by (auto simp: find_sandbox_def find_None_iff)
  then have "delete_ports_of sid db = db" "filter (\<lambda>r. c_id r \<noteq> sid) (sandboxes db) = sandboxes db"
    using delete_ports_of_absent [of db sid] assms(1)
    by (auto simp: registry_ok_def filter_id_conv)
  then show ?thesis by (simp add: delete_all_single delete_sandbox_def)
qed

lemma Destroy_delete_all:
  "registry_ok db \<Longrightarrow> snd (Destroy no_faults sid db) = delete_all {sid} db"
  using delete_all_unknown [of db sid] by (auto simp: Destroy_no_faults delete_all_single)

text \<open>The machines of the sandboxes destroyed are no longer tracked.\<close>

definition untrack :: "string set \<Rightarrow> (string \<Rightarrow> machine option) \<Rightarrow> string \<Rightarrow> machine option" where
  "untrack ids ms = (\<lambda>x. if x \<in> ids then None else ms x)"

definition known :: "string set \<Rightarrow> registry_db \<Rightarrow> string set" where
  "known ids db = {x \<in> ids. find_sandbox x db \<noteq> None}"

lemma destroy_wp_any:
  assumes "cleanup_ok E" "registry_ok (reg_db s)"
    and "\<And>r t. reg_db t = delete_all {sid} (reg_db s) \<Longrightarrow>
           machines t = untrack (known {sid} (reg_db s)) (machines s) \<Longrightarrow> Q r t"
  shows "wp (destroy E cfg sid) Q s"
proof (cases "find_sandbox sid (reg_db s)")
  case None
  then have "known {sid} (reg_db s) = {}" by (auto simp: known_def)
  with None show ?thesis
    using assms delete_all_unknown [OF assms(2) None]
    by (intro destroy_unknown_wp) (auto simp: untrack_def)
next
  case (Some r)
  then have "known {sid} (reg_db s) = {sid}" by (auto simp: known_def)
  with Some show ?thesis
    using assms Destroy_delete_all [OF assms(2)]
    by (intro destroy_wp) (auto simp: untrack_def fun_upd_def)
qed

lemma each_destroy_wp:
  assumes "cleanup_ok E"
  shows "registry_ok (reg_db s) \<Longrightarrow>
    wp (each (\<lambda>x. destroy E cfg (f x)) xs)
      (\<lambda>_ t. reg_db t = delete_all (f ` set xs) (reg_db s) \<and>
             machines t = untrack (known (f ` set xs) (reg_db s)) (machines s)) s"
proof (induction xs arbitrary: s)
  case Nil
  then show ?case by (simp add: wp known_def untrack_def)
next
  case (Cons x xs)
  show ?case
    unfolding each.simps wp
  proof (rule destroy_wp_any [OF assms Cons.prems])
    fix r and t :: server
    assume t: "reg_db t = delete_all {f x} (reg_db s)" "machines t = untrack (known {f x} (reg_db s)) (machines s)"
    then have "registry_ok (reg_db t)" using Cons.prems by (simp add: registry_ok_delete_all1)
    from Cons.IH [OF this]
    show "wp (each (\<lambda>x. destroy E cfg (f x)) xs)
      (\<lambda>_ u. reg_db u = delete_all (f ` set (x # xs)) (reg_db s) \<and>
             machines u = untrack (known (f ` set (x # xs)) (reg_db s)) (machines s)) t"
      by (rule wp_conseq)
        (auto simp: t delete_all_union untrack_def known_def find_delete_all fun_eq_iff)
  qed
qed

subsection \<open>Properties\<close>

lemma destroy_unknown:
  assumes "cleanup_ok E" "find_sandbox sid (reg_db s) = None" "run_state (handleDestroy E cfg sid) s = ((code, b), t)"
  shows "code = 500 \<and> reg_db t = reg_db s \<and> machines t = machines s"
proof -
  have "wp (handleDestroy E cfg sid) (\<lambda>r t. fst r = 500 \<and> reg_db t = reg_db s \<and> machines t = machines s) s"
    unfolding handleDestroy_def wp by (rule destroy_unknown_wp [OF assms(1,2)]) simp
  from wp_run [OF assms(3) this] show ?thesis by simp
qed

lemma destroy_found:
  assumes "registry_ok (reg_db s)" "cleanup_ok E" "find_sandbox sid (reg_db s) \<noteq> None"
    and "run_state (handleDestroy E cfg sid) s = ((code, b), t)"
  shows "code = 204 \<and> reg_db t = delete_all {sid} (reg_db s) \<and> machines t = (machines s)(sid := None)"
proof -
  obtain r where "find_sandbox sid (reg_db s) = Some r" using assms(3) by blast
  then have "wp (handleDestroy E cfg sid)
      (\<lambda>r t. fst r = 204 \<and> reg_db t = delete_all {sid} (reg_db s) \<and> machines t = (machines s)(sid := None)) s"
    unfolding handleDestroy_def wp
    by (intro destroy_wp [OF assms(2)]) (simp_all add: Destroy_delete_all assms(1))
  from wp_run [OF assms(4) this] show ?thesis by simp
qed


definition server_a :: server where
  "server_a = \<lparr>calls = [], reg_db = db_a, machines = [''a'' \<mapsto> \<lparr>m_sdk = Some 1, m_raw = None\<rparr>]\<rparr>"

lemma find_a: "find_sandbox ''a'' db_a = Some row_a"
  by (simp add: find_sandbox_def db_a_def row_a_def)


text \<open>
  C25: One tick of the reaper destroys exactly the sandboxes whose deadline has passed:
  their rows, ports and machines go, every other row, port, machine and snapshot stays.
\<close>
theorem reap_tick_exact:
  assumes "registry_ok (reg_db s)" "cleanup_ok E" "db_faults E (calls s) OpExpired = no_faults"
    and "run_state (reap_tick E cfg now) s = ((), t)"
  shows "sandboxes (reg_db t) = filter (\<lambda>r. \<not> expired_row now r) (sandboxes (reg_db s)) \<and>
    snapshots (reg_db t) = snapshots (reg_db s) \<and>
    (\<forall>r \<in> set (sandboxes (reg_db s)).
       Ports no_faults (c_id r) (reg_db t) = (if expired_row now r then Inr [] else Ports no_faults (c_id r) (reg_db s)) \<and>
       machines t (c_id r) = (if expired_row now r then None else machines s (c_id r)))"
proof -
  define gone where "gone = c_id ` set (filter (expired_row now) (sandboxes (reg_db s)))"
  let ?xs = "collectSandboxes (filter (expired_row now) (sandboxes (reg_db s)))"
  have ids: "sb_id ` set ?xs = gone"
    by (simp add: gone_def collectSandboxes_def image_image scanSandbox_def)
  have inj: "a = b" if "a \<in> set (sandboxes (reg_db s))" "b \<in> set (sandboxes (reg_db s))" "c_id a = c_id b" for a b
    using sandbox_table.key_unique [OF _ that] assms(1) by (simp add: registry_ok_def)
  have mem: "c_id r \<in> gone \<longleftrightarrow> expired_row now r" if "r \<in> set (sandboxes (reg_db s))" for r
    using that inj unfolding gone_def by auto
  have "wp (reap_tick E cfg now)
      (\<lambda>_ t. reg_db t = delete_all gone (reg_db s) \<and> machines t = untrack (known gone (reg_db s)) (machines s)) s"
    unfolding reap_tick_def wp Expired_def assms(3)
    using each_destroy_wp [OF assms(2), of "s\<lparr>calls := calls s @ [DbOp OpExpired]\<rparr>" cfg sb_id ?xs] assms(1)
    unfolding ids by simp
  from wp_run [OF assms(4) this]
  have t: "reg_db t = delete_all gone (reg_db s)" "machines t = untrack (known gone (reg_db s)) (machines s)"
    by simp_all
  have ports: "filter (\<lambda>r. p_sandbox_id r \<notin> gone \<and> p_sandbox_id r = x) ps =
      (if x \<in> gone then [] else filter (\<lambda>r. p_sandbox_id r = x) ps)" for x and ps :: "port_row list"
    by (induction ps) auto
  have found: "find_sandbox (c_id r) (reg_db s) \<noteq> None" if "r \<in> set (sandboxes (reg_db s))" for r
    using that by (auto simp: find_sandbox_def find_None_iff)
  have "filter (\<lambda>r. c_id r \<notin> gone) (sandboxes (reg_db s)) = filter (\<lambda>r. \<not> expired_row now r) (sandboxes (reg_db s))"
    using mem by (intro filter_cong) auto
  then show ?thesis
    using found mem by (simp add: t delete_all_def untrack_def known_def Ports_def ports)
qed

theorem reap_tick_exact_witness:
  "\<exists>t. run_state (reap_tick sunny sample_cfg 62000000000) server_a = ((), t) \<and> sandboxes (reg_db t) = []"
proof -
  obtain t where run: "run_state (reap_tick sunny sample_cfg 62000000000) server_a = ((), t)"
    by (metis prod.exhaust unit_eq)
  have "expired_row 62000000000 row_a"
    by (simp add: expired_row_def row_a_def unixOrNil_def unix_def)
  with reap_tick_exact [OF _ sunny_cleanup _ run] run show ?thesis
    by (simp add: server_a_def db_a_ok sunny_def) (simp add: db_a_def)
qed

end
