(* ===== verification/Server_Ports.thy ===== *)
theory Server_Ports
  imports Server_Lifecycle
begin

text \<open>
  Startup reconciliation, shutdown, and the port endpoints, with the commands they issue.
\<close>

subsection \<open>Reconciling and shutting down\<close>

lemma reconcile_row_wp:
  assumes "cleanup_ok E" "registry_ok (reg_db s)"
    and "\<And>t. reg_db t = delete_all {sb_id sb} (reg_db s) \<Longrightarrow> machines t = machines s \<Longrightarrow> Q () t"
  shows "wp (reconcile_row E cfg sb) Q s"
proof -
  have rest: "wp (reg_Ports E (sb_id sb)) (\<lambda>ps. wp (release E cfg sb (case ps of Inl _ \<Rightarrow> [] | Inr ports \<Rightarrow> ports))
      (\<lambda>_. wp (reg_Destroy E (sb_id sb)) (\<lambda>_. Q ()))) t"
    if t: "reg_db t = reg_db s" "machines t = machines s" for t
    unfolding reg_Ports_def reg_Destroy_def wp
    by (rule host_wps)
      (use t assms Destroy_delete_all [OF assms(2), of "sb_id sb"] in \<open>auto split: prod.split\<close>)
  show ?thesis
    unfolding reconcile_row_def wp
    by (rule host_wps) (auto simp: wp intro!: host_wps rest)
qed

lemma each_reconcile_wp:
  assumes "cleanup_ok E"
  shows "registry_ok (reg_db s) \<Longrightarrow>
    wp (each (reconcile_row E cfg) xs)
      (\<lambda>_ t. reg_db t = delete_all (sb_id ` set xs) (reg_db s) \<and> machines t = machines s) s"
proof (induction xs arbitrary: s)
  case Nil
  then show ?case by (simp add: wp)
next
  case (Cons x xs)
  show ?case
    unfolding each.simps wp
  proof (rule reconcile_row_wp [OF assms Cons.prems])
    fix t :: server
    assume t: "reg_db t = delete_all {sb_id x} (reg_db s)" "machines t = machines s"
    then have "registry_ok (reg_db t)" using Cons.prems by (simp add: registry_ok_delete_all1)
    from Cons.IH [OF this]
    show "wp (each (reconcile_row E cfg) xs)
      (\<lambda>_ u. reg_db u = delete_all (sb_id ` set (x # xs)) (reg_db s) \<and> machines u = machines s) t"
      by (rule wp_conseq) (auto simp: t delete_all_union)
  qed
qed

lemma delete_all_rows:
  assumes "code_ok db"
  shows "delete_all (c_id ` set (sandboxes db)) db = db\<lparr>sandboxes := [], sandbox_ports := []\<rparr>"
proof -
  have "filter (\<lambda>r. c_id r \<notin> c_id ` set (sandboxes db)) (sandboxes db) = []"
    "filter (\<lambda>r. p_sandbox_id r \<notin> c_id ` set (sandboxes db)) (sandbox_ports db) = []"
    using assms by (auto simp: code_ok_def filter_empty_conv)
  then show ?thesis by (simp add: delete_all_def)
qed

lemma reconcile_clear:
  assumes "registry_ok (reg_db s)" "cleanup_ok E" "db_faults E (calls s) OpAll = no_faults"
    and "run_state (reconcile E cfg) s = ((), t)"
  shows "reg_db t = (reg_db s)\<lparr>sandboxes := [], sandbox_ports := []\<rparr> \<and> machines t = machines s"
proof -
  let ?rows = "collectSandboxes (sort_key (\<lambda>r. - c_created_at r) (sandboxes (reg_db s)))"
  have ids: "sb_id ` set ?rows = c_id ` set (sandboxes (reg_db s))"
    by (simp add: collectSandboxes_def image_image scanSandbox_def)
  have "wp (reconcile E cfg)
      (\<lambda>_ t. reg_db t = delete_all (c_id ` set (sandboxes (reg_db s))) (reg_db s) \<and> machines t = machines s) s"
    unfolding reconcile_def wp All_def assms(3)
    using each_reconcile_wp [OF assms(2), of "s\<lparr>calls := calls s @ [DbOp OpAll]\<rparr>" cfg ?rows] assms(1)
    unfolding ids by simp
  from wp_run [OF assms(4) this] show ?thesis
    using delete_all_rows [of "reg_db s"] assms(1) by (simp add: registry_ok_def)
qed

text \<open>
  After a restart, reconcile clears every row and every extra port the previous run
  left behind, whatever became of their processes, and keeps the snapshots.
\<close>
theorem reconcile_clears:
  assumes "registry_ok (reg_db s)" "cleanup_ok E" "db_faults E (calls s) OpAll = no_faults"
    and "run_state (reconcile E cfg) s = ((), t)"
  shows "reg_db t = (reg_db s)\<lparr>sandboxes := [], sandbox_ports := []\<rparr> \<and> machines t = machines s"
  by (rule reconcile_clear [OF assms])

theorem reconcile_clears_witness:
  "\<exists>t. run_state (reconcile sunny sample_cfg) server_a = ((), t) \<and> sandboxes (reg_db t) = []"
proof -
  obtain t where run: "run_state (reconcile sunny sample_cfg) server_a = ((), t)"
    by (metis prod.exhaust unit_eq)
  with reconcile_clears [OF _ sunny_cleanup _ run] show ?thesis
    by (simp add: server_a_def db_a_ok sunny_def)
qed

text \<open>
  Shutting down destroys every tracked sandbox, in whatever order the map is walked:
  no machine whose sandbox has a row stays tracked, and all their rows and ports are gone.
\<close>
theorem shutdownAll_destroys_tracked:
  assumes "registry_ok (reg_db s)" "cleanup_ok E" "set ids = dom (machines s)"
    and "\<And>x. x \<in> dom (machines s) \<Longrightarrow> find_sandbox x (reg_db s) \<noteq> None"
    and "run_state (shutdownAll E cfg ids) s = ((), t)"
  shows "machines t = (\<lambda>_. None) \<and>
    sandboxes (reg_db t) = filter (\<lambda>r. machines s (c_id r) = None) (sandboxes (reg_db s))"
proof -
  have "wp (shutdownAll E cfg ids)
      (\<lambda>_ t. reg_db t = delete_all (set ids) (reg_db s) \<and> machines t = untrack (known (set ids) (reg_db s)) (machines s)) s"
    unfolding shutdownAll_def
    using each_destroy_wp [OF assms(2,1), of cfg "\<lambda>x. x" ids] by simp
  from wp_run [OF assms(5) this]
  have t: "reg_db t = delete_all (dom (machines s)) (reg_db s)"
    "machines t = untrack (known (dom (machines s)) (reg_db s)) (machines s)"
    by (simp_all add: assms(3))
  have "machines t = (\<lambda>_. None)"
    using assms(4) by (force simp: t(2) untrack_def known_def)
  moreover have "sandboxes (reg_db t) = filter (\<lambda>r. machines s (c_id r) = None) (sandboxes (reg_db s))"
    by (auto simp: t(1) delete_all_def intro: filter_cong)
  ultimately show ?thesis ..
qed

theorem shutdownAll_destroys_tracked_witness:
  "\<exists>t. run_state (shutdownAll sunny sample_cfg [''a'']) server_a = ((), t) \<and> machines t = (\<lambda>_. None)"
proof -
  obtain t where run: "run_state (shutdownAll sunny sample_cfg [''a'']) server_a = ((), t)"
    by (metis prod.exhaust unit_eq)
  with shutdownAll_destroys_tracked [OF _ sunny_cleanup _ _ run] show ?thesis
    by (auto simp: server_a_def db_a_ok find_a split: if_splits)
qed

subsection \<open>Exposing a port\<close>

lemma Ports_find:
  "find (\<lambda>pm. pm_guest_port pm = gp) (map (\<lambda>r. \<lparr>pm_guest_port = p_guest_port r, pm_host_port = p_host_port r\<rparr>) rs) =
     map_option (\<lambda>r. \<lparr>pm_guest_port = p_guest_port r, pm_host_port = p_host_port r\<rparr>) (find (\<lambda>r. p_guest_port r = gp) rs)"
  by (induction rs) auto

lemma mapped_unique:
  assumes "registry_ok db" "a \<in> set (sandbox_ports db)" "b \<in> set (sandbox_ports db)" "port_key a = port_key b"
  shows "a = b"
  using port_table.key_unique [OF _ assms(2-4)] assms(1) by (simp add: registry_ok_def)

text \<open>The mapping the handler looks for is the row under the key.\<close>

lemma existing_mapping:
  assumes "registry_ok db" "Ports no_faults sid db = Inr ps"
  shows "find (\<lambda>pm. pm_guest_port pm = gp) ps =
    map_option (\<lambda>r. \<lparr>pm_guest_port = gp, pm_host_port = p_host_port r\<rparr>) (find_port (sid, gp) db)"
proof -
  let ?rs = "sort_key p_guest_port (filter (\<lambda>r. p_sandbox_id r = sid) (sandbox_ports db))"
  have "find (\<lambda>r. p_guest_port r = gp) ?rs = find_port (sid, gp) db"
  proof (cases "find_port (sid, gp) db")
    case None
    then have "\<forall>r \<in> set ?rs. p_guest_port r \<noteq> gp"
      by (auto simp: find_port_def find_None_iff port_key_def)
    with None show ?thesis by (simp add: find_None_iff)
  next
    case (Some r)
    note r = find_port_SomeD [OF Some]
    have "find (\<lambda>r. p_guest_port r = gp) ?rs = Some r"
    proof (rule find_unique)
      show "r \<in> set ?rs" "p_guest_port r = gp" using r by (simp_all add: port_key_def)
      show "x = r" if "x \<in> set ?rs" "p_guest_port x = gp" for x
        using that r by (intro mapped_unique [OF assms(1)]) (simp_all add: port_key_def)
    qed
    with Some show ?thesis by simp
  qed
  moreover have "ps = map (\<lambda>r. \<lparr>pm_guest_port = p_guest_port r, pm_host_port = p_host_port r\<rparr>) ?rs"
    using assms(2) by (simp add: Ports_def)
  ultimately show ?thesis
    using find_port_SomeD [of "(sid, gp)" db]
    by (cases "find_port (sid, gp) db") (auto simp: Ports_find port_key_def)
qed

definition db_reliable :: "env \<Rightarrow> bool" where
  "db_reliable E \<longleftrightarrow> (\<forall>h op. db_faults E h op = no_faults)"

lemma db_reliableD [simp]: "db_reliable E \<Longrightarrow> db_faults E h op = no_faults"
  by (simp add: db_reliable_def)

lemma sunny_reliable [simp]: "db_reliable sunny"
  by (simp add: db_reliable_def sunny_def)

text \<open>
  Exposing a port that is already mapped answers with the existing mapping, issues no
  command, so no second DNAT rule, and changes no state.
\<close>
theorem handleExposePort_existing:
  assumes "registry_ok (reg_db s)" "db_reliable E" "find_sandbox sid (reg_db s) \<noteq> None"
    and "1 \<le> gp" "gp \<le> 65535" "gp \<noteq> GuestPort (Network (Prov cfg))"
    and "find_port (sid, gp) (reg_db s) = Some r"
  shows "run_state (handleExposePort E cfg sid (Decoded gp)) s =
    ((200, BPort \<lparr>pm_guest_port = gp, pm_host_port = p_host_port r\<rparr>),
     s\<lparr>calls := calls s @ [DbOp (OpGet sid), DbOp (OpPorts sid)]\<rparr>)"
proof -
  obtain row where row: "find_sandbox sid (reg_db s) = Some row" using assms(3) by blast
  obtain ps where ps: "Ports no_faults sid (reg_db s) = Inr ps" by (simp add: Ports_def)
  have "find (\<lambda>pm. pm_guest_port pm = gp) ps = Some \<lparr>pm_guest_port = gp, pm_host_port = p_host_port r\<rparr>"
    using existing_mapping [OF assms(1) ps, of gp] assms(7) by simp
  then show ?thesis
    using assms row ps
    by (simp add: handleExposePort_def reg_Get_def reg_Ports_def db_query_def Get_no_faults)
qed

definition server_ports :: server where
  "server_ports = server_a\<lparr>reg_db := db_ports\<rparr>"

lemma db_ports_ok: "registry_ok db_ports"
  by (rule AddPort_ok [OF db_a_ok add_port_a])

theorem handleExposePort_existing_witness:
  "run_state (handleExposePort sunny sample_cfg ''a'' (Decoded 8000)) server_ports =
    ((200, BPort \<lparr>pm_guest_port = 8000, pm_host_port = 5201\<rparr>),
     server_ports\<lparr>calls := [DbOp (OpGet ''a''), DbOp (OpPorts ''a'')]\<rparr>)"
  using handleExposePort_existing [of server_ports sunny "''a''" 8000 sample_cfg
      "\<lparr>p_sandbox_id = ''a'', p_guest_port = 8000, p_host_port = 5201\<rparr>"]
  by (simp add: server_ports_def db_ports_ok)
    (simp add: server_a_def sample_cfg_def db_ports_def db_a_def row_a_def find_sandbox_def find_port_def port_key_def)

lemma AddPort_fresh:
  assumes "find_sandbox sid db \<noteq> None" "find_port (sid, gp) db = None"
    and "pickFreePort (u_ports (db_used db)) p = Inr hp"
  shows "AddPort p no_faults sid gp db =
    (Inr hp, db\<lparr>sandbox_ports := sandbox_ports db @ [\<lparr>p_sandbox_id = sid, p_guest_port = gp, p_host_port = hp\<rparr>]\<rparr>)"
proof -
  have "insert_port \<lparr>p_sandbox_id = sid, p_guest_port = gp, p_host_port = hp\<rparr> db =
      Inr (db\<lparr>sandbox_ports := sandbox_ports db @ [\<lparr>p_sandbox_id = sid, p_guest_port = gp, p_host_port = hp\<rparr>]\<rparr>)"
    using assms(2) pickFreePort_fresh [OF assms(3)]
    by (auto simp: insert_port_def find_port_def find_None_iff port_key_def db_used_def)
  with assms show ?thesis by (auto simp: AddPort_def)
qed

text \<open>
  When the second of the two DNAT rules cannot be added, exposing a port answers 500
  and gives the host port back to the pool, but the first rule stays in place: the commands
  issued are the two additions and no deletion, so the freed host port still leads to this
  guest.
\<close>
theorem handleExposePort_leaks_rule:
  assumes "registry_ok (reg_db s)" "db_reliable E" "find_sandbox sid (reg_db s) = Some row"
    and "1 \<le> gp" "gp \<le> 65535" "gp \<noteq> GuestPort (Network (Prov cfg))"
    and "find_port (sid, gp) (reg_db s) = None"
    and "pickFreePort (u_ports (db_used (reg_db s))) (RegPools cfg) = Inr hp"
    and "forward_rules ''-A'' hp (c_guest_ip row) gp = [pre, out]"
    and "\<And>h. r_ok (answer E h (Cmd pre))" "\<And>h. \<not> r_ok (answer E h (Cmd out))"
    and "run_state (handleExposePort E cfg sid (Decoded gp)) s = ((code, b), t)"
  shows "code = 500 \<and> reg_db t = reg_db s \<and>
    calls t = calls s @ [DbOp (OpGet sid), DbOp (OpPorts sid), DbOp (OpAddPort sid gp), Cmd pre, Cmd out,
      DbOp (OpDeletePort sid gp)]"
proof -
  obtain ps where ps: "Ports no_faults sid (reg_db s) = Inr ps" by (simp add: Ports_def)
  have none: "find (\<lambda>pm. pm_guest_port pm = gp) ps = None"
    using existing_mapping [OF assms(1) ps, of gp] assms(7) by simp
  let ?r = "\<lparr>p_sandbox_id = sid, p_guest_port = gp, p_host_port = hp\<rparr>"
  have add: "AddPort (RegPools cfg) no_faults sid gp (reg_db s) =
      (Inr hp, (reg_db s)\<lparr>sandbox_ports := sandbox_ports (reg_db s) @ [?r]\<rparr>)"
    using assms(3,7,8) by (intro AddPort_fresh) simp_all
  have "filter (\<lambda>r. port_key r \<noteq> (sid, gp)) (sandbox_ports (reg_db s)) = sandbox_ports (reg_db s)"
    using assms(7) by (auto simp: filter_id_conv find_port_def find_None_iff)
  then have del: "DeletePort no_faults sid gp ((reg_db s)\<lparr>sandbox_ports := sandbox_ports (reg_db s) @ [?r]\<rparr>) =
      (Inr (), reg_db s)"
    by (cases "reg_db s") (simp add: DeletePort_def delete_port_def port_key_def)
  show ?thesis
    using assms(12) assms(2-11) ps none add del
    by (auto simp: handleExposePort_def reg_Get_def reg_Ports_def db_query_def db_update_def Get_no_faults
        AddPortForwardTo_def run_cmd_def scanSandbox_def)
qed

definition half_broken :: env where
  "half_broken = sunny\<lparr>answer := (\<lambda>h c. \<lparr>r_ok = (case c of Cmd args \<Rightarrow> ''OUTPUT'' \<notin> set args | _ \<Rightarrow> True),
     r_out = '''', r_num = 0, r_ns = 0\<rparr>)\<rparr>"

theorem handleExposePort_leaks_rule_witness:
  "\<exists>b t. run_state (handleExposePort half_broken sample_cfg ''a'' (Decoded 8000)) server_a = ((500, b), t) \<and>
    reg_db t = db_a \<and>
    Cmd [''iptables'', ''-t'', ''nat'', ''-A'', ''PREROUTING'', ''-p'', ''tcp'', ''--dport'', ''5201'',
      ''-j'', ''DNAT'', ''--to-destination'', ''172.16.0.10:8000''] \<in> set (calls t)"
proof -
  obtain code b t where run: "run_state (handleExposePort half_broken sample_cfg ''a'' (Decoded 8000)) server_a = ((code, b), t)"
    by (metis prod.exhaust)
  have pick: "pickFreePort (u_ports (db_used (reg_db server_a))) (RegPools sample_cfg) = Inr 5201"
    by (simp add: server_a_def sample_cfg_def pick_sample db_used_def db_a_def row_a_def)
  have rules: "forward_rules ''-A'' 5201 (c_guest_ip row_a) 8000 =
     [[''iptables'', ''-t'', ''nat'', ''-A'', ''PREROUTING'', ''-p'', ''tcp'', ''--dport'', ''5201'',
      ''-j'', ''DNAT'', ''--to-destination'', ''172.16.0.10:8000''],
      [''iptables'', ''-t'', ''nat'', ''-A'', ''OUTPUT'', ''-p'', ''tcp'', ''-d'', ''127.0.0.1'', ''--dport'', ''5201'',
      ''-j'', ''DNAT'', ''--to-destination'', ''172.16.0.10:8000'']]"
    by (simp add: forward_rules_def target_def itoa_def dec_eval row_a_def)
  have "find_port (''a'', 8000) (reg_db server_a) = None"
    by (simp add: server_a_def db_a_def find_port_def)
  from handleExposePort_leaks_rule [OF _ _ _ _ _ _ this pick rules _ _ run] run show ?thesis
    by (simp add: server_a_def db_a_ok find_a sample_cfg_def half_broken_def db_reliable_def sunny_def)
qed

end
