(* ===== verification/Snapshots.thy ===== *)
theory Snapshots
  imports Server_Ports
begin

text \<open>
  \<open>internal/server/snapshot.go\<close>: taking a snapshot of a running sandbox, restoring one, and
  fanning one out into clones. Here the clones are brought up one after the other, one of the
  schedules of the goroutines that Fanout_Parallel runs.
\<close>

subsection \<open>Taking a snapshot\<close>

definition snapshot_of :: "string \<Rightarrow> string \<Rightarrow> sandbox \<Rightarrow> string \<times> string \<times> string \<Rightarrow> int \<Rightarrow> snapshot" where
  "snapshot_of snapID sid sb paths now =
     (case paths of (memPath, statePath, rootfs) \<Rightarrow>
       \<lparr>sn_id = snapID, sn_source_id = sid, sn_tap_device = sb_tap_device sb, sn_guest_ip = sb_guest_ip sb,
        sn_mem_path = memPath, sn_state_path = statePath, sn_rootfs_path = rootfs,
        sn_source_rootfs_path = sb_rootfs_path sb, sn_created_at = now\<rparr>)"

definition record_snapshot :: "env \<Rightarrow> server_config \<Rightarrow> snapshot \<Rightarrow> response server_action" where
  "record_snapshot E cfg snap = do {
     r \<leftarrow> db_update E (OpCreateSnapshot (sn_id snap)) (\<lambda>fl. CreateSnapshot fl snap);
     (case r of
        Inl e \<Rightarrow> do { _ \<leftarrow> CleanupSnapshot E (Prov cfg) (sn_id snap); httpError 500 (ErrRecordSnapshot e) }
      | Inr _ \<Rightarrow> writeJSON 201 (BSnapshot snap))
   }"

text \<open>
  From the pause on. The deferred \<open>resume\<close> runs after the response of a failing exit has
  been written; on the way to success it runs before the snapshot is recorded, and then not
  again.
\<close>

definition paused_part :: "env \<Rightarrow> server_config \<Rightarrow> string \<Rightarrow> string \<Rightarrow> sandbox \<Rightarrow> machine
    \<Rightarrow> string \<times> string \<times> string \<Rightarrow> response server_action" where
  "paused_part E cfg snapID sid sb m paths =
     (case paths of (memPath, statePath, rootfs) \<Rightarrow> do {
     r \<leftarrow> Snapshot E (Some m) memPath statePath;
     (case r of
        Inl e \<Rightarrow> do {
          _ \<leftarrow> CleanupSnapshot E (Prov cfg) snapID;
          _ \<leftarrow> Resume E (Some m);
          httpError 500 (ErrCreateSnapshot e)
        }
      | Inr _ \<Rightarrow> do {
     r \<leftarrow> CopyFileSparse E (sb_rootfs_path sb) rootfs;
     (case r of
        Inl e \<Rightarrow> do {
          _ \<leftarrow> CleanupSnapshot E (Prov cfg) snapID;
          _ \<leftarrow> Resume E (Some m);
          httpError 500 (ErrFreezeRootfs e)
        }
      | Inr _ \<Rightarrow> do {
     _ \<leftarrow> Resume E (Some m);
     now \<leftarrow> call E Now;
     record_snapshot E cfg (snapshot_of snapID sid sb paths (r_num now)) }) }) })"

definition handleSnapshot :: "env \<Rightarrow> server_config \<Rightarrow> string \<Rightarrow> response server_action" where
  "handleSnapshot E cfg sid = do {
     r \<leftarrow> reg_Get E sid;
     (case r of
        Inl e \<Rightarrow> httpError 404 (ErrRegistry e)
      | Inr sb \<Rightarrow> do {
     v \<leftarrow> machines_Load sid;
     (case v of
        None \<Rightarrow> httpError 409 (ErrNotRunning sid)
      | Some m \<Rightarrow> do {
     u \<leftarrow> call E NewUUID;
     r \<leftarrow> SnapshotPaths E (Prov cfg) (r_out u);
     (case r of
        Inl e \<Rightarrow> httpError 500 (ErrSnapshotDir e)
      | Inr paths \<Rightarrow> do {
     r \<leftarrow> Pause E (Some m);
     (case r of
        Inl e \<Rightarrow> httpError 500 (ErrPause e)
      | Inr _ \<Rightarrow> paused_part E cfg (r_out u) sid sb m paths) }) }) }) }"

subsection \<open>Restoring\<close>

definition reg_GetSnapshot :: "env \<Rightarrow> string \<Rightarrow> (reg_error, snapshot) result server_action" where
  "reg_GetSnapshot E snapID = db_query E (OpGetSnapshot snapID) (\<lambda>fl. GetSnapshot fl snapID)"

definition reg_CreateRestore :: "env \<Rightarrow> server_config \<Rightarrow> string \<Rightarrow> snapshot \<Rightarrow> int option
    \<Rightarrow> (reg_error, sandbox) result server_action" where
  "reg_CreateRestore E cfg sid snap expiresAt = do {
     now \<leftarrow> call E Now;
     db_update E (OpCreateRestore sid) (\<lambda>fl. CreateRestore (RegPools cfg) fl (r_num now) sid
       (sn_source_rootfs_path snap) (sn_tap_device snap) (sn_guest_ip snap) expiresAt)
   }"

definition restore_options :: "server_config \<Rightarrow> string \<Rightarrow> run_options" where
  "restore_options cfg rootfs = (VMTemplate cfg)\<lparr>RootfsPath := rootfs, SocketPath := ''''\<rparr>"

definition handleRestore :: "env \<Rightarrow> server_config \<Rightarrow> string \<Rightarrow> int request_body \<Rightarrow> response server_action" where
  "handleRestore E cfg snapID rb = do {
     r \<leftarrow> reg_GetSnapshot E snapID;
     (case r of
        Inl e \<Rightarrow> httpError 404 (ErrSnapshotNotFound snapID)
      | Inr snap \<Rightarrow>
     (case timeout_of rb of
        Inl e \<Rightarrow> httpError 400 e
      | Inr timeout \<Rightarrow> do {
     expiresAt \<leftarrow> expires_at E timeout;
     u \<leftarrow> call E NewUUID;
     r \<leftarrow> reg_CreateRestore E cfg (r_out u) snap expiresAt;
     (case r of
        Inl e \<Rightarrow> httpError 409 (ErrRegistryRestore e)
      | Inr sb \<Rightarrow> do {
     r \<leftarrow> CopyFileSparse E (sn_rootfs_path snap) (sn_source_rootfs_path snap);
     (case r of
        Inl e \<Rightarrow> do { _ \<leftarrow> rollbackPreVM E cfg (r_out u) sb; httpError 500 (ErrCopyRootfs e) }
      | Inr _ \<Rightarrow> do {
     r \<leftarrow> CreateTap E (Prov cfg) (sb_tap_device sb);
     (case r of
        Inl e \<Rightarrow> do { _ \<leftarrow> rollbackPreVM E cfg (r_out u) sb; httpError 500 (ErrCreateTap e) }
      | Inr _ \<Rightarrow> do {
     r \<leftarrow> NewMachineFromSnapshot E (restore_options cfg (sn_source_rootfs_path snap)) (sn_mem_path snap) (sn_state_path snap);
     (case r of
        Inl e \<Rightarrow> do { _ \<leftarrow> rollbackPreVM E cfg (r_out u) sb; httpError 500 (ErrNewMachine e) }
      | Inr (m, rt) \<Rightarrow> bring_up E cfg (r_out u) sb m rt ErrStart 30000000000) }) }) }) })) }"

subsection \<open>Fanning out\<close>

type_synonym clone = "(server_error, sandbox \<times> machine \<times> runtime_config) result"

definition clone_of :: "server_config \<Rightarrow> snapshot \<Rightarrow> string \<Rightarrow> string \<Rightarrow> sandbox \<Rightarrow> string \<Rightarrow> clone_params" where
  "clone_of cfg snap sid rootfs sb mac =
     \<lparr>MemPath = sn_mem_path snap, StatePath = sn_state_path snap, CloneRootfsPath = rootfs,
      CloneTap = sb_tap_device sb, CloneIP = sb_guest_ip sb, CloneMac = mac,
      CloneGateway = ServerGatewayIP cfg, Prefix = 24, Gen = sid\<rparr>"

definition bringUpClone :: "env \<Rightarrow> server_config \<Rightarrow> snapshot \<Rightarrow> int option \<Rightarrow> clone server_action" where
  "bringUpClone E cfg snap expiresAt = do {
     u \<leftarrow> call E NewUUID;
     (let sid = r_out u; rootfs = RootfsPathFor (Prov cfg) sid in do {
     r \<leftarrow> reg_Create E cfg sid rootfs expiresAt;
     (case r of
        Inl e \<Rightarrow> return (Inl (ErrRegistryCreate e))
      | Inr sb \<Rightarrow> do {
     r \<leftarrow> CloneRootfs E (Prov cfg) sid (sn_rootfs_path snap);
     (case r of
        Inl e \<Rightarrow> do { _ \<leftarrow> rollbackPreVM E cfg sid sb; return (Inl (ErrCloneRootfs e)) }
      | Inr _ \<Rightarrow> do {
     r \<leftarrow> CreateTapUnbridged E (sb_tap_device sb);
     (case r of
        Inl e \<Rightarrow> do { _ \<leftarrow> rollbackPreVM E cfg sid sb; return (Inl (ErrCreateTap e)) }
      | Inr _ \<Rightarrow> do {
     mac \<leftarrow> randomMAC E;
     r \<leftarrow> StartClone E ((VMTemplate cfg)\<lparr>SocketPath := ''''\<rparr>) (clone_of cfg snap sid rootfs sb mac);
     (case r of
        Inl e \<Rightarrow> do { _ \<leftarrow> rollbackPreVM E cfg sid sb; return (Inl (ErrStartClone e)) }
      | Inr (m, rt) \<Rightarrow> return (Inr (sb, m, rt))) }) }) }) }) }"

definition finishClone :: "env \<Rightarrow> server_config \<Rightarrow> sandbox \<Rightarrow> machine \<Rightarrow> runtime_config
    \<Rightarrow> (server_error, unit) result server_action" where
  "finishClone E cfg sb m rt = do {
     r \<leftarrow> PID E (Some m);
     (case r of
        Inl e \<Rightarrow> do { _ \<leftarrow> StopForce E (Some m); return (Inl (ErrPid e)) }
      | Inr pid \<Rightarrow> do {
     r \<leftarrow> AttachTapToBridge E (Prov cfg) (sb_tap_device sb);
     (case r of
        Inl e \<Rightarrow> do { _ \<leftarrow> StopForce E (Some m); return (Inl (ErrAttachTap e)) }
      | Inr _ \<Rightarrow> do {
     r \<leftarrow> AddPortForward E (Prov cfg) (sb_host_port sb) (sb_guest_ip sb);
     (case r of
        Inl e \<Rightarrow> do { _ \<leftarrow> StopForce E (Some m); return (Inl (ErrPortForward e)) }
      | Inr _ \<Rightarrow> do {
     r \<leftarrow> reg_FinishStart E (sb_id sb) pid rt;
     (case r of
        Inl e \<Rightarrow> do { _ \<leftarrow> StopForce E (Some m); return (Inl (ErrFinishStart e)) }
      | Inr _ \<Rightarrow> do {
     _ \<leftarrow> machines_Store (sb_id sb) m;
     waitForAgent E (sb_guest_ip sb) 30000000000 }) }) }) }) }"

text \<open>
  The second phase: clones that came up are finished, and destroyed when that fails. The
  response carries the sandboxes as allocated; \<open>finishClone\<close> has its own copy to fill in.
\<close>

fun finish_clones :: "env \<Rightarrow> server_config \<Rightarrow> clone list \<Rightarrow> sandbox list server_action" where
  "finish_clones E cfg [] = return []"
| "finish_clones E cfg (c # cs) =
     (case c of
        Inl e \<Rightarrow> finish_clones E cfg cs
      | Inr (sb, m, rt) \<Rightarrow> do {
          r \<leftarrow> finishClone E cfg sb m rt;
          (case r of
             Inl e \<Rightarrow> do { _ \<leftarrow> destroy E cfg (sb_id sb); finish_clones E cfg cs }
           | Inr _ \<Rightarrow> do { live \<leftarrow> finish_clones E cfg cs; return (sb # live) }) })"

fun bring_up_clones :: "env \<Rightarrow> server_config \<Rightarrow> snapshot \<Rightarrow> int option \<Rightarrow> nat \<Rightarrow> clone list server_action" where
  "bring_up_clones E cfg snap expiresAt 0 = return []"
| "bring_up_clones E cfg snap expiresAt (Suc n) = do {
     c \<leftarrow> bringUpClone E cfg snap expiresAt;
     cs \<leftarrow> bring_up_clones E cfg snap expiresAt n;
     return (c # cs)
   }"

text \<open>The frozen root file system is laid at the baked path unless a file is there.\<close>

definition stage_baked :: "env \<Rightarrow> snapshot \<Rightarrow> ('z, (host_error, bool) result) action" where
  "stage_baked E snap = do {
     st \<leftarrow> call E (Stat (sn_source_rootfs_path snap));
     if r_ok st then return (Inr False)
     else do {
       r \<leftarrow> CopyFileSparse E (sn_rootfs_path snap) (sn_source_rootfs_path snap);
       return (case r of Inl e \<Rightarrow> Inl e | Inr _ \<Rightarrow> Inr True)
     }
   }"

definition fanout_body :: "(int \<times> int) request_body \<Rightarrow> (server_error, int \<times> int) result" where
  "fanout_body rb = (case rb of
     Malformed \<Rightarrow> Inl ErrDecode
   | NoBody \<Rightarrow> Inl ErrCount
   | Decoded (n, timeout) \<Rightarrow>
       if n < 1 then Inl ErrCount else if timeout < 0 then Inl ErrNegativeTimeout else Inr (n, timeout))"

definition handleFanout :: "env \<Rightarrow> server_config \<Rightarrow> string \<Rightarrow> (int \<times> int) request_body \<Rightarrow> response server_action" where
  "handleFanout E cfg snapID rb = do {
     r \<leftarrow> reg_GetSnapshot E snapID;
     (case r of
        Inl e \<Rightarrow> httpError 404 (ErrSnapshotNotFound snapID)
      | Inr snap \<Rightarrow>
     (case fanout_body rb of
        Inl e \<Rightarrow> httpError 400 e
      | Inr (n, timeout) \<Rightarrow> do {
     expiresAt \<leftarrow> expires_at E timeout;
     r \<leftarrow> stage_baked E snap;
     (case r of
        Inl e \<Rightarrow> httpError 500 (ErrStageRootfs e)
      | Inr staged \<Rightarrow> do {
     clones \<leftarrow> bring_up_clones E cfg snap expiresAt (nat n);
     _ \<leftarrow> (if staged then RemoveRootfs E (sn_source_rootfs_path snap) else return (Inr ()));
     _ \<leftarrow> call E (SleepNs 1500000000);
     live \<leftarrow> finish_clones E cfg clones;
     if live = [] then httpError 500 ErrAllClonesFailed
     else writeJSON 201 (BSandboxes live) }) })) }"

subsection \<open>The catalog\<close>

definition handleListSnapshots :: "env \<Rightarrow> response server_action" where
  "handleListSnapshots E = do {
     r \<leftarrow> db_query E OpListSnapshots ListSnapshots;
     (case r of Inl e \<Rightarrow> httpError 500 (ErrRegistry e) | Inr snaps \<Rightarrow> writeJSON 200 (BSnapshots snaps))
   }"

definition handleDeleteSnapshot :: "env \<Rightarrow> server_config \<Rightarrow> string \<Rightarrow> response server_action" where
  "handleDeleteSnapshot E cfg snapID = do {
     r \<leftarrow> db_update E (OpDeleteSnapshot snapID) (\<lambda>fl. DeleteSnapshot fl snapID);
     (case r of
        Inl e \<Rightarrow> httpError 404 (ErrRegistry e)
      | Inr _ \<Rightarrow> do { _ \<leftarrow> CleanupSnapshot E (Prov cfg) snapID; writeJSON 204 BEmpty })
   }"

end
