(* ===== verification/Snapshot_Props.thy ===== *)
theory Snapshot_Props
  imports Snapshots
begin

text \<open>
  Snapshots: a paused sandbox is always resumed, exactly once; clones cannot be snapshotted;
  a restore is refused before it touches the disk and is otherwise all or nothing.
\<close>

subsection \<open>Calls that pause and resume\<close>

fun pausing :: "host_call \<Rightarrow> bool" where
  "pausing (SdkPauseVM _) = True"
| "pausing (SdkResumeVM _) = True"
| "pausing _ = False"

definition pauses :: "'z host_scheme \<Rightarrow> host_call list" where
  "pauses s = filter pausing (calls s)"

lemma pauses_simps [simp]:
  "pauses (s\<lparr>calls := calls s @ cs\<rparr>) = pauses s @ filter pausing cs"
  "pauses (v\<lparr>reg_db := d\<rparr>) = pauses v" "pauses (v\<lparr>machines := ms\<rparr>) = pauses v"
  by (simp_all add: pauses_def)

definition quiet :: "'z host_scheme \<Rightarrow> 'z host_scheme \<Rightarrow> bool" where
  "quiet s t \<longleftrightarrow> pauses t = pauses s"

interpretation quiet: state_relation quiet
  by unfold_locales (auto simp: quiet_def)

lemma call_quiet: "\<not> pausing c \<Longrightarrow> state_io_rel quiet (call E c)"
  by (simp add: state_io_rel_def quiet_def pauses_def)

lemma quiet_programs:
  "state_io_rel quiet (SnapshotPaths E p snap)"
  "state_io_rel quiet (CleanupSnapshot E p snap)"
  "state_io_rel quiet (CopyFileSparse E src dst)"
  "state_io_rel quiet (call E Now)"
  "state_io_rel quiet (call E NewUUID)"
  unfolding provisioner_defs Let_def
  by (intro quiet.io_intros call_quiet; simp)+

lemma quiet_db:
  "state_io_rel quiet (db_update E op f)"
  "state_io_rel quiet (db_query E op g)"
  by (auto simp: state_io_rel_def quiet_def pauses_def db_update_def db_query_def split: prod.split)

lemma quiet_wp: "state_io_rel quiet m \<Longrightarrow> (\<And>a t. pauses t = pauses s \<Longrightarrow> Q a t) \<Longrightarrow> wp m Q s"
  by (rule quiet.io_wp) (auto simp: quiet_def)

lemmas quiet_wps = quiet_programs [THEN quiet_wp] quiet_db [THEN quiet_wp]

lemma sdk_pause_wp:
  "m_sdk m = Some h \<Longrightarrow>
     (\<And>a t. pauses t = pauses s @ [SdkPauseVM h] \<Longrightarrow> Q a t) \<Longrightarrow> wp (Pause E (Some m)) Q s"
  "m_sdk m = Some h \<Longrightarrow>
     (\<And>a t. pauses t = pauses s @ [SdkResumeVM h] \<Longrightarrow> Q a t) \<Longrightarrow> wp (Resume E (Some m)) Q s"
  by (simp_all add: Pause_def Resume_def with_sdk_def sdk_call_def wp pauses_def)

lemma sdk_snapshot_quiet: "m_sdk m = Some h \<Longrightarrow> (\<And>a t. pauses t = pauses s \<Longrightarrow> Q a t) \<Longrightarrow> wp (Snapshot E (Some m) mem st) Q s"
  by (simp add: Snapshot_def with_sdk_def sdk_call_def wp pauses_def)

lemma paused_part_wp:
  assumes "m_sdk m = Some h"
  shows "wp (paused_part E cfg snapID sid sb m paths) (\<lambda>_ t. pauses t = pauses s @ [SdkResumeVM h]) s"
  unfolding paused_part_def record_snapshot_def
  by (cases paths)
    (auto simp: wp split: sum.split
      intro!: sdk_snapshot_quiet [OF assms] sdk_pause_wp [OF assms] quiet_wps)

text \<open>
  C18: A sandbox paused for a snapshot is resumed exactly once, on every path: the pause and
  resume requests the handler sends are none, a pause that failed and was reported, or a
  pause followed by one resume.
\<close>
theorem handleSnapshot_resumes:
  assumes "machines s sid = Some m" "m_sdk m = Some h"
    and "run_state (handleSnapshot E cfg sid) s = (r, t)"
  shows "pauses t = pauses s \<or>
    (pauses t = pauses s @ [SdkPauseVM h] \<and> (\<exists>e. r = (500, BError (ErrPause e)))) \<or>
    pauses t = pauses s @ [SdkPauseVM h, SdkResumeVM h]"
proof -
  let ?Q = "\<lambda>r t. pauses t = pauses s \<or>
    (pauses t = pauses s @ [SdkPauseVM h] \<and> (\<exists>e. r = (500, BError (ErrPause e)))) \<or>
    pauses t = pauses s @ [SdkPauseVM h, SdkResumeVM h]"
  have rest: "wp (paused_part E cfg snapID sid sb m paths) ?Q u"
    if "pauses u = pauses s @ [SdkPauseVM h]" for snapID sb paths u
    by (rule wp_conseq [OF paused_part_wp [OF assms(2)]]) (simp add: that)
  show ?thesis
  proof (rule wp_run [OF assms(3), of ?Q])
    show "wp (handleSnapshot E cfg sid) ?Q s"
      unfolding handleSnapshot_def reg_Get_def
      by (auto simp: wp assms(1) split: sum.split option.split
          intro!: quiet_wps(1-5) sdk_pause_wp [OF assms(2)] rest)
  qed
qed

theorem handleSnapshot_resumes_witness:
  "\<exists>r t. run_state (handleSnapshot sunny sample_cfg ''a'') server_a = (r, t) \<and>
     (pauses t = pauses server_a \<or>
      (pauses t = pauses server_a @ [SdkPauseVM 1] \<and> (\<exists>e. r = (500, BError (ErrPause e)))) \<or>
      pauses t = pauses server_a @ [SdkPauseVM 1, SdkResumeVM 1])"
proof -
  obtain r t where run: "run_state (handleSnapshot sunny sample_cfg ''a'') server_a = (r, t)"
    by (metis prod.exhaust)
  with handleSnapshot_resumes [OF _ _ run, of "\<lparr>m_sdk = Some 1, m_raw = None\<rparr>" 1] show ?thesis
    by (auto simp: server_a_def)
qed

text \<open>
  Clones of a fan-out have no SDK machine, so snapshotting one is refused with 500 at
  the pause; the directory already made for the artifacts is left behind.
\<close>
theorem clone_snapshot_refused:
  assumes "db_reliable E" "find_sandbox sid (reg_db s) = Some row" "machines s sid = Some m" "m_sdk m = None"
    and "snap_id = r_out (answer E (calls s @ [DbOp (OpGet sid)]) NewUUID)"
    and "dir = Join [SnapshotDir (Prov cfg), snap_id]"
    and "r_ok (answer E (calls s @ [DbOp (OpGet sid), NewUUID]) (MkdirAll dir))"
  shows "run_state (handleSnapshot E cfg sid) s =
    ((500, BError (ErrPause NilMachine)), s\<lparr>calls := calls s @ [DbOp (OpGet sid), NewUUID, MkdirAll dir]\<rparr>)"
  using assms(1-4,7) unfolding assms(5,6)
  by (simp add: handleSnapshot_def reg_Get_def db_query_def Get_no_faults machines_Load_def
      SnapshotPaths_def mkdir_all_def Pause_def with_sdk_def Let_def)

definition server_clone :: server where
  "server_clone = server_a\<lparr>machines := [''a'' \<mapsto> \<lparr>m_sdk = None, m_raw = Some \<lparr>raw_process = Some 7, raw_sock = ''/tmp/x''\<rparr>\<rparr>]\<rparr>"

theorem clone_snapshot_refused_witness:
  "run_state (handleSnapshot sunny sample_cfg ''a'') server_clone =
    ((500, BError (ErrPause NilMachine)),
     server_clone\<lparr>calls := [DbOp (OpGet ''a''), NewUUID, MkdirAll (Join [''/s'', ''1''])]\<rparr>)"
proof -
  have "r_out (answer sunny [DbOp (OpGet ''a'')] NewUUID) = ''1''"
    by (simp add: sunny_def dec_eval)
  then show ?thesis
    using clone_snapshot_refused [OF sunny_reliable, of "''a''" server_clone row_a _ "''1''" "Join [''/s'', ''1'']" sample_cfg]
    by (simp add: server_clone_def server_a_def find_a sample_cfg_def) (simp add: sunny_def)
qed

subsection \<open>Restoring\<close>

fun bookkeeping :: "host_call \<Rightarrow> bool" where
  "bookkeeping Now = True"
| "bookkeeping NewUUID = True"
| "bookkeeping (DbOp _) = True"
| "bookkeeping _ = False"

lemma CreateRestore_held:
  assumes "tap \<in> c_tap_device ` set (filter running (sandboxes db)) \<or> ip \<in> c_guest_ip ` set (filter running (sandboxes db))"
  shows "\<exists>e. CreateRestore p fl now sid path tap ip ex db = (Inl e, db)"
proof (cases "CreateRestore p fl now sid path tap ip ex db")
  case (Pair res db')
  then show ?thesis
    by (cases rule: CreateRestore_cases) (use assms Pair in \<open>auto simp: db_used_def\<close>)
qed

text \<open>
  While a running sandbox holds the tap or the address baked into a snapshot, restoring
  it answers 409 before any disk work: no command and no file operation is issued, and no
  state changes.
\<close>
theorem handleRestore_refused_before_disk:
  assumes "db_reliable E" "GetSnapshot no_faults snapID (reg_db s) = Inr snap" "timeout_of rb = Inr n"
    and "sn_tap_device snap \<in> c_tap_device ` set (filter running (sandboxes (reg_db s))) \<or>
         sn_guest_ip snap \<in> c_guest_ip ` set (filter running (sandboxes (reg_db s)))"
    and "run_state (handleRestore E cfg snapID rb) s = ((code, b), t)"
  shows "code = 409 \<and> reg_db t = reg_db s \<and> machines t = machines s \<and>
    (\<exists>cs. calls t = calls s @ cs \<and> list_all bookkeeping cs)"
proof -
  have "\<exists>e. CreateRestore (RegPools cfg) fl now sid (sn_source_rootfs_path snap) (sn_tap_device snap)
      (sn_guest_ip snap) ex (reg_db s) = (Inl e, reg_db s)" for fl now sid ex
    by (rule CreateRestore_held [OF assms(4)])
  then obtain err where held: "\<And>fl now sid ex. CreateRestore (RegPools cfg) fl now sid (sn_source_rootfs_path snap)
      (sn_tap_device snap) (sn_guest_ip snap) ex (reg_db s) = (Inl (err fl now sid ex), reg_db s)"
    by metis
  have "wp (handleRestore E cfg snapID rb)
      (\<lambda>r t. fst r = 409 \<and> reg_db t = reg_db s \<and> machines t = machines s \<and>
         (\<exists>cs. calls t = calls s @ cs \<and> list_all bookkeeping cs)) s"
    unfolding handleRestore_def reg_GetSnapshot_def reg_CreateRestore_def expires_at_def
    using assms(1-3) by (simp add: wp held)
  from wp_run [OF assms(5) this] show ?thesis by simp
qed

definition server_snap :: server where
  "server_snap = server_a\<lparr>reg_db := db_snap\<rparr>"

lemma snapshot_a: "GetSnapshot no_faults ''s'' db_snap = Inr (scanSnapshot (snapshot_to_row snap_a))"
  by (simp add: GetSnapshot_def find_snapshot_def db_snap_def snapshot_to_row_def snap_a_def)

theorem handleRestore_refused_before_disk_witness:
  "\<exists>b t. run_state (handleRestore sunny sample_cfg ''s'' NoBody) server_snap = ((409, b), t) \<and> reg_db t = db_snap"
proof -
  obtain code b t where run: "run_state (handleRestore sunny sample_cfg ''s'' NoBody) server_snap = ((code, b), t)"
    by (metis prod.exhaust)
  have held: "''fc0'' \<in> c_tap_device ` set (filter running (sandboxes db_snap))"
    by (simp add: db_snap_def db_a_def row_a_def del: set_filter)
  have tap: "sn_tap_device (scanSnapshot (snapshot_to_row snap_a)) = ''fc0''"
    by (simp add: scanSnapshot_def snapshot_to_row_def snap_a_def)
  show ?thesis
    using handleRestore_refused_before_disk [OF sunny_reliable _ _ _ run, of "scanSnapshot (snapshot_to_row snap_a)" 0]
      run held
    by (simp add: server_snap_def snapshot_a timeout_of_def tap del: set_filter)
qed

text \<open>The network identity and the disk in the response are those allocated.\<close>

definition same_resources :: "sandbox \<Rightarrow> response \<Rightarrow> bool" where
  "same_resources sb r \<longleftrightarrow> (case snd r of
     BSandbox x \<Rightarrow> sb_tap_device x = sb_tap_device sb \<and> sb_guest_ip x = sb_guest_ip sb \<and> sb_rootfs_path x = sb_rootfs_path sb
   | _ \<Rightarrow> True)"

lemma bring_up_resources:
  assumes "cleanup_ok E" "find_sandbox sid (reg_db u) \<noteq> None" "machines u sid = None"
  shows "wp (bring_up E cfg sid sb m rt err n) (\<lambda>r t. same_resources sb r) u"
  by (rule bring_up_wp [OF assms]) (simp_all add: same_resources_def started_def)

lemma CreateRestore_error: "CreateRestore p fl now sid path tap ip e db = (Inl err, db') \<Longrightarrow> db' = db"
  by (erule CreateRestore_cases) auto

lemma CreateRestore_gives:
  "CreateRestore p fl now sid path tap ip e db = (Inr sb, db') \<Longrightarrow> sb_tap_device sb = tap \<and> sb_guest_ip sb = ip"
  by (erule CreateRestore_cases) (auto simp: new_sandbox_def)

definition restore_post :: "snapshot \<Rightarrow> server \<Rightarrow> response \<Rightarrow> server \<Rightarrow> bool" where
  "restore_post snap s r t \<longleftrightarrow> (\<exists>sid. create_post sid s r t) \<and>
     (case snd r of
        BSandbox x \<Rightarrow> sb_tap_device x = sn_tap_device snap \<and> sb_guest_ip x = sn_guest_ip snap \<and>
          sb_rootfs_path x = sn_source_rootfs_path snap
      | _ \<Rightarrow> True)"

lemma handleRestore_wp:
  assumes "cleanup_ok E" "registry_ok (reg_db s)" "tracked_ok s"
    and "GetSnapshot (db_faults E (calls s) (OpGetSnapshot snapID)) snapID (reg_db s) = Inr snap"
  shows "wp (handleRestore E cfg snapID rb) (restore_post snap s) s"
proof -
  have fail: "restore_post snap s (code, BError e) t"
    if "code \<noteq> 201" "reg_db t = reg_db s" "machines t = machines s" for code e t
    using that by (auto simp: restore_post_def create_post_def)
  have rest: "wp (reg_CreateRestore E cfg sid snap ex) (\<lambda>r. wp (case r of
        Inl e \<Rightarrow> httpError 409 (ErrRegistryRestore e)
      | Inr sb \<Rightarrow> do {
     r \<leftarrow> CopyFileSparse E (sn_rootfs_path snap) (sn_source_rootfs_path snap);
     (case r of
        Inl e \<Rightarrow> do { _ \<leftarrow> rollbackPreVM E cfg sid sb; httpError 500 (ErrCopyRootfs e) }
      | Inr _ \<Rightarrow> do {
     r \<leftarrow> CreateTap E (Prov cfg) (sb_tap_device sb);
     (case r of
        Inl e \<Rightarrow> do { _ \<leftarrow> rollbackPreVM E cfg sid sb; httpError 500 (ErrCreateTap e) }
      | Inr _ \<Rightarrow> do {
     r \<leftarrow> NewMachineFromSnapshot E (restore_options cfg (sn_source_rootfs_path snap)) (sn_mem_path snap) (sn_state_path snap);
     (case r of
        Inl e \<Rightarrow> do { _ \<leftarrow> rollbackPreVM E cfg sid sb; httpError 500 (ErrNewMachine e) }
      | Inr (m, rt) \<Rightarrow> bring_up E cfg sid sb m rt ErrStart 30000000000) }) }) }) (restore_post snap s)) u"
    if u: "reg_db u = reg_db s" "machines u = machines s" for u sid ex
  proof -
    obtain res db' where Pair: "CreateRestore (RegPools cfg) (db_faults E (calls u @ [Now]) (OpCreateRestore sid))
      (r_num (answer E (calls u) Now)) sid (sn_source_rootfs_path snap) (sn_tap_device snap) (sn_guest_ip snap) ex
      (reg_db s) = (res, db')" by fastforce
    show ?thesis
    proof (cases res)
      case (Inl e)
      then show ?thesis
        using Pair u CreateRestore_error unfolding reg_CreateRestore_def
        by (auto simp: wp intro!: fail)
    next
      case (Inr sb)
      have c: "allocated (reg_db s) sid sb db'" and path: "sb_rootfs_path sb = sn_source_rootfs_path snap"
        using CreateRestore_allocated [OF Pair [unfolded Inr]] by simp_all
      have net: "sb_tap_device sb = sn_tap_device snap" "sb_guest_ip sb = sn_guest_ip snap"
        using CreateRestore_gives [OF Pair [unfolded Inr]] by simp_all
      have undo: "wp (rollbackPreVM E cfg sid sb) (\<lambda>_. restore_post snap s (500, BError e)) v"
        if "reg_db v = db'" "machines v = machines s" for v e
        using that assms(1) Destroy_allocated [OF assms(2) c] by (intro rollback_wp) (auto intro!: fail)
      have run: "wp (bring_up E cfg sid sb m rt err n) (restore_post snap s) v"
        if v: "reg_db v = db'" "machines v = machines s" for v m rt err n
      proof -
        have new: "find_sandbox sid db' \<noteq> None" "find_sandbox sid (reg_db s) = None"
          using allocated_find [OF c] by (metis option.distinct(1))+
        have "wp (bring_up E cfg sid sb m rt err n) (\<lambda>r t. create_post sid s r t \<and> same_resources sb r) v"
          using v new tracked_okD [OF assms(3)]
          by (intro wp_conj bring_up_post [OF assms(1-3) c] bring_up_resources [OF assms(1)]) auto
        then show ?thesis
          by (rule wp_conseq) (auto simp: restore_post_def same_resources_def net path split: body.splits)
      qed
      show ?thesis
        using Inr Pair u unfolding reg_CreateRestore_def
        by (auto simp: wp split: sum.split prod.split intro!: host_wps undo run)
    qed
  qed
  show ?thesis
    unfolding handleRestore_def reg_GetSnapshot_def wp
    by (auto simp: assms(4) split: sum.split intro!: host_wps fail rest [unfolded wp])
qed

text \<open>
  C19: Restoring is all or nothing as well: a response other than 201 means that the
  database and the tracked machines are exactly as before; a 201 returns a tracked, readable
  sandbox that runs on the tap, the address and the disk path baked into the snapshot.
\<close>
theorem handleRestore_all_or_nothing:
  assumes "registry_ok (reg_db s)" "cleanup_ok E" "tracked_ok s"
    and "GetSnapshot (db_faults E (calls s) (OpGetSnapshot snapID)) snapID (reg_db s) = Inr snap"
    and "run_state (handleRestore E cfg snapID rb) s = ((code, b), t)"
  shows "if code = 201
    then \<exists>sb m. b = BSandbox sb \<and> machines t = (machines s)(sb_id sb \<mapsto> m) \<and>
           Get no_faults (sb_id sb) (reg_db t) = Inr (whole_seconds sb) \<and>
           sb_tap_device sb = sn_tap_device snap \<and> sb_guest_ip sb = sn_guest_ip snap \<and>
           sb_rootfs_path sb = sn_source_rootfs_path snap \<and>
           (\<forall>x. x = sb_id sb \<or> Get no_faults x (reg_db t) = Get no_faults x (reg_db s))
    else reg_db t = reg_db s \<and> machines t = machines s"
  using wp_run [OF assms(5) handleRestore_wp [OF assms(2,1,3,4)]]
  unfolding restore_post_def create_post_def by (auto split: if_splits)

definition server_free :: server where
  "server_free = \<lparr>calls = [], reg_db = empty_db\<lparr>snapshots := [snapshot_to_row snap_a]\<rparr>, machines = (\<lambda>_. None)\<rparr>"

theorem handleRestore_all_or_nothing_witness:
  "\<exists>code b t. run_state (handleRestore sunny sample_cfg ''s'' NoBody) server_free = ((code, b), t) \<and>
     (if code = 201 then \<exists>sb. b = BSandbox sb \<and> sb_tap_device sb = ''fc0'' \<and> sb_rootfs_path sb = ''/r/a.ext4''
      else sandboxes (reg_db t) = [])"
proof -
  obtain code b t where run: "run_state (handleRestore sunny sample_cfg ''s'' NoBody) server_free = ((code, b), t)"
    by (metis prod.exhaust)
  have ok: "registry_ok (reg_db server_free)"
    using insert_snapshot_ok [OF empty_db_ok, of "snapshot_to_row snap_a"]
    by (simp add: server_free_def insert_snapshot_def empty_db_def)
  have snap: "GetSnapshot (db_faults sunny (calls server_free) (OpGetSnapshot ''s'')) ''s'' (reg_db server_free) =
      Inr (scanSnapshot (snapshot_to_row snap_a))"
    by (simp add: GetSnapshot_def find_snapshot_def server_free_def snapshot_to_row_def snap_a_def empty_db_def sunny_def)
  have track: "tracked_ok server_free"
    by (simp add: tracked_ok_def server_free_def)
  have fields: "sn_tap_device (scanSnapshot (snapshot_to_row snap_a)) = ''fc0''"
    "sn_source_rootfs_path (scanSnapshot (snapshot_to_row snap_a)) = ''/r/a.ext4''"
    by (simp_all add: scanSnapshot_def snapshot_to_row_def snap_a_def)
  have none: "sandboxes (reg_db server_free) = []"
    by (simp add: server_free_def empty_db_def)
  show ?thesis
    using handleRestore_all_or_nothing [OF ok sunny_cleanup track snap run] run fields none
    by (auto split: if_splits)
qed

end
