(* ===== verification/Fanout_Props.thy ===== *)
theory Fanout_Props
  imports Snapshot_Props
begin

text \<open>
  Fan-out: the clones that come up are exactly what is added to the database and the
  machine map; the others leave nothing behind.
\<close>

subsection \<open>Removing what a phase added\<close>

lemma delete_all_allocated:
  "registry_ok db \<Longrightarrow> allocated db sid sb db' \<Longrightarrow> delete_all {sid} db' = db"
  using Destroy_allocated [of db sid sb db'] Destroy_delete_all [OF allocated_ok, of db sid sb db' sid] by simp

lemma delete_all_update:
  assumes "\<And>r. c_id (f r) = c_id r" "sid \<in> A"
  shows "delete_all A (update_sandbox sid f db) = delete_all A db"
proof -
  have "filter (\<lambda>r. c_id r \<notin> A) (map (\<lambda>r. if c_id r = sid then f r else r) rs) = filter (\<lambda>r. c_id r \<notin> A) rs" for rs
    using assms by (induction rs) auto
  then show ?thesis by (simp add: delete_all_def update_sandbox_def)
qed

lemma delete_all_shrink:
  assumes "registry_ok db" "B \<subseteq> A" "\<And>x. x \<in> A - B \<Longrightarrow> find_sandbox x db = None"
  shows "delete_all A db = delete_all B db"
proof -
  have rows: "c_id r \<notin> A - B" if "r \<in> set (sandboxes db)" for r
    using assms(3) [of "c_id r"] that by (auto simp: find_sandbox_def find_None_iff)
  have "p_sandbox_id q \<in> c_id ` set (sandboxes db)" if "q \<in> set (sandbox_ports db)" for q
    using that assms(1) by (auto simp: registry_ok_def code_ok_def)
  then have ports: "p_sandbox_id q \<notin> A - B" if "q \<in> set (sandbox_ports db)" for q
    using that rows by fastforce
  have "filter (\<lambda>r. c_id r \<notin> A) (sandboxes db) = filter (\<lambda>r. c_id r \<notin> B) (sandboxes db)"
    "filter (\<lambda>q. p_sandbox_id q \<notin> A) (sandbox_ports db) = filter (\<lambda>q. p_sandbox_id q \<notin> B) (sandbox_ports db)"
    using rows ports assms(2) by (auto intro!: filter_cong)
  then show ?thesis by (simp add: delete_all_def)
qed

lemma registry_ok_started:
  "registry_ok db \<Longrightarrow> registry_ok (update_sandbox sid (set_started pid rt) db)"
proof (cases "find_sandbox sid db = None")
  case True
  then have "map (\<lambda>r. if c_id r = sid then set_started pid rt r else r) (sandboxes db) = sandboxes db"
    by (auto simp: find_sandbox_def find_None_iff intro: map_idI)
  then show "registry_ok db \<Longrightarrow> ?thesis" by (simp add: update_sandbox_def)
next
  case False
  then have "FinishStart no_faults sid pid (rt_VMID rt) (rt_SocketPath rt) db = (Inr (), update_sandbox sid (set_started pid rt) db)"
    by (simp add: FinishStart_def set_started_def [abs_def])
  then show "registry_ok db \<Longrightarrow> ?thesis" using update_ok by blast
qed

subsection \<open>The first phase\<close>

definition no_process :: "sandbox \<Rightarrow> bool" where
  "no_process sb \<longleftrightarrow> sb_pid sb = 0 \<and> sb_vm_id sb = '''' \<and> sb_socket_path sb = ''''"

lemma Create_no_process: "Create p fl now sid path e db = (Inr sb, db') \<Longrightarrow> no_process sb"
  by (erule Create_cases) (auto simp: no_process_def new_sandbox_def)

definition clone_post :: "server \<Rightarrow> clone \<Rightarrow> server \<Rightarrow> bool" where
  "clone_post s c t \<longleftrightarrow> machines t = machines s \<and>
     (case c of
        Inl e \<Rightarrow> reg_db t = reg_db s
      | Inr (sb, m, rt) \<Rightarrow> allocated (reg_db s) (sb_id sb) sb (reg_db t) \<and> no_process sb)"

lemma bringUpClone_wp:
  assumes "cleanup_ok E" "registry_ok (reg_db s)"
  shows "wp (bringUpClone E cfg snap ex) (clone_post s) s"
proof -
  define sid where "sid = r_out (answer E (calls s) NewUUID)"
  obtain res db' where Pair: "Create (RegPools cfg)
      (db_faults E ((calls s @ [NewUUID]) @ [Now]) (OpCreate sid))
      (r_num (answer E (calls s @ [NewUUID]) Now)) sid (RootfsPathFor (Prov cfg) sid) ex (reg_db s) = (res, db')"
    by fastforce
  show ?thesis
  proof (cases res)
    case (Inl e)
    then show ?thesis
      using Pair Create_error unfolding bringUpClone_def reg_Create_def Let_def wp sid_def
      by (auto simp: clone_post_def)
  next
    case (Inr sb)
    have c: "allocated (reg_db s) sid sb db'"
      using Create_allocated [OF Pair [unfolded Inr]] by simp
    have np: "no_process sb" by (rule Create_no_process [OF Pair [unfolded Inr]])
    have sbid: "sb_id sb = sid" using c by (auto simp: allocated_def)
    have undo: "wp (rollbackPreVM E cfg sid sb) (\<lambda>_. clone_post s (Inl e)) v"
      if "reg_db v = db'" "machines v = machines s" for v e
      using that assms(1) Destroy_allocated [OF assms(2) c] by (intro rollback_wp) (auto simp: clone_post_def)
    have came_up: "clone_post s (Inr (sb, m, rt)) v"
      if "reg_db v = db'" "machines v = machines s" for v m rt
      using that c np sbid by (simp add: clone_post_def)
    show ?thesis
      using Inr Pair unfolding bringUpClone_def reg_Create_def Let_def wp
      unfolding sid_def [symmetric]
      by (auto split: sum.split intro!: host_wps undo came_up)
  qed
qed

definition clone_ids :: "clone list \<Rightarrow> string list" where
  "clone_ids cs = concat (map (\<lambda>c. case c of Inl e \<Rightarrow> [] | Inr (sb, m, rt) \<Rightarrow> [sb_id sb]) cs)"

lemma clone_ids_simps [simp]:
  "clone_ids [] = []" "clone_ids (Inl e # cs) = clone_ids cs"
  "clone_ids (Inr (sb, m, rt) # cs) = sb_id sb # clone_ids cs"
  by (simp_all add: clone_ids_def)

text \<open>What the clones up so far have added to the database.\<close>

definition added :: "string set \<Rightarrow> registry_db \<Rightarrow> registry_db \<Rightarrow> bool" where
  "added ids db db' \<longleftrightarrow> registry_ok db' \<and> delete_all ids db' = db \<and>
     (\<forall>x \<in> ids. find_sandbox x db' \<noteq> None \<and> find_sandbox x db = None)"

lemma added_allocated:
  assumes "registry_ok db" "allocated db sid sb db1" "added ids db1 db2"
  shows "added (insert sid ids) db db2 \<and> sid \<notin> ids"
proof -
  have f: "find_sandbox sid db1 \<noteq> None" "find_sandbox sid db = None"
    and g: "x \<noteq> sid \<Longrightarrow> find_sandbox x db1 = find_sandbox x db" for x
    using allocated_find [OF assms(2)] by (metis option.distinct(1))+
  have out: "sid \<notin> ids" using f(1) assms(3) by (auto simp: added_def)
  have "delete_all (insert sid ids) db2 = delete_all {sid} (delete_all ids db2)"
    by (simp add: delete_all_union)
  also have "\<dots> = db"
    using assms(3) delete_all_allocated [OF assms(1,2)] by (simp add: added_def)
  finally have "delete_all (insert sid ids) db2 = db" .
  moreover have "find_sandbox sid db2 \<noteq> None"
    using f(1) assms(3) out find_delete_all [of sid ids db2] by (auto simp: added_def)
  moreover have "find_sandbox x db = None" if "x \<in> ids" for x
    using that out g [of x] assms(3) by (cases "x = sid") (simp_all add: added_def)
  ultimately show ?thesis
    using out f(2) assms(3) by (auto simp: added_def simp del: delete_all_union)
qed

definition phase1_post :: "server \<Rightarrow> clone list \<Rightarrow> server \<Rightarrow> bool" where
  "phase1_post s cs t \<longleftrightarrow> machines t = machines s \<and> distinct (clone_ids cs) \<and>
     added (set (clone_ids cs)) (reg_db s) (reg_db t) \<and>
     (\<forall>c \<in> set cs. case c of Inl e \<Rightarrow> True | Inr (sb, m, rt) \<Rightarrow> no_process sb)"

lemma bring_up_clones_wp:
  assumes "cleanup_ok E"
  shows "registry_ok (reg_db s) \<Longrightarrow>
    wp (bring_up_clones E cfg snap ex n) (\<lambda>cs t. phase1_post s cs t \<and> length cs = n) s"
proof (induction n arbitrary: s)
  case 0
  then show ?case by (simp add: wp phase1_post_def added_def)
next
  case (Suc n)
  have next_: "wp (bring_up_clones E cfg snap ex n) (\<lambda>cs. \<lambda>u. phase1_post s (c # cs) u \<and> length (c # cs) = Suc n) t"
    if c: "clone_post s c t" for c t
  proof (cases c)
    case (Inl e)
    then have "reg_db t = reg_db s" "machines t = machines s" using c by (simp_all add: clone_post_def)
    then show ?thesis
      using wp_conseq [OF Suc.IH [of t]] Suc.prems Inl by (fastforce simp: phase1_post_def)
  next
    case (Inr x)
    obtain sb m rt where x: "x = (sb, m, rt)" by (metis prod.exhaust)
    have al: "allocated (reg_db s) (sb_id sb) sb (reg_db t)" "machines t = machines s" "no_process sb"
      using c Inr x by (simp_all add: clone_post_def)
    show ?thesis
      by (rule wp_conseq [OF Suc.IH [OF allocated_ok [OF Suc.prems al(1)]]])
        (use added_allocated [OF Suc.prems al(1)] al Inr x in \<open>auto simp: phase1_post_def\<close>)
  qed
  show ?case
    unfolding bring_up_clones.simps wp
    by (rule wp_conseq [OF bringUpClone_wp [OF assms Suc.prems]]) (use next_ in simp)
qed

subsection \<open>The second phase\<close>

text \<open>
  The clones of a list are finished one after the other: a clone stays, started and tracked,
  or goes, and the rest of the state is untouched.
\<close>

definition phase2_post :: "server \<Rightarrow> string set \<Rightarrow> sandbox list \<Rightarrow> server \<Rightarrow> bool" where
  "phase2_post s ids live t \<longleftrightarrow>
     distinct (map sb_id live) \<and> sb_id ` set live \<subseteq> ids \<and> registry_ok (reg_db t) \<and>
     delete_all ids (reg_db t) = delete_all ids (reg_db s) \<and>
     (\<forall>x \<in> ids. (find_sandbox x (reg_db t) \<noteq> None) = (x \<in> sb_id ` set live)) \<and>
     (\<forall>x. x \<in> sb_id ` set live \<or> machines t x = machines s x) \<and>
     (\<forall>x \<in> sb_id ` set live. machines t x \<noteq> None)"

definition started_here :: "server \<Rightarrow> string \<Rightarrow> server \<Rightarrow> bool" where
  "started_here s sid t \<longleftrightarrow> (\<exists>pid rt m. reg_db t = update_sandbox sid (set_started pid rt) (reg_db s) \<and>
     machines t = (machines s)(sid \<mapsto> m))"

lemma finishClone_wp:
  assumes "find_sandbox (sb_id sb) (reg_db s) \<noteq> None"
    and "\<And>e t. reg_db t = reg_db s \<Longrightarrow> machines t = machines s \<Longrightarrow> Q (Inl e) t"
    and "\<And>r t. started_here s (sb_id sb) t \<Longrightarrow> Q r t"
  shows "wp (finishClone E cfg sb m rt) Q s"
proof -
  have start: "wp (reg_FinishStart E (sb_id sb) pid rt) (\<lambda>r. wp (case r of
        Inl e \<Rightarrow> do { _ \<leftarrow> StopForce E (Some m); return (Inl (ErrFinishStart e)) }
      | Inr _ \<Rightarrow> do { _ \<leftarrow> machines_Store (sb_id sb) m; waitForAgent E ip n }) Q) t"
    if t: "reg_db t = reg_db s" "machines t = machines s" for t pid ip n
    using FinishStart_cases [OF assms(1), of "db_faults E (calls t) (OpFinishStart (sb_id sb))" pid rt]
  proof
    assume "\<exists>e. FinishStart (db_faults E (calls t) (OpFinishStart (sb_id sb))) (sb_id sb) pid (rt_VMID rt)
        (rt_SocketPath rt) (reg_db s) = (Inl e, reg_db s)"
    then show ?thesis
      using t unfolding reg_FinishStart_def by (auto simp: wp intro!: host_wps assms(2))
  next
    assume "FinishStart (db_faults E (calls t) (OpFinishStart (sb_id sb))) (sb_id sb) pid (rt_VMID rt)
        (rt_SocketPath rt) (reg_db s) = (Inr (), update_sandbox (sb_id sb) (set_started pid rt) (reg_db s))"
    then show ?thesis
      using t unfolding reg_FinishStart_def
      by (auto simp: wp started_here_def intro!: host_wps assms(3)) blast+
  qed
  show ?thesis
    unfolding finishClone_def wp
    by (rule host_wps) (auto split: sum.split intro!: host_wps start [unfolded wp] assms(2))
qed

lemma started_facts:
  assumes "registry_ok (reg_db s)" "find_sandbox sid (reg_db s) \<noteq> None" "started_here s sid t"
  shows "registry_ok (reg_db t)" and "sid \<in> A \<Longrightarrow> delete_all A (reg_db t) = delete_all A (reg_db s)"
    and "(find_sandbox x (reg_db t) = None) = (find_sandbox x (reg_db s) = None)"
    and "machines t sid \<noteq> None" and "x \<noteq> sid \<Longrightarrow> machines t x = machines s x"
proof -
  obtain pid rt m where t: "reg_db t = update_sandbox sid (set_started pid rt) (reg_db s)"
    "machines t = (machines s)(sid \<mapsto> m)"
    using assms(3) by (auto simp: started_here_def)
  show "registry_ok (reg_db t)" using registry_ok_started [OF assms(1)] t(1) by simp
  show "sid \<in> A \<Longrightarrow> delete_all A (reg_db t) = delete_all A (reg_db s)"
    using delete_all_update [of "set_started pid rt" sid A] t(1) by simp
  show "(find_sandbox x (reg_db t) = None) = (find_sandbox x (reg_db s) = None)"
    by (simp add: t(1) find_after_update)
  show "machines t sid \<noteq> None" "x \<noteq> sid \<Longrightarrow> machines t x = machines s x"
    by (simp_all add: t(2))
qed

lemma delete_all_fields:
  "sandboxes (delete_all A db) = filter (\<lambda>r. c_id r \<notin> A) (sandboxes db)"
  "sandbox_ports (delete_all A db) = filter (\<lambda>p. p_sandbox_id p \<notin> A) (sandbox_ports db)"
  "snapshots (delete_all A db) = snapshots db"
  by (simp_all add: delete_all_def)

lemma find_outside: "x \<notin> A \<Longrightarrow> delete_all A db = delete_all A db' \<Longrightarrow> find_sandbox x db = find_sandbox x db'"
  by (metis find_delete_all)

lemma gone_post:
  assumes "sid \<notin> ids" "reg_db u = delete_all {sid} (reg_db s)" "machines u = machines s"
    and "phase2_post u ids live t"
  shows "phase2_post s (insert sid ids) live t"
proof -
  have "delete_all (insert sid ids) (reg_db t) = delete_all {sid} (delete_all ids (reg_db t))"
    by (simp add: delete_all_union)
  also have "\<dots> = delete_all {sid} (delete_all ids (delete_all {sid} (reg_db s)))"
    using assms(2,4) by (simp add: phase2_post_def)
  also have "\<dots> = delete_all (insert sid ids) (reg_db s)"
    by (simp add: delete_all_union insert_commute)
  finally have "delete_all (insert sid ids) (reg_db t) = delete_all (insert sid ids) (reg_db s)" .
  moreover have "find_sandbox sid (reg_db t) = None"
    using find_outside [OF assms(1), of "reg_db t" "reg_db u"] assms(2,4) by (simp add: phase2_post_def find_delete_all)
  ultimately show ?thesis
    using assms(1,3,4) by (auto simp: phase2_post_def)
qed

lemma stay_post:
  assumes "registry_ok (reg_db s)" "find_sandbox (sb_id sb) (reg_db s) \<noteq> None" "started_here s (sb_id sb) u"
    and "sb_id sb \<notin> ids" "phase2_post u ids live t"
  shows "phase2_post s (insert (sb_id sb) ids) (sb # live) t"
proof -
  note u = started_facts [OF assms(1-3)]
  have "delete_all (insert (sb_id sb) ids) (reg_db t) = delete_all {sb_id sb} (delete_all ids (reg_db t))"
    by (simp add: delete_all_union)
  also have "\<dots> = delete_all (insert (sb_id sb) ids) (reg_db u)"
    using assms(5) by (simp add: phase2_post_def delete_all_union)
  also have "\<dots> = delete_all (insert (sb_id sb) ids) (reg_db s)"
    using u(2) by simp
  finally have "delete_all (insert (sb_id sb) ids) (reg_db t) = delete_all (insert (sb_id sb) ids) (reg_db s)" .
  moreover have "find_sandbox (sb_id sb) (reg_db t) \<noteq> None"
    using find_outside [OF assms(4), of "reg_db t" "reg_db u"] assms(2,5) u(3) by (simp add: phase2_post_def)
  moreover have "sb_id sb \<notin> sb_id ` set live"
    using assms(4,5) by (auto simp: phase2_post_def)
  then have "machines t (sb_id sb) \<noteq> None"
    using assms(5) u(4) unfolding phase2_post_def by metis
  moreover have "x \<in> sb_id ` set (sb # live) \<or> machines t x = machines s x" for x
    using assms(5) u(5) [of x] unfolding phase2_post_def by fastforce
  ultimately show ?thesis
    using assms(4,5) unfolding phase2_post_def by (intro conjI ballI allI) auto
qed

lemma finish_clones_wp:
  assumes "cleanup_ok E"
  shows "registry_ok (reg_db s) \<Longrightarrow> distinct (clone_ids cs) \<Longrightarrow>
    (\<And>x. x \<in> set (clone_ids cs) \<Longrightarrow> find_sandbox x (reg_db s) \<noteq> None \<and> machines s x = None) \<Longrightarrow>
    wp (finish_clones E cfg cs) (phase2_post s (set (clone_ids cs))) s"
proof (induction cs arbitrary: s)
  case Nil
  then show ?case by (simp add: wp phase2_post_def)
next
  case (Cons c cs)
  show ?case
  proof (cases c)
    case (Inl e)
    then show ?thesis using Cons by simp
  next
    case (Inr x)
    obtain sb m rt where x: "x = (sb, m, rt)" by (metis prod.exhaust)
    let ?sid = "sb_id sb"
    have sid: "?sid \<notin> set (clone_ids cs)" "distinct (clone_ids cs)" "find_sandbox ?sid (reg_db s) \<noteq> None"
      "machines s ?sid = None"
      using Cons.prems(2,3) Inr x by auto
    have others: "find_sandbox y (reg_db s) \<noteq> None \<and> machines s y = None" if "y \<in> set (clone_ids cs)" for y
      using Cons.prems(3) that Inr x by auto
    have ids: "set (clone_ids (c # cs)) = insert ?sid (set (clone_ids cs))" using Inr x by simp
    have gone: "wp (finish_clones E cfg cs) (phase2_post s (insert ?sid (set (clone_ids cs)))) u"
      if u: "reg_db u = delete_all {?sid} (reg_db s)" "machines u = machines s" for u
    proof (rule wp_conseq [OF Cons.IH [OF _ sid(2)] gone_post [OF sid(1) u]])
      show "registry_ok (reg_db u)" using Cons.prems(1) u(1) by (simp add: registry_ok_delete_all1)
      show "find_sandbox y (reg_db u) \<noteq> None \<and> machines u y = None" if "y \<in> set (clone_ids cs)" for y
        using others [OF that] that sid(1) u by (auto simp: find_delete_all)
    qed
    have stay: "wp (finish_clones E cfg cs)
        (\<lambda>live. phase2_post s (insert ?sid (set (clone_ids cs))) (sb # live)) u"
      if u: "started_here s ?sid u" for u
    proof (rule wp_conseq [OF Cons.IH [OF _ sid(2)] stay_post [OF Cons.prems(1) sid(3) u sid(1)]])
      note f = started_facts [OF Cons.prems(1) sid(3) u]
      show "registry_ok (reg_db u)" by (rule f(1))
      show "find_sandbox y (reg_db u) \<noteq> None \<and> machines u y = None" if "y \<in> set (clone_ids cs)" for y
        using others [OF that] that sid(1) f(3,5) [of y] by auto
    qed
    have drop_same: "wp (destroy E cfg ?sid)
        (\<lambda>_. wp (finish_clones E cfg cs) (phase2_post s (insert ?sid (set (clone_ids cs))))) v"
      if "reg_db v = reg_db s" "machines v = machines s" for v
      using that sid(3,4) Cons.prems(1)
      by (intro destroy_wp [OF assms] gone) (auto simp: Destroy_delete_all)
    have drop_started: "wp (destroy E cfg ?sid)
        (\<lambda>_. wp (finish_clones E cfg cs) (phase2_post s (insert ?sid (set (clone_ids cs))))) v"
      if v: "started_here s ?sid v" for v
    proof (rule destroy_wp [OF assms])
      note f = started_facts [OF Cons.prems(1) sid(3) v]
      show "find_sandbox ?sid (reg_db v) \<noteq> None" using f(3) sid(3) by simp
      show "wp (finish_clones E cfg cs) (phase2_post s (insert ?sid (set (clone_ids cs)))) u"
        if "reg_db u = snd (Destroy no_faults ?sid (reg_db v))" "machines u = (machines v)(?sid := None)" for u :: server
        using that f(1) f(2) [of "{?sid}"] v sid(4)
        by (intro gone) (auto simp: Destroy_delete_all started_here_def)
    qed
    have "wp (finishClone E cfg sb m rt)
        (\<lambda>r. wp (case r of
             Inl e \<Rightarrow> do { _ \<leftarrow> destroy E cfg ?sid; finish_clones E cfg cs }
           | Inr _ \<Rightarrow> do { live \<leftarrow> finish_clones E cfg cs; return (sb # live) })
          (phase2_post s (insert ?sid (set (clone_ids cs))))) s"
      unfolding wp
      by (rule finishClone_wp [where sb = sb]) (auto simp: sid(3) drop_same drop_started stay split: sum.split)
    then show ?thesis
      unfolding ids using Inr x by (simp add: wp(2))
  qed
qed

subsection \<open>The whole handler\<close>

lemma finish_clones_member: "run_state (finish_clones E cfg cs) s = (live, t) \<Longrightarrow> sb \<in> set live \<Longrightarrow>
    \<exists>m rt. Inr (sb, m, rt) \<in> set cs"
proof (induction cs arbitrary: s live)
  case Nil
  then show ?case by simp
next
  case (Cons c cs)
  then show ?case
    by (cases c) (fastforce split: sum.splits prod.splits)+
qed

lemma stage_host_only: "state_io_rel host_only (stage_baked E snap)"
  unfolding stage_baked_def by (intro host_frame.io_intros call_host_only io_host)

text \<open>What the response lists is what was added.\<close>

definition fanout_post :: "server \<Rightarrow> response \<Rightarrow> server \<Rightarrow> bool" where
  "fanout_post s r t \<longleftrightarrow>
     (if fst r = 201
      then \<exists>live. snd r = BSandboxes live \<and> live \<noteq> [] \<and> distinct (map sb_id live) \<and>
             added (sb_id ` set live) (reg_db s) (reg_db t) \<and>
             (\<forall>sb \<in> set live. machines t (sb_id sb) \<noteq> None \<and> no_process sb) \<and>
             (\<forall>x. x \<in> sb_id ` set live \<or> machines t x = machines s x)
      else reg_db t = reg_db s \<and> machines t = machines s)"

lemma phase2_final:
  assumes "phase1_post s cs u" "phase2_post v (set (clone_ids cs)) live t"
    and "reg_db v = reg_db u" "machines v = machines u"
  shows "added (sb_id ` set live) (reg_db s) (reg_db t)" and "\<forall>x. x \<in> sb_id ` set live \<or> machines t x = machines s x"
proof -
  have found: "(find_sandbox x (reg_db t) \<noteq> None) = (x \<in> sb_id ` set live)" if "x \<in> set (clone_ids cs)" for x
    using assms(2) that by (auto simp: phase2_post_def)
  have ok: "registry_ok (reg_db t)" and sub: "sb_id ` set live \<subseteq> set (clone_ids cs)"
    using assms(2) by (simp_all add: phase2_post_def)
  have "delete_all (sb_id ` set live) (reg_db t) = delete_all (set (clone_ids cs)) (reg_db t)"
    using found by (intro delete_all_shrink [symmetric] ok sub) blast
  also have "\<dots> = reg_db s"
    using assms(1-3) by (simp add: phase1_post_def phase2_post_def added_def)
  finally have "delete_all (sb_id ` set live) (reg_db t) = reg_db s" .
  then show "added (sb_id ` set live) (reg_db s) (reg_db t)"
    using ok sub found assms(1) by (auto simp: added_def phase1_post_def)
  show "\<forall>x. x \<in> sb_id ` set live \<or> machines t x = machines s x"
    using assms by (simp add: phase1_post_def phase2_post_def)
qed

lemma handleFanout_wp:
  assumes "cleanup_ok E" "registry_ok (reg_db s)" "tracked_ok s"
    and "GetSnapshot (db_faults E (calls s) (OpGetSnapshot snapID)) snapID (reg_db s) = Inr snap"
  shows "wp (handleFanout E cfg snapID rb) (fanout_post s) s"
proof -
  have fail: "fanout_post s (code, BError e) t"
    if "code \<noteq> 201" "reg_db t = reg_db s" "machines t = machines s" for code e t
    using that by (auto simp: fanout_post_def)
  have finish: "wp (finish_clones E cfg cs) (\<lambda>live. wp (if live = [] then httpError 500 ErrAllClonesFailed
      else writeJSON 201 (BSandboxes live)) (fanout_post s)) v"
    if p1: "phase1_post s cs u" and v: "reg_db v = reg_db u" "machines v = machines u" for cs u v
  proof -
    have pre: "registry_ok (reg_db v)" "distinct (clone_ids cs)"
      "\<And>x. x \<in> set (clone_ids cs) \<Longrightarrow> find_sandbox x (reg_db v) \<noteq> None \<and> machines v x = None"
      using p1 v tracked_okD [OF assms(3)] by (auto simp: phase1_post_def added_def)
    have "wp (finish_clones E cfg cs) (\<lambda>live t. \<forall>sb \<in> set live. no_process sb) v"
      using p1 by (intro wpI) (fastforce simp: phase1_post_def dest: finish_clones_member)
    then have "wp (finish_clones E cfg cs) (\<lambda>live t. phase2_post v (set (clone_ids cs)) live t \<and>
        (\<forall>sb \<in> set live. no_process sb)) v"
      by (intro wp_conj finish_clones_wp [OF assms(1) pre])
    then show ?thesis
    proof (rule wp_conseq)
      fix live t
      assume p2: "phase2_post v (set (clone_ids cs)) live t \<and> (\<forall>sb \<in> set live. no_process sb)"
      note f = phase2_final [OF p1 conjunct1 [OF p2] v]
      show "wp (if live = [] then httpError 500 ErrAllClonesFailed else writeJSON 201 (BSandboxes live))
          (fanout_post s) t"
        using f p2 by (auto simp: wp fanout_post_def added_def fun_eq_iff phase2_post_def)
    qed
  qed
  have run: "wp (bring_up_clones E cfg snap ex n) (\<lambda>cs. wp (do {
       _ \<leftarrow> (if staged then RemoveRootfs E (sn_source_rootfs_path snap) else return (Inr ()));
       _ \<leftarrow> call E (SleepNs 1500000000);
       live \<leftarrow> finish_clones E cfg cs;
       if live = [] then httpError 500 ErrAllClonesFailed else writeJSON 201 (BSandboxes live) })
      (fanout_post s)) v"
    if v: "reg_db v = reg_db s" "machines v = machines s" for ex n staged v
  proof (rule wp_conseq [OF bring_up_clones_wp [OF assms(1)]])
    show "registry_ok (reg_db v)" using v(1) assms(2) by simp
    fix cs u
    assume "phase1_post v cs u \<and> length cs = n"
    then have p1: "phase1_post s cs u" using v by (simp add: phase1_post_def)
    show "wp (do {
       _ \<leftarrow> (if staged then RemoveRootfs E (sn_source_rootfs_path snap) else return (Inr ()));
       _ \<leftarrow> call E (SleepNs 1500000000);
       live \<leftarrow> finish_clones E cfg cs;
       if live = [] then httpError 500 ErrAllClonesFailed else writeJSON 201 (BSandboxes live) })
      (fanout_post s) u"
      unfolding wp
      by (cases staged) (auto simp: wp intro!: host_wps finish [unfolded wp, OF p1])
  qed
  show ?thesis
    unfolding handleFanout_def reg_GetSnapshot_def wp
    by (auto simp: assms(4) split: sum.split intro!: host_wps stage_host_only [THEN host_wp] fail run [unfolded wp])
qed

text \<open>
  Fanning out answers 201 exactly with the clones that were added: at least one, under
  distinct ids, each with a row and a tracked machine; without them the tables are what they
  were, so clones that failed in either phase leave nothing behind. Any other response means
  that nothing changed at all.
\<close>
theorem handleFanout_adds_exactly_live:
  assumes "registry_ok (reg_db s)" "cleanup_ok E" "tracked_ok s"
    and "GetSnapshot (db_faults E (calls s) (OpGetSnapshot snapID)) snapID (reg_db s) = Inr snap"
    and "run_state (handleFanout E cfg snapID rb) s = ((code, b), t)"
  shows "if code = 201
    then \<exists>live. b = BSandboxes live \<and> live \<noteq> [] \<and> distinct (map sb_id live) \<and>
      (\<forall>sb \<in> set live. find_sandbox (sb_id sb) (reg_db t) \<noteq> None \<and> machines t (sb_id sb) \<noteq> None) \<and>
      filter (\<lambda>r. c_id r \<notin> sb_id ` set live) (sandboxes (reg_db t)) = sandboxes (reg_db s) \<and>
      filter (\<lambda>p. p_sandbox_id p \<notin> sb_id ` set live) (sandbox_ports (reg_db t)) = sandbox_ports (reg_db s) \<and>
      snapshots (reg_db t) = snapshots (reg_db s) \<and>
      (\<forall>x. x \<in> sb_id ` set live \<or> machines t x = machines s x)
    else reg_db t = reg_db s \<and> machines t = machines s"
proof (cases "code = 201")
  case False
  then show ?thesis
    using wp_run [OF assms(5) handleFanout_wp [OF assms(2,1,3,4)]] by (simp add: fanout_post_def)
next
  case True
  then obtain live where live: "b = BSandboxes live" "live \<noteq> []" "distinct (map sb_id live)"
    "added (sb_id ` set live) (reg_db s) (reg_db t)" "\<forall>sb \<in> set live. machines t (sb_id sb) \<noteq> None"
    "\<forall>x. x \<in> sb_id ` set live \<or> machines t x = machines s x"
    using wp_run [OF assms(5) handleFanout_wp [OF assms(2,1,3,4)]] by (auto simp: fanout_post_def)
  from live(4) have "delete_all (sb_id ` set live) (reg_db t) = reg_db s"
    and found: "\<forall>x \<in> sb_id ` set live. find_sandbox x (reg_db t) \<noteq> None"
    by (simp_all add: added_def)
  then have "filter (\<lambda>r. c_id r \<notin> sb_id ` set live) (sandboxes (reg_db t)) = sandboxes (reg_db s)"
    "filter (\<lambda>p. p_sandbox_id p \<notin> sb_id ` set live) (sandbox_ports (reg_db t)) = sandbox_ports (reg_db s)"
    "snapshots (reg_db t) = snapshots (reg_db s)"
    by (metis delete_all_fields)+
  with live found True show ?thesis by auto
qed

lemma free_snap:
  "registry_ok (reg_db server_free)" "tracked_ok server_free"
  "GetSnapshot (db_faults sunny (calls server_free) (OpGetSnapshot ''s'')) ''s'' (reg_db server_free) =
      Inr (scanSnapshot (snapshot_to_row snap_a))"
  using insert_snapshot_ok [OF empty_db_ok, of "snapshot_to_row snap_a"]
  by (simp_all add: server_free_def insert_snapshot_def tracked_ok_def)
    (simp_all add: empty_db_def GetSnapshot_def find_snapshot_def snapshot_to_row_def snap_a_def sunny_def)

theorem handleFanout_adds_exactly_live_witness:
  "\<exists>code b t. run_state (handleFanout sunny sample_cfg ''s'' (Decoded (2, 60))) server_free = ((code, b), t) \<and>
     (if code = 201
      then \<exists>live. b = BSandboxes live \<and> live \<noteq> [] \<and> (\<forall>r \<in> set (sandboxes (reg_db t)). c_id r \<in> sb_id ` set live)
      else sandboxes (reg_db t) = [])"
proof -
  obtain code b t where run: "run_state (handleFanout sunny sample_cfg ''s'' (Decoded (2, 60))) server_free = ((code, b), t)"
    by (metis prod.exhaust)
  have none: "sandboxes (reg_db server_free) = []"
    by (simp add: server_free_def empty_db_def)
  show ?thesis
    using handleFanout_adds_exactly_live [OF free_snap(1) sunny_cleanup free_snap(2,3) run] run none
    by (auto simp: filter_empty_conv split: if_splits)
qed

text \<open>
  Unlike create and restore, which answer with the identifiers of the started VM, every
  sandbox in a fan-out response has pid 0, no VM id and no socket path, although the rows
  carry them: the second phase fills in a copy.
\<close>
theorem handleFanout_response_lacks_process:
  assumes "registry_ok (reg_db s)" "cleanup_ok E" "tracked_ok s"
    and "GetSnapshot (db_faults E (calls s) (OpGetSnapshot snapID)) snapID (reg_db s) = Inr snap"
    and "run_state (handleFanout E cfg snapID rb) s = ((201, b), t)"
  shows "\<exists>live. b = BSandboxes live \<and> live \<noteq> [] \<and>
    (\<forall>sb \<in> set live. sb_pid sb = 0 \<and> sb_vm_id sb = [] \<and> sb_socket_path sb = [])"
  using wp_run [OF assms(5) handleFanout_wp [OF assms(2,1,3,4)]]
  by (auto simp: fanout_post_def no_process_def)

end
