(* ===== verification/Liveness.thy ===== *)
theory Liveness
  imports Fanout_Props
begin

text \<open>
  The other half of correctness: when every external call succeeds and the pools have room,
  creating a sandbox does return one. The environment is otherwise arbitrary.
\<close>

definition all_well :: "env \<Rightarrow> bool" where
  "all_well E \<longleftrightarrow> db_reliable E \<and> (\<forall>h c. c \<noteq> CtxDone \<longrightarrow> r_ok (answer E h c)) \<and>
     (\<forall>h ip. r_num (answer E h (ProbeAgent ip)) = 200) \<and>
     (\<forall>h sock meth path b. r_num (answer E h (FcApi sock meth path b)) < 400)"

lemma all_wellD [simp]:
  assumes "all_well E"
  shows "c \<noteq> CtxDone \<Longrightarrow> r_ok (answer E h c)" "r_num (answer E h (ProbeAgent ip)) = 200"
    "r_num (answer E h (FcApi sock meth path b)) < 400" "db_reliable E"
  using assms by (simp_all add: all_well_def)

lemma not_ge_400 [simp]: "all_well E \<Longrightarrow> \<not> 400 \<le> r_num (answer E h (FcApi sock meth path b))"
  using all_wellD(3) by (meson linorder_not_le)

text \<open>A program that returns a value of a given kind and leaves database and machines alone.\<close>

definition gives :: "'a server_action \<Rightarrow> ('a \<Rightarrow> bool) \<Rightarrow> bool" where
  "gives m P \<longleftrightarrow> (\<forall>s. wp m (\<lambda>a t. P a \<and> reg_db t = reg_db s \<and> machines t = machines s) s)"

lemma gives_wp: "gives m P \<Longrightarrow> (\<And>a t. P a \<Longrightarrow> reg_db t = reg_db s \<Longrightarrow> machines t = machines s \<Longrightarrow> Q a t) \<Longrightarrow> wp m Q s"
  unfolding gives_def by (erule allE [of _ s], erule wp_conseq) auto

lemma gives_hostI: "state_io_rel host_only m \<Longrightarrow> (\<And>s. wp m (\<lambda>a t. P a) s) \<Longrightarrow> gives m P"
proof -
  assume io: "state_io_rel host_only m" and P: "\<And>s. wp m (\<lambda>a t. P a) s"
  have same: "wp m (\<lambda>a t. reg_db t = reg_db s \<and> machines t = machines s) s" for s
    by (rule host_wp [OF io]) simp
  show ?thesis unfolding gives_def by (rule allI, rule wp_conj [OF P same])
qed

lemma steps_well:
  assumes "all_well E"
  shows "wp (run_cmd E args) Q = (\<lambda>s. Q (Inr ()) (s\<lparr>calls := calls s @ [Cmd args]\<rparr>))"
    "wp (mkdir_all E d) Q = (\<lambda>s. Q (Inr ()) (s\<lparr>calls := calls s @ [MkdirAll d]\<rparr>))"
    "wp (fcAPI E sock meth path b) Q = (\<lambda>s. Q (Inr ()) (s\<lparr>calls := calls s @ [FcApi sock meth path b]\<rparr>))"
  using assms by (simp_all add: run_cmd_def mkdir_all_def fcAPI_def wp fun_eq_iff)

lemma gives_provisioner:
  assumes "all_well E"
  shows "gives (CloneFile E src dst) (\<lambda>r. r = Inr ())"
    "gives (PrepareRootfs E p sid) (\<lambda>r. r = Inr (rootfsPath p sid))"
    "gives (CloneRootfs E p sid src) (\<lambda>r. r = Inr (rootfsPath p sid))"
    "gives (CreateTapUnbridged E tap) (\<lambda>r. r = Inr ())"
    "gives (AttachTapToBridge E p tap) (\<lambda>r. r = Inr ())"
    "gives (CreateTap E p tap) (\<lambda>r. r = Inr ())"
    "gives (AddPortForward E p hp ip) (\<lambda>r. r = Inr ())"
  using assms
  by (intro gives_hostI provisioner_host_only;
      simp add: CloneFile_def PrepareRootfs_def CloneRootfs_def CreateTapUnbridged_def AttachTapToBridge_def
        CreateTap_def AddPortForward_def AddPortForwardTo_def forward_rules_def wp steps_well)+

lemma poll_api_well: "all_well E \<Longrightarrow> fst (poll_api E sock n s) = Inr ()"
  by (subst poll_api.simps) simp

lemma poll_agent_well: "all_well E \<Longrightarrow> fst (poll_agent E ip n s)"
  by (subst poll_agent.simps) simp

lemma wp_State: "wp (State f) Q s = (case f s of (a, t) \<Rightarrow> Q a t)"
  by (simp add: wp_def)

lemma waits_well:
  assumes "all_well E"
  shows "gives (waitAPI E sock) (\<lambda>r. r = Inr ())" "gives (waitForAgent E ip n) (\<lambda>r. r = Inr ())"
  using assms
  by (intro gives_hostI io_host;
      simp add: waitAPI_def waitForAgent_def wp wp_State case_prod_beta poll_api_well poll_agent_well)+

subsection \<open>Machines\<close>

lemma applyDefaults_host_only: "state_io_rel host_only (applyDefaults E opts)"
  unfolding applyDefaults_def Let_def by (intro host_frame.io_intros call_host_only)

lemma applyDefaults_well:
  assumes "all_well E"
  shows "gives (applyDefaults E opts) (\<lambda>r. \<exists>x. r = Inr x \<and> TapDevice x = TapDevice opts \<and>
    GuestCIDR x = GuestCIDR opts \<and> GatewayIP x = GatewayIP opts)"
  using assms
  by (intro gives_hostI applyDefaults_host_only) (auto simp: applyDefaults_def Let_def wp)

definition sdk_machine :: "machine \<Rightarrow> bool" where
  "sdk_machine m \<longleftrightarrow> m_sdk m \<noteq> None \<and> m_raw m = None"

definition raw_running :: "machine \<Rightarrow> bool" where
  "raw_running m \<longleftrightarrow> (\<exists>r pid. m_raw m = Some r \<and> raw_process r = Some pid)"

lemma lifecycle_well:
  assumes "all_well E"
  shows "sdk_machine m \<Longrightarrow> gives (Start E (Some m)) (\<lambda>r. r = Inr ())"
    "sdk_machine m \<or> raw_running m \<Longrightarrow> gives (PID E (Some m)) (\<lambda>r. \<exists>pid. r = Inr pid)"
  using assms
  by (intro gives_hostI vm_host_only;
      auto simp: Start_def with_sdk_def sdk_call_def PID_def wp sdk_machine_def raw_running_def)+

text \<open>Addresses of the pool make valid guest configurations.\<close>

lemma slash_not_dec: "slash \<notin> set (dec n)"
  using dec_digits [of slash n] by (auto simp: slash_def is_digit_def)

lemma slash_not_address: "slash \<notin> set (uint32ToIP n)"
  using slash_not_dec by (auto simp: uint32ToIP_def dotted_def slash_def)

lemma ParseCIDR_address: "\<exists>ip net. ParseCIDR (uint32ToIP n @ ''/24'') = Some (ip, net, 24)"
proof -
  have split: "split_at slash (uint32ToIP n @ ''/24'') = [uint32ToIP n, ''24'']"
    using split_at_append [of slash "''24''" "uint32ToIP n"] slash_not_address [of n]
    by (simp add: slash_def split_at_none)
  have "ipToUint32 (uint32ToIP n) = Inr n" by simp
  then obtain ip where ip: "ParseIP (uint32ToIP n) = Some ip"
    by (auto simp: ipToUint32_def To4_def split: option.splits)
  have "dtoi 0 0 ''24'' = Some (24, [])"
    by (simp add: is_digit_def digit_val_def)
  with split ip show ?thesis
    by (simp add: ParseCIDR_def Let_def)
qed

lemma pool_address: "ip \<in> set (ip_slots p) \<Longrightarrow> \<exists>n. ip = uint32ToIP n"
  by (auto simp: ip_slots_def ip_slots_between_def split: option.splits)

lemma fcConfig_well:
  assumes "all_well E" "ParseCIDR (GuestCIDR opts) \<noteq> None" "ParseIP (GatewayIP opts) \<noteq> None"
  shows "wp (fcConfig E opts) (\<lambda>r t. \<exists>cfg. r = Inr cfg) (s :: server)"
  unfolding fcConfig_def wp
  by (rule gives_wp [OF applyDefaults_well [OF assms(1)]])
    (use assms in \<open>auto simp: Let_def buildNetworkInterface_def wp split: option.splits\<close>)

lemma NewMachine_well:
  assumes "all_well E" "ParseCIDR (GuestCIDR opts) \<noteq> None" "ParseIP (GatewayIP opts) \<noteq> None"
  shows "gives (NewMachine E opts) (\<lambda>r. \<exists>m rt. r = Inr (m, rt) \<and> sdk_machine m)"
proof (intro gives_hostI vm_host_only)
  fix s :: server
  show "wp (NewMachine E opts) (\<lambda>a t. \<exists>m rt. a = Inr (m, rt) \<and> sdk_machine m) s"
    unfolding NewMachine_def new_sdk_machine_def buildCommand_def wp
    by (rule wp_conseq [OF fcConfig_well [OF assms]])
      (use assms(1) in \<open>auto simp: wp sdk_machine_def Let_def\<close>)
qed

subsection \<open>Creating succeeds\<close>

lemma FinishStart_no_faults:
  "find_sandbox sid db \<noteq> None \<Longrightarrow>
     FinishStart no_faults sid pid (rt_VMID rt) (rt_SocketPath rt) db = (Inr (), update_sandbox sid (set_started pid rt) db)"
  by (simp add: FinishStart_def set_started_def [abs_def])

lemma bring_up_well:
  assumes "all_well E" "sdk_machine m" "find_sandbox sid (reg_db s) \<noteq> None"
    and Q: "\<And>x t. Q (201, x) t"
  shows "wp (bring_up E cfg sid sb m rt err n) Q s"
proof -
  have finish: "wp (reg_FinishStart E sid pid rt) (case_sum F (\<lambda>_ s. wp (waitForAgent E ip n)
      (case_sum G (\<lambda>_. Q (201, BSandbox (started sb pid rt)))) (s\<lparr>machines := (machines s)(sid \<mapsto> m)\<rparr>))) t"
    if "reg_db t = reg_db s" for t pid ip F G
    using that assms(1-3) unfolding reg_FinishStart_def wp
    by (auto simp: FinishStart_no_faults Q intro!: gives_wp [OF waits_well(2)])
  show ?thesis
    unfolding bring_up_def wp
    by (rule gives_wp [OF lifecycle_well(1) [OF assms(1,2)]], simp,
        rule gives_wp [OF lifecycle_well(2) [OF assms(1) disjI1 [OF assms(2)]]], clarsimp,
        rule gives_wp [OF gives_provisioner(7) [OF assms(1)]], simp add: finish)
qed

lemma create_well:
  assumes "all_well E" "registry_ok (reg_db s)" "timeout_of rb = Inr n"
    and "ip_range (RegPools cfg) = Some (lo, hi)" "lo \<le> hi" "hi \<noteq> - 1"
    and "int (length (sandboxes (reg_db s))) < Slots (RegPools cfg)"
    and "length (sandboxes (reg_db s)) + length (sandbox_ports (reg_db s)) < length (port_slots (RegPools cfg))"
    and "find_sandbox (fresh_id E s) (reg_db s) = None"
    and "ParseIP (ServerGatewayIP cfg) \<noteq> None"
  shows "wp (handleCreate E cfg rb) (\<lambda>r t. fst r = 201) s"
proof -
  let ?sid = "fresh_id E s"
  let ?Q = "\<lambda>(r :: response) (t :: server). fst r = 201"
  have rest: "wp (reg_Create E cfg ?sid path ex) (case_sum F1 (\<lambda>sb. wp (CreateTap E (Prov cfg) (sb_tap_device sb))
      (case_sum (F2 sb) (\<lambda>_. wp (randomMAC E) (\<lambda>mac. wp (NewMachine E (vm_options cfg path sb mac))
        (case_sum (F3 sb) (\<lambda>(m, rt). wp (bring_up E cfg ?sid sb m rt ErrStart 60000000000) ?Q))))))) u"
    if u: "reg_db u = reg_db s" for u path ex F1 F2 F3
  proof -
    define now where "now = r_num (answer E (calls u) Now)"
    obtain tap ip port where ip: "ip \<in> set (ip_slots (RegPools cfg))"
      and c: "Create (RegPools cfg) no_faults now ?sid path ex (reg_db s) =
        (Inr (new_sandbox ?sid path tap ip port now ex),
         (reg_db s)\<lparr>sandboxes := sandboxes (reg_db s) @ [new_row ?sid path tap ip port now ex]\<rparr>)"
      using Create_room [OF assms(2,4-9)] by blast
    let ?sb = "new_sandbox ?sid path tap ip port now ex"
    let ?db = "(reg_db s)\<lparr>sandboxes := sandboxes (reg_db s) @ [new_row ?sid path tap ip port now ex]\<rparr>"
    have found: "find_sandbox ?sid ?db \<noteq> None"
      by (auto simp: find_sandbox_def find_append split: option.split)
    have cidr: "ParseCIDR (GuestCIDR (vm_options cfg path ?sb mac)) \<noteq> None" for mac
      using pool_address [OF ip] ParseCIDR_address by (fastforce simp: vm_options_def new_sandbox_def)
    have gw: "ParseIP (GatewayIP (vm_options cfg path ?sb mac)) \<noteq> None" for mac
      using assms(10) by (simp add: vm_options_def)
    have machine: "wp (NewMachine E (vm_options cfg path ?sb mac))
        (case_sum (F3 ?sb) (\<lambda>(m, rt). wp (bring_up E cfg ?sid ?sb m rt ErrStart 60000000000) ?Q)) v"
      if v: "reg_db v = ?db" for v mac
      by (rule gives_wp [OF NewMachine_well [OF assms(1) cidr gw]])
        (use v found assms(1) in \<open>auto intro!: bring_up_well\<close>)
    have tap: "wp (CreateTap E (Prov cfg) (sb_tap_device ?sb))
        (case_sum (F2 ?sb) (\<lambda>_. wp (randomMAC E) (\<lambda>mac. wp (NewMachine E (vm_options cfg path ?sb mac))
        (case_sum (F3 ?sb) (\<lambda>(m, rt). wp (bring_up E cfg ?sid ?sb m rt ErrStart 60000000000) ?Q))))) v"
      if v: "reg_db v = ?db" for v
      by (rule gives_wp [OF gives_provisioner(6) [OF assms(1)]])
        (use v in \<open>auto intro!: server_host_only(2) [THEN host_wp] machine\<close>)
    show ?thesis
      using u c unfolding reg_Create_def wp
      by (simp add: assms(1) now_def [symmetric] tap)
  qed
  show ?thesis
    unfolding handleCreate_def wp fresh_id_def [symmetric] Let_def assms(3) sum.case
    by (rule server_host_only(5) [THEN host_wp], rule gives_wp [OF gives_provisioner(2) [OF assms(1)]])
      (simp add: rest)
qed

text \<open>
  When every external call succeeds, the configuration is usable and the pools have
  room, POST /sandboxes answers 201.
\<close>
theorem handleCreate_succeeds:
  assumes "all_well E" "registry_ok (reg_db s)" "timeout_of rb = Inr n"
    and "ip_range (RegPools cfg) = Some (lo, hi)" "lo \<le> hi" "hi \<noteq> - 1"
    and "int (length (sandboxes (reg_db s))) < Slots (RegPools cfg)"
    and "length (sandboxes (reg_db s)) + length (sandbox_ports (reg_db s)) < length (port_slots (RegPools cfg))"
    and "find_sandbox (fresh_id E s) (reg_db s) = None"
    and "ParseIP (ServerGatewayIP cfg) \<noteq> None"
    and "run_state (handleCreate E cfg rb) s = ((code, b), t)"
  shows "code = 201"
  using wp_run [OF assms(11) create_well [OF assms(1-10)]] by simp

lemma sunny_well [simp]: "all_well sunny"
  unfolding all_well_def by (intro conjI allI impI) (simp_all add: sunny_def db_reliable_def del: all_wellD)

lemma ipToUint32_ParseIP: "ipToUint32 x = Inr n \<Longrightarrow> \<exists>ip. ParseIP x = Some ip"
  by (auto simp: ipToUint32_def To4_def split: option.splits)

lemmas parse_gateway = ipToUint32_ParseIP [OF parse_sample(4)]

theorem handleCreate_succeeds_witness:
  "\<exists>b t. run_state (handleCreate sunny sample_cfg (Decoded 60)) server0 = ((201, b), t)"
proof -
  obtain code b t where run: "run_state (handleCreate sunny sample_cfg (Decoded 60)) server0 = ((code, b), t)"
    by (metis prod.exhaust)
  have "code = 201"
    by (rule handleCreate_succeeds [OF sunny_well _ _ _ _ _ _ _ _ _ run,
        where n = 60 and lo = "0xAC10000A" and hi = "0xAC10000B"])
      (simp_all add: server0_def empty_db_ok timeout_of_def sample_cfg_def ip_range_sample parse_gateway
        del: ip_range.simps, simp_all add: Slots_sample port_slots_sample, simp_all add: empty_db_def find_sandbox_def)
  with run show ?thesis by blast
qed

subsection \<open>Fanning out into one clone succeeds\<close>

lemma StartClone_well:
  assumes "all_well E"
  shows "gives (StartClone E opts c) (\<lambda>r. \<exists>m rt. r = Inr (m, rt) \<and> raw_running m)"
proof (intro gives_hostI vm_host_only)
  fix s :: server
  have four: "wp (each_until_error (\<lambda>(meth, path, body). fcAPI E sock meth path body) (clone_requests c)) (\<lambda>r t. r = Inr ()) t"
    for sock and t :: server
    by (simp add: clone_requests_def steps_well [OF assms] wp)
  show "wp (StartClone E opts c) (\<lambda>r t. \<exists>m rt. r = Inr (m, rt) \<and> raw_running m) s"
    unfolding StartClone_def wp
    by (rule gives_wp [OF applyDefaults_well [OF assms]])
      (auto simp: assms raw_running_def intro!: gives_wp [OF waits_well(1) [OF assms]] wp_conseq [OF four])
qed

lemma finishClone_well:
  assumes "all_well E" "raw_running m" "find_sandbox (sb_id sb) (reg_db s) \<noteq> None"
    and Q: "\<And>t. Q (Inr ()) t"
  shows "wp (finishClone E cfg sb m rt) Q s"
proof -
  have finish: "wp (reg_FinishStart E (sb_id sb) pid rt) (case_sum F (\<lambda>_ s. wp (waitForAgent E ip n) Q
      (s\<lparr>machines := (machines s)(sb_id sb \<mapsto> m)\<rparr>))) t"
    if "reg_db t = reg_db s" for t pid ip n F
    using that assms(1-3) unfolding reg_FinishStart_def wp
    by (auto simp: FinishStart_no_faults Q intro!: gives_wp [OF waits_well(2)])
  show ?thesis
    unfolding finishClone_def wp
    by (rule gives_wp [OF lifecycle_well(2) [OF assms(1) disjI2 [OF assms(2)]]], clarsimp,
        rule gives_wp [OF gives_provisioner(5) [OF assms(1)]], simp,
        rule gives_wp [OF gives_provisioner(7) [OF assms(1)]], simp add: finish)
qed

lemma handleFanout_one_succeeds:
  assumes "all_well E" "registry_ok (reg_db s)" "0 \<le> n"
    and "ip_range (RegPools cfg) = Some (lo, hi)" "lo \<le> hi" "hi \<noteq> - 1"
    and "int (length (sandboxes (reg_db s))) < Slots (RegPools cfg)"
    and "length (sandboxes (reg_db s)) + length (sandbox_ports (reg_db s)) < length (port_slots (RegPools cfg))"
    and fresh: "\<And>h. find_sandbox (r_out (answer E h NewUUID)) (reg_db s) = None"
    and "GetSnapshot no_faults snapID (reg_db s) = Inr snap"
  shows "wp (handleFanout E cfg snapID (Decoded (1, n))) (\<lambda>r t. fst r = 201) s"
proof -
  let ?Q = "\<lambda>(r :: response) (t :: server). fst r = 201"
  have clone: "wp (bringUpClone E cfg snap ex) (\<lambda>c t. \<exists>sb m rt. c = Inr (sb, m, rt) \<and> raw_running m \<and>
      find_sandbox (sb_id sb) (reg_db t) \<noteq> None) u"
    if u: "reg_db u = reg_db s" for u ex
  proof -
    define sid where "sid = r_out (answer E (calls u) NewUUID)"
    define now where "now = r_num (answer E (calls u @ [NewUUID]) Now)"
    have new: "find_sandbox sid (reg_db s) = None" by (simp add: sid_def fresh)
    obtain tap ip port where
      c: "Create (RegPools cfg) no_faults now sid (RootfsPathFor (Prov cfg) sid) ex (reg_db s) =
        (Inr (new_sandbox sid (RootfsPathFor (Prov cfg) sid) tap ip port now ex),
         (reg_db s)\<lparr>sandboxes := sandboxes (reg_db s) @ [new_row sid (RootfsPathFor (Prov cfg) sid) tap ip port now ex]\<rparr>)"
      using Create_room [OF assms(2,4-8) new] by blast
    let ?sb = "new_sandbox sid (RootfsPathFor (Prov cfg) sid) tap ip port now ex"
    have found: "find_sandbox (sb_id ?sb) ((reg_db s)\<lparr>sandboxes := sandboxes (reg_db s) @
        [new_row sid (RootfsPathFor (Prov cfg) sid) tap ip port now ex]\<rparr>) \<noteq> None"
      by (auto simp: find_sandbox_def find_append new_sandbox_def split: option.split)
    show ?thesis
      unfolding bringUpClone_def reg_Create_def Let_def wp
      unfolding sid_def [symmetric]
      using u c found
      by (auto simp: assms(1) now_def [symmetric]
          intro!: gives_wp [OF gives_provisioner(3) [OF assms(1)]] gives_wp [OF gives_provisioner(4) [OF assms(1)]]
            server_host_only(2) [THEN host_wp] gives_wp [OF StartClone_well [OF assms(1)]])
  qed
  have two: "bring_up_clones E cfg snap ex 1 = do { c \<leftarrow> bringUpClone E cfg snap ex; return [c] }" for ex
    by (simp add: numeral_eq_Suc)
  show ?thesis
    unfolding handleFanout_def reg_GetSnapshot_def stage_baked_def fanout_body_def wp
    using assms(3,10)
    by (auto simp: assms(1) two wp intro!: server_host_only(5) [THEN host_wp] wp_conseq [OF clone]
        finishClone_well [OF assms(1)])
qed

theorem handleFanout_response_lacks_process_witness:
  "\<exists>live t. run_state (handleFanout sunny sample_cfg ''s'' (Decoded (1, 60))) server_free = ((201, BSandboxes live), t) \<and>
     live \<noteq> [] \<and> (\<forall>sb \<in> set live. sb_pid sb = 0 \<and> sb_vm_id sb = [] \<and> sb_socket_path sb = [])"
proof -
  obtain code b t where run: "run_state (handleFanout sunny sample_cfg ''s'' (Decoded (1, 60))) server_free = ((code, b), t)"
    by (metis prod.exhaust)
  have none: "sandboxes (reg_db server_free) = []" "sandbox_ports (reg_db server_free) = []"
    by (simp_all add: server_free_def empty_db_def)
  have "code = 201"
    using wp_run [OF run handleFanout_one_succeeds
        [where cfg = sample_cfg and n = 60 and lo = "0xAC10000A" and hi = "0xAC10000B", OF sunny_well]] free_snap
    by (simp add: none find_sandbox_def sample_cfg_def ip_range_sample Slots_sample port_slots_sample del: ip_range.simps)
  with handleFanout_response_lacks_process [OF free_snap(1) sunny_cleanup free_snap(2,3)] run show ?thesis
    by blast
qed

end
