(* ===== verification/Tasks.thy ===== *)
theory Tasks
  imports Host
begin

text \<open>
  Handlers that run at the same time. A handler is a \<open>task\<close>: its result, or one more atomic
  step, which gives the rest of the task. Run alone, a task is a program of the state monad
  (\<open>run_task\<close>). Several of them form a pool of goroutines, of which at most a given number
  are under way (a semaphore); a schedule says whose turn it is. The claims about pools are
  over every schedule. They are proved by assigning a ghost value to each task: what
  the task has made its own. \<open>safe\<close> says that a task keeps an invariant of the state and all ghosts
  by changing its own ghost only.
\<close>

subsection \<open>Tasks\<close>

datatype ('s, 'a) task = Done 'a | Step "('s, ('s, 'a) task) state"

definition flatten :: "('s, ('s, 'a) state) state \<Rightarrow> ('s, 'a) state" where
  "flatten m = State_Monad.bind m (\<lambda>x. x)"

primrec run_task :: "('s, 'a) task \<Rightarrow> ('s, 'a) state" where
  "run_task (Done x) = return x"
| "run_task (Step m) = flatten (map_state run_task m)"

primrec t_bind :: "('s, 'a) task \<Rightarrow> ('a \<Rightarrow> ('s, 'b) task) \<Rightarrow> ('s, 'b) task" where
  "t_bind (Done x) = (\<lambda>k. k x)"
| "t_bind (Step m) = (\<lambda>k. Step (map_state (\<lambda>f. f k) (map_state t_bind m)))"

text \<open>One atomic step, and what follows it.\<close>

definition act :: "('s, 'a) state \<Rightarrow> ('a \<Rightarrow> ('s, 'b) task) \<Rightarrow> ('s, 'b) task" where
  "act m k = Step (map_state k m)"

lemma run_map_state [simp]: "run_state (map_state f m) s = (f (fst (run_state m s)), snd (run_state m s))"
  by (cases m) (simp add: split_beta map_prod_def)

lemma flatten_map: "flatten (map_state f m) = State_Monad.bind m f"
  by (rule state.expand) (simp add: fun_eq_iff flatten_def split_beta)

lemma run_task_Step [simp]: "run_task (Step m) = State_Monad.bind m run_task"
  by (simp add: flatten_map)

declare run_task.simps(2) [simp del]

lemma map_state_map: "map_state f (map_state g m) = map_state (\<lambda>x. f (g x)) m"
  by (simp add: state.map_comp comp_def)

lemma bind_map_state: "State_Monad.bind (map_state f m) k = State_Monad.bind m (\<lambda>x. k (f x))"
  by (rule state.expand) (simp add: fun_eq_iff split_beta)

lemma run_act [simp]: "run_task (act m k) = State_Monad.bind m (\<lambda>x. run_task (k x))"
  by (simp add: act_def bind_map_state)

lemma t_bind_Step [simp]: "t_bind (Step m) k = Step (map_state (\<lambda>t. t_bind t k) m)"
  by (simp add: map_state_map)

declare t_bind.simps(2) [simp del]

lemma t_bind_act [simp]: "t_bind (act m h) k = act m (\<lambda>x. t_bind (h x) k)"
  by (simp add: act_def map_state_map)

text \<open>Induction along the steps a task can take.\<close>

lemma task_induct [case_names Done Step]:
  assumes "\<And>x. P (Done x)" and "\<And>m. (\<And>s. P (fst (run_state m s))) \<Longrightarrow> P (Step m)"
  shows "P t"
proof (induction t)
  case (Step m)
  have "fst (run_state m s) \<in> set_state m" for s
    by (simp add: set_state_iff) (metis prod.collapse)
  then show ?case using Step by (intro assms(2)) blast
qed (rule assms(1))

lemma run_t_bind [simp]: "run_task (t_bind t k) = State_Monad.bind (run_task t) (\<lambda>x. run_task (k x))"
proof (induction t rule: task_induct)
  case (Done x)
  show ?case by (rule state_ext) simp
next
  case (Step m)
  then show ?case by (intro state_ext) (simp add: split_beta)
qed

subsection \<open>Pools of goroutines\<close>

text \<open>
  A goroutine waits for the semaphore, runs, or has ended. A pool keeps its goroutines and
  the results in the order in which they ended.
\<close>

datatype ('s, 'a) goroutine = Queued "('s, 'a) task" | Active "('s, 'a) task" | Ended 'a

definition is_active :: "('s, 'a) goroutine \<Rightarrow> bool" where
  "is_active g \<longleftrightarrow> (case g of Active _ \<Rightarrow> True | _ \<Rightarrow> False)"

definition is_ended :: "('s, 'a) goroutine \<Rightarrow> bool" where
  "is_ended g \<longleftrightarrow> (case g of Ended _ \<Rightarrow> True | _ \<Rightarrow> False)"

record ('s, 'a) pool =
  gos :: "('s, 'a) goroutine list"
  ended :: "'a list"

definition spawn :: "('s, 'a) task list \<Rightarrow> ('s, 'a) pool" where
  "spawn ts = \<lparr>gos = map Queued ts, ended = []\<rparr>"

text \<open>One turn of goroutine \<open>i\<close>; a turn of one that waits, has ended or does not exist changes nothing.\<close>

definition turn :: "nat \<Rightarrow> nat \<Rightarrow> ('s, 'a) pool \<times> 's \<Rightarrow> ('s, 'a) pool \<times> 's" where
  "turn cap i = (\<lambda>(p, s).
     if i < length (gos p) then
       (case gos p ! i of
          Queued t \<Rightarrow> if length (filter is_active (gos p)) < cap then (p\<lparr>gos := (gos p)[i := Active t]\<rparr>, s) else (p, s)
        | Active (Done x) \<Rightarrow> (p\<lparr>gos := (gos p)[i := Ended x], ended := ended p @ [x]\<rparr>, s)
        | Active (Step m) \<Rightarrow> (case run_state m s of (t, s') \<Rightarrow> (p\<lparr>gos := (gos p)[i := Active t]\<rparr>, s'))
        | Ended _ \<Rightarrow> (p, s))
     else (p, s))"

definition run_schedule :: "nat \<Rightarrow> nat list \<Rightarrow> ('s, 'a) pool \<times> 's \<Rightarrow> ('s, 'a) pool \<times> 's" where
  "run_schedule cap sched ps = fold (turn cap) sched ps"

definition all_ended :: "('s, 'a) pool \<Rightarrow> bool" where
  "all_ended p \<longleftrightarrow> list_all is_ended (gos p)"

definition result_of :: "('s, 'a) goroutine \<Rightarrow> 'a option" where
  "result_of g = (case g of Ended x \<Rightarrow> Some x | _ \<Rightarrow> None)"

definition results :: "('s, 'a) pool \<Rightarrow> 'a list" where
  "results p = List.map_filter result_of (gos p)"

lemma turn_cases:
  obtains "turn cap i (p, s) = (p, s)"
  | t where "i < length (gos p)" "gos p ! i = Queued t" "length (filter is_active (gos p)) < cap"
      "turn cap i (p, s) = (p\<lparr>gos := (gos p)[i := Active t]\<rparr>, s)"
  | x where "i < length (gos p)" "gos p ! i = Active (Done x)"
      "turn cap i (p, s) = (p\<lparr>gos := (gos p)[i := Ended x], ended := ended p @ [x]\<rparr>, s)"
  | m where "i < length (gos p)" "gos p ! i = Active (Step m)"
      "turn cap i (p, s) = (p\<lparr>gos := (gos p)[i := Active (fst (run_state m s))]\<rparr>, snd (run_state m s))"
  unfolding turn_def by (fastforce split: goroutine.splits task.splits prod.splits if_splits)

lemma run_schedule_simps [simp]:
  "run_schedule cap [] ps = ps"
  "run_schedule cap (i # is) ps = run_schedule cap is (turn cap i ps)"
  "run_schedule cap (is @ js) ps = run_schedule cap js (run_schedule cap is ps)"
  by (simp_all add: run_schedule_def)

text \<open>What every turn keeps is kept by every schedule.\<close>

lemma schedule_induct:
  assumes "\<And>i ps. P ps \<Longrightarrow> P (turn cap i ps)" and "P ps"
  shows "P (run_schedule cap sched ps)"
  using assms(2) by (induction sched arbitrary: ps) (simp_all add: assms(1))

lemma length_gos [simp]: "length (gos (fst (turn cap i ps))) = length (gos (fst ps))"
  by (cases ps) (rule turn_cases [of cap i "fst ps" "snd ps"]; simp)

lemma length_gos_schedule [simp]: "length (gos (fst (run_schedule cap sched ps))) = length (gos (fst ps))"
  by (rule schedule_induct [where P = "\<lambda>q. length (gos (fst q)) = length (gos (fst ps))"]) simp_all

text \<open>The semaphore bounds what is under way.\<close>

definition under_way :: "('s, 'a) pool \<Rightarrow> nat" where
  "under_way p = length (filter is_active (gos p))"

lemma count_filter_update:
  "i < length xs \<Longrightarrow> length (filter P (xs[i := y])) + (if P (xs ! i) then 1 else 0) = length (filter P xs) + (if P y then 1 else 0)"
proof (induction xs arbitrary: i)
  case (Cons x xs)
  then show ?case using Cons.IH [of "i - 1"] by (cases i) auto
qed simp

lemma turn_under_way: "under_way p \<le> cap \<Longrightarrow> under_way (fst (turn cap i (p, s))) \<le> cap"
proof (rule turn_cases [of cap i p s])
  show "under_way p \<le> cap \<Longrightarrow> under_way (fst (turn cap i (p, s))) \<le> cap"
    if "i < length (gos p)" "gos p ! i = Queued t" "length (filter is_active (gos p)) < cap"
      "turn cap i (p, s) = (p\<lparr>gos := (gos p)[i := Active t]\<rparr>, s)" for t
    using that count_filter_update [of i "gos p" is_active "Active t"] by (simp add: under_way_def is_active_def)
  show "under_way p \<le> cap \<Longrightarrow> under_way (fst (turn cap i (p, s))) \<le> cap"
    if "i < length (gos p)" "gos p ! i = Active (Done x)"
      "turn cap i (p, s) = (p\<lparr>gos := (gos p)[i := Ended x], ended := ended p @ [x]\<rparr>, s)" for x
    using that count_filter_update [of i "gos p" is_active "Ended x"] by (simp add: under_way_def is_active_def)
  show "under_way p \<le> cap \<Longrightarrow> under_way (fst (turn cap i (p, s))) \<le> cap"
    if "i < length (gos p)" "gos p ! i = Active (Step m)"
      "turn cap i (p, s) = (p\<lparr>gos := (gos p)[i := Active (fst (run_state m s))]\<rparr>, snd (run_state m s))" for m
    using that count_filter_update [of i "gos p" is_active "Active (fst (run_state m s))"]
    by (simp add: under_way_def is_active_def)
qed simp

lemma schedule_under_way: "under_way (fst (run_schedule cap sched (spawn ts, s))) \<le> cap"
proof (rule schedule_induct [where P = "\<lambda>ps. under_way (fst ps) \<le> cap"])
  show "under_way (fst ps) \<le> cap \<Longrightarrow> under_way (fst (turn cap i ps)) \<le> cap" for i ps
    using turn_under_way [of "fst ps" cap i "snd ps"] by simp
  show "under_way (fst (spawn ts, s)) \<le> cap"
    by (simp add: under_way_def spawn_def is_active_def)
qed

text \<open>The results in the order of ending are the results of the goroutines in another order.\<close>

lemma map_filter_update:
  "i < length xs \<Longrightarrow> f (xs ! i) = None \<Longrightarrow>
     mset (List.map_filter f (xs[i := y])) = mset (List.map_filter f xs) + (case f y of None \<Rightarrow> {#} | Some z \<Rightarrow> {#z#})"
  by (induction xs arbitrary: i) (auto split: nat.split option.split simp: List.map_filter_def nth_Cons')

definition log_complete :: "('s, 'a) pool \<Rightarrow> bool" where
  "log_complete p \<longleftrightarrow> mset (ended p) = mset (results p)"

lemma turn_log: "log_complete p \<Longrightarrow> log_complete (fst (turn cap i (p, s)))"
  by (rule turn_cases [of cap i p s])
    (simp_all add: log_complete_def results_def map_filter_update result_of_def)

lemma schedule_log: "log_complete (fst (run_schedule cap sched (spawn ts, s)))"
proof (rule schedule_induct [where P = "\<lambda>ps. log_complete (fst ps)"])
  show "log_complete (fst ps) \<Longrightarrow> log_complete (fst (turn cap i ps))" for i ps
    using turn_log [of "fst ps" cap i "snd ps"] by simp
  have "List.map_filter result_of (map Queued ts) = []"
    by (induction ts) (simp_all add: List.map_filter_def result_of_def)
  then show "log_complete (fst (spawn ts, s))"
    by (simp add: log_complete_def results_def spawn_def)
qed

text \<open>
  A goroutine that is under way can be run to its end, so with room for one goroutine
  every pool can be run to its end: no schedule leads into a deadlock.
\<close>

lemma run_to_end:
  "i < length (gos p) \<Longrightarrow> gos p ! i = Active t \<Longrightarrow> run_state (run_task t) s = (x, s') \<Longrightarrow>
     \<exists>n. run_schedule cap (replicate n i) (p, s) = (p\<lparr>gos := (gos p)[i := Ended x], ended := ended p @ [x]\<rparr>, s')"
proof (induction t arbitrary: p s rule: task_induct)
  case (Done y)
  then have "run_schedule cap (replicate 1 i) (p, s) = (p\<lparr>gos := (gos p)[i := Ended x], ended := ended p @ [x]\<rparr>, s')"
    by (simp add: turn_def)
  then show ?case by blast
next
  case (Step m)
  let ?p = "p\<lparr>gos := (gos p)[i := Active (fst (run_state m s))]\<rparr>"
  have first: "turn cap i (p, s) = (?p, snd (run_state m s))"
    using Step.prems by (simp add: turn_def split_beta)
  have "i < length (gos ?p)" "gos ?p ! i = Active (fst (run_state m s))"
    "run_state (run_task (fst (run_state m s))) (snd (run_state m s)) = (x, s')"
    using Step.prems by (simp_all add: split_beta)
  from Step.IH [OF this] obtain n where
    "run_schedule cap (replicate n i) (?p, snd (run_state m s)) = (?p\<lparr>gos := (gos ?p)[i := Ended x], ended := ended ?p @ [x]\<rparr>, s')"
    by blast
  with first have "run_schedule cap (replicate (Suc n) i) (p, s) = (p\<lparr>gos := (gos p)[i := Ended x], ended := ended p @ [x]\<rparr>, s')"
    by simp
  then show ?case by blast
qed

text \<open>A queued goroutine, from start to end, when the semaphore lets it start.\<close>

lemma run_queued:
  assumes "i < length (gos p)" "gos p ! i = Queued t" "under_way p < cap" "run_state (run_task t) s = (x, s')"
  shows "\<exists>n. run_schedule cap (replicate n i) (p, s) = (p\<lparr>gos := (gos p)[i := Ended x], ended := ended p @ [x]\<rparr>, s')"
proof -
  have start: "turn cap i (p, s) = (p\<lparr>gos := (gos p)[i := Active t]\<rparr>, s)"
    using assms(1-3) by (simp add: turn_def under_way_def)
  let ?p = "p\<lparr>gos := (gos p)[i := Active t]\<rparr>"
  have "i < length (gos ?p)" "gos ?p ! i = Active t" using assms(1) by simp_all
  from run_to_end [OF this assms(4), of cap] obtain n where
    "run_schedule cap (replicate n i) (?p, s) = (?p\<lparr>gos := (gos ?p)[i := Ended x], ended := ended ?p @ [x]\<rparr>, s')"
    by blast
  then have "run_schedule cap (replicate (Suc n) i) (p, s) = (p\<lparr>gos := (gos p)[i := Ended x], ended := ended p @ [x]\<rparr>, s')"
    using start by simp
  then show ?thesis by blast
qed

lemma end_one:
  assumes "i < length (gos p)" "\<not> is_ended (gos p ! i)" "0 < cap"
  shows "\<exists>sched q s'. run_schedule cap sched (p, s) = (q, s') \<and>
    length (filter (\<lambda>g. \<not> is_ended g) (gos q)) < length (filter (\<lambda>g. \<not> is_ended g) (gos p))"
proof -
  have shorter: "length (filter (\<lambda>g. \<not> is_ended g) ((gos p)[j := Ended x])) < length (filter (\<lambda>g. \<not> is_ended g) (gos p))"
    if "j < length (gos p)" "\<not> is_ended (gos p ! j)" for j x
    using count_filter_update [OF that(1), of "\<lambda>g. \<not> is_ended g" "Ended x"] that(2) by (simp add: is_ended_def)
  show ?thesis
  proof (cases "\<exists>j < length (gos p). \<exists>t. gos p ! j = Active t")
    case True
    then obtain j t where j: "j < length (gos p)" "gos p ! j = Active t" by blast
    obtain x s' where "run_state (run_task t) s = (x, s')" by fastforce
    from run_to_end [OF j this] shorter [OF j(1)] j(2) show ?thesis by (fastforce simp: is_ended_def)
  next
    case False
    then obtain t where t: "gos p ! i = Queued t"
      using assms(1,2) by (cases "gos p ! i") (auto simp: is_ended_def)
    have "under_way p = 0"
      using False by (auto simp: under_way_def filter_empty_conv is_active_def in_set_conv_nth split: goroutine.split)
    moreover obtain x s' where "run_state (run_task t) s = (x, s')" by fastforce
    ultimately show ?thesis
      using run_queued [OF assms(1) t, of cap] assms(3) shorter [OF assms(1,2)] by fastforce
  qed
qed

lemma schedule_exists:
  assumes "0 < cap"
  shows "\<exists>sched. all_ended (fst (run_schedule cap sched (p, s)))"
proof (induction "length (filter (\<lambda>g. \<not> is_ended g) (gos p))" arbitrary: p s rule: less_induct)
  case less
  show ?case
  proof (cases "all_ended p")
    case True
    then have "all_ended (fst (run_schedule cap [] (p, s)))" by simp
    then show ?thesis by blast
  next
    case False
    then obtain i where "i < length (gos p)" "\<not> is_ended (gos p ! i)"
      by (auto simp: all_ended_def list_all_length)
    from end_one [OF this assms, of s] obtain sched q s' where
      q: "run_schedule cap sched (p, s) = (q, s')"
      "length (filter (\<lambda>g. \<not> is_ended g) (gos q)) < length (filter (\<lambda>g. \<not> is_ended g) (gos p))"
      by blast
    from less [OF q(2), of s'] obtain rest where "all_ended (fst (run_schedule cap rest (q, s')))" by blast
    then have "all_ended (fst (run_schedule cap (sched @ rest) (p, s)))" using q(1) by simp
    then show ?thesis by blast
  qed
qed

text \<open>One goroutine after the other is one of the schedules.\<close>

fun in_turn :: "('s, 'a) task list \<Rightarrow> ('s, 'a list) state" where
  "in_turn [] = return []"
| "in_turn (t # ts) = State_Monad.bind (run_task t) (\<lambda>x. State_Monad.bind (in_turn ts) (\<lambda>xs. return (x # xs)))"

lemma in_turn_schedule:
  assumes "0 < cap"
  shows "run_state (in_turn ts) s = (xs, s') \<Longrightarrow> gos p = map Ended ys @ map Queued ts \<Longrightarrow>
    \<exists>sched. run_schedule cap sched (p, s) = (p\<lparr>gos := map Ended (ys @ xs), ended := ended p @ xs\<rparr>, s')"
proof (induction ts arbitrary: s xs ys p)
  case Nil
  then have "run_schedule cap [] (p, s) = (p\<lparr>gos := map Ended (ys @ xs), ended := ended p @ xs\<rparr>, s')"
    by (cases p) simp
  then show ?case by blast
next
  case (Cons t ts)
  obtain x u where x: "run_state (run_task t) s = (x, u)" by fastforce
  then obtain zs where zs: "run_state (in_turn ts) u = (zs, s')" "xs = x # zs"
    using Cons.prems(1) by (auto split: prod.splits)
  have idle: "under_way p < cap"
    using assms by (simp add: under_way_def Cons.prems(2) is_active_def filter_empty_conv)
  have i: "length ys < length (gos p)" "gos p ! length ys = Queued t"
    using Cons.prems(2) by (simp_all add: nth_append)
  from run_queued [OF i idle x] obtain sched where
    first: "run_schedule cap sched (p, s) = (p\<lparr>gos := (gos p)[length ys := Ended x], ended := ended p @ [x]\<rparr>, u)" by blast
  have "(gos p)[length ys := Ended x] = map Ended (ys @ [x]) @ map Queued ts"
    using Cons.prems(2) by (simp add: list_update_append)
  then have "gos (p\<lparr>gos := (gos p)[length ys := Ended x], ended := ended p @ [x]\<rparr>) = map Ended (ys @ [x]) @ map Queued ts"
    by simp
  from Cons.IH [OF zs(1) this] obtain rest where
    "run_schedule cap rest (p\<lparr>gos := (gos p)[length ys := Ended x], ended := ended p @ [x]\<rparr>, u) =
       (p\<lparr>gos := map Ended (ys @ xs), ended := ended p @ xs\<rparr>, s')"
    using zs(2) by auto
  then have "run_schedule cap (sched @ rest) (p, s) = (p\<lparr>gos := map Ended (ys @ xs), ended := ended p @ xs\<rparr>, s')"
    using first by simp
  then show ?case by blast
qed

lemma all_in_turn:
  assumes "0 < cap" "run_state (in_turn ts) s = (xs, s')"
  shows "\<exists>sched p. run_schedule cap sched (spawn ts, s) = (p, s') \<and> all_ended p \<and> results p = xs \<and> ended p = xs"
proof -
  have "List.map_filter result_of (map Ended xs) = xs"
    by (induction xs) (simp_all add: List.map_filter_def result_of_def)
  moreover have start: "gos (spawn ts) = map Ended [] @ map Queued ts" by (simp add: spawn_def)
  ultimately show ?thesis
    using in_turn_schedule [OF assms start] by (fastforce simp: spawn_def all_ended_def results_def is_ended_def list_all_iff)
qed

subsection \<open>Tasks that keep an invariant\<close>

text \<open>
  \<open>I gs s\<close> relates the ghosts of all tasks and the state. A safe task with ghost \<open>g\<close> takes
  every step, from wherever the others have brought the state, to one where \<open>I\<close> holds
  again with another ghost of its own, and ends in \<open>Q\<close> of result and ghost.
\<close>

inductive safe :: "('g list \<Rightarrow> 's \<Rightarrow> bool) \<Rightarrow> ('a \<Rightarrow> 'g \<Rightarrow> bool) \<Rightarrow> ('s, 'a) task \<Rightarrow> 'g \<Rightarrow> bool"
  for I :: "'g list \<Rightarrow> 's \<Rightarrow> bool" and Q :: "'a \<Rightarrow> 'g \<Rightarrow> bool" where
  safe_Done: "Q x g \<Longrightarrow> safe I Q (Done x) g"
| safe_Step: "(\<And>gs i s. I gs s \<Longrightarrow> i < length gs \<Longrightarrow> gs ! i = g \<Longrightarrow>
      \<exists>g'. I (gs[i := g']) (snd (run_state m s)) \<and> safe I Q (fst (run_state m s)) g') \<Longrightarrow>
    safe I Q (Step m) g"

lemma safe_act:
  assumes "\<And>gs i s r s'. I gs s \<Longrightarrow> i < length gs \<Longrightarrow> gs ! i = g \<Longrightarrow> run_state m s = (r, s') \<Longrightarrow>
    \<exists>g'. I (gs[i := g']) s' \<and> safe I Q (k r) g'"
  shows "safe I Q (act m k) g"
  unfolding act_def using assms [OF _ _ _ prod.collapse [symmetric]] by (intro safe_Step) simp

lemma safe_bind:
  assumes "safe I R t g" and "\<And>x g'. R x g' \<Longrightarrow> safe I Q (k x) g'"
  shows "safe I Q (t_bind t k) g"
  using assms(1)
proof (induction rule: safe.induct)
  case (safe_Done x g)
  then show ?case by (simp add: assms(2))
next
  case (safe_Step g m)
  show ?case unfolding t_bind_Step
  proof (rule safe.safe_Step)
    fix gs i s assume "I gs s" "i < length gs" "gs ! i = g"
    from safe_Step.IH [OF this] show "\<exists>g'. I (gs[i := g']) (snd (run_state (map_state (\<lambda>t. t_bind t k) m) s)) \<and>
        safe I Q (fst (run_state (map_state (\<lambda>t. t_bind t k) m) s)) g'"
      by auto
  qed
qed

lemma safe_mono: "safe I Q t g \<Longrightarrow> (\<And>x g. Q x g \<Longrightarrow> R x g) \<Longrightarrow> safe I R t g"
proof (induction rule: safe.induct)
  case (safe_Done x g)
  then show ?case by (simp add: safe.safe_Done)
next
  case (safe_Step g m)
  show ?case
  proof (rule safe.safe_Step)
    fix gs i s assume "I gs s" "i < length gs" "gs ! i = g"
    from safe_Step.IH [OF this] safe_Step.prems show "\<exists>g'. I (gs[i := g']) (snd (run_state m s)) \<and> safe I R (fst (run_state m s)) g'"
      by blast
  qed
qed

text \<open>A pool of safe goroutines, with the ghosts that make them so.\<close>

definition safe_goroutine :: "('g list \<Rightarrow> 's \<Rightarrow> bool) \<Rightarrow> ('a \<Rightarrow> 'g \<Rightarrow> bool) \<Rightarrow> ('s, 'a) goroutine \<Rightarrow> 'g \<Rightarrow> bool" where
  "safe_goroutine I Q go g = (case go of Queued t \<Rightarrow> safe I Q t g | Active t \<Rightarrow> safe I Q t g | Ended x \<Rightarrow> Q x g)"

definition safe_pool :: "('g list \<Rightarrow> 's \<Rightarrow> bool) \<Rightarrow> (nat \<Rightarrow> 'a \<Rightarrow> 'g \<Rightarrow> bool) \<Rightarrow> 'g list \<Rightarrow> ('s, 'a) pool \<times> 's \<Rightarrow> bool" where
  "safe_pool I Q gs ps \<longleftrightarrow> length gs = length (gos (fst ps)) \<and> I gs (snd ps) \<and>
     (\<forall>i < length gs. safe_goroutine I (Q i) (gos (fst ps) ! i) (gs ! i))"

lemma safe_pool_update:
  assumes "safe_pool I Q gs (p, s)" "i < length gs" "gos p' = (gos p)[i := go]" "I (gs[i := g]) s'" "safe_goroutine I (Q i) go g"
  shows "safe_pool I Q (gs[i := g]) (p', s')"
  using assms unfolding safe_pool_def by (auto simp: nth_list_update)

lemma safe_turn:
  assumes "safe_pool I Q gs (p, s)"
  shows "\<exists>gs'. safe_pool I Q gs' (turn cap i (p, s))"
proof (rule turn_cases [of cap i p s])
  assume "turn cap i (p, s) = (p, s)"
  then show ?thesis using assms by auto
next
  fix t assume t: "i < length (gos p)" "gos p ! i = Queued t"
    "turn cap i (p, s) = (p\<lparr>gos := (gos p)[i := Active t]\<rparr>, s)"
  have g: "i < length gs" "safe_goroutine I (Q i) (Queued t) (gs ! i)" "I gs s"
    using assms t by (auto simp: safe_pool_def)
  then have "safe_pool I Q (gs[i := gs ! i]) (p\<lparr>gos := (gos p)[i := Active t]\<rparr>, s)"
    by (intro safe_pool_update [OF assms]) (auto simp: safe_goroutine_def)
  then show ?thesis unfolding t(3) by blast
next
  fix x assume x: "i < length (gos p)" "gos p ! i = Active (Done x)"
    "turn cap i (p, s) = (p\<lparr>gos := (gos p)[i := Ended x], ended := ended p @ [x]\<rparr>, s)"
  have g: "i < length gs" "safe_goroutine I (Q i) (Active (Done x)) (gs ! i)" "I gs s"
    using assms x by (auto simp: safe_pool_def)
  then have "safe_pool I Q (gs[i := gs ! i]) (p\<lparr>gos := (gos p)[i := Ended x], ended := ended p @ [x]\<rparr>, s)"
    by (intro safe_pool_update [OF assms]) (auto simp: safe_goroutine_def elim: safe.cases)
  then show ?thesis unfolding x(3) by blast
next
  fix m assume m: "i < length (gos p)" "gos p ! i = Active (Step m)"
    "turn cap i (p, s) = (p\<lparr>gos := (gos p)[i := Active (fst (run_state m s))]\<rparr>, snd (run_state m s))"
  have g: "i < length gs" "safe I (Q i) (Step m) (gs ! i)" "I gs s"
    using assms m by (auto simp: safe_pool_def safe_goroutine_def dest: spec [of _ i])
  from g(2) obtain g' where "I (gs[i := g']) (snd (run_state m s))" "safe I (Q i) (fst (run_state m s)) g'"
    by (cases rule: safe.cases) (use g(1,3) in blast)+
  then have "safe_pool I Q (gs[i := g']) (p\<lparr>gos := (gos p)[i := Active (fst (run_state m s))]\<rparr>, snd (run_state m s))"
    by (intro safe_pool_update [OF assms g(1)]) (auto simp: safe_goroutine_def)
  then show ?thesis unfolding m(3) by blast
qed

lemma safe_schedule:
  "\<exists>gs. safe_pool I Q gs ps \<Longrightarrow> \<exists>gs. safe_pool I Q gs (run_schedule cap sched ps)"
proof (rule schedule_induct [where P = "\<lambda>ps. \<exists>gs. safe_pool I Q gs ps"])
  show "\<exists>gs. safe_pool I Q gs ps \<Longrightarrow> \<exists>gs. safe_pool I Q gs (turn cap i ps)" for i ps
    using safe_turn [of I Q _ "fst ps" "snd ps"] by auto
qed

text \<open>When all have ended: the invariant, and what each result is about.\<close>

lemma results_all_ended:
  assumes "all_ended p"
  shows "length (results p) = length (gos p)" and "i < length (gos p) \<Longrightarrow> gos p ! i = Ended (results p ! i)"
proof -
  have "length (List.map_filter result_of gs) = length gs \<and>
      (\<forall>i < length gs. gs ! i = Ended (List.map_filter result_of gs ! i))" if "list_all is_ended gs" for gs :: "('a, 'b) goroutine list"
    using that
  proof (induction gs)
    case Nil
    show ?case by (simp add: List.map_filter_def)
  next
    case (Cons g gs)
    then obtain x where "g = Ended x" by (cases g) (auto simp: is_ended_def)
    then show ?case using Cons by (auto simp: List.map_filter_def result_of_def nth_Cons' split: nat.split)
  qed
  from this [of "gos p"] assms show "length (results p) = length (gos p)"
    "i < length (gos p) \<Longrightarrow> gos p ! i = Ended (results p ! i)"
    by (auto simp: results_def all_ended_def)
qed

lemma safe_outcome:
  assumes "length gs = length ts" "I gs s" "\<And>i. i < length ts \<Longrightarrow> safe I (Q i) (ts ! i) (gs ! i)"
    and "run_schedule cap sched (spawn ts, s) = (p, t)" "all_ended p"
  shows "\<exists>gs'. length gs' = length ts \<and> length (results p) = length ts \<and> I gs' t \<and>
    (\<forall>i < length ts. Q i (results p ! i) (gs' ! i))"
proof -
  have "safe_pool I Q gs (spawn ts, s)"
    using assms(1-3) by (simp add: safe_pool_def spawn_def safe_goroutine_def)
  then obtain gs' where gs: "safe_pool I Q gs' (p, t)"
    using safe_schedule [of I Q "(spawn ts, s)" cap sched] assms(4) by auto
  have len: "length (gos p) = length ts"
    using length_gos_schedule [of cap sched "(spawn ts, s)"] unfolding assms(4) by (simp add: spawn_def)
  note res = results_all_ended [OF assms(5)]
  have "Q i (results p ! i) (gs' ! i)" if "i < length ts" for i
    using gs that len res(2) [of i] by (auto simp: safe_pool_def safe_goroutine_def dest: spec [of _ i])
  then show ?thesis using gs len res(1) by (auto simp: safe_pool_def)
qed

end
