(* ===== verification/Gateway.thy ===== *)
theory Gateway
  imports Registry
begin

text \<open>
  \<open>internal/gateway/gateway.go\<close> and the heartbeat of \<open>internal/cluster/cluster.go\<close>: the
  hosts a gateway knows, the routes it derives from their heartbeats, placement, the
  merged list, the target of the reverse proxy and the pruning of silent hosts. A map of
  the code is a map; where the code ranges over a map, the order in which Go visits it is
  the argument \<open>order\<close>, and the reading of the clock at each visit is a function of the
  host visited. What the hosts answer is an argument.
\<close>

subsection \<open>State\<close>

record heartbeat =
  hb_HostID :: string
  hb_Addr :: string
  hb_Token :: string
  hb_SlotsTotal :: int
  hb_SlotsUsed :: int
  hb_SandboxIDs :: "string list"

record gw_host =
  host_id :: string
  host_addr :: string
  host_token :: string
  slotsTotal :: int
  slotsUsed :: int
  lastSeen :: int

definition free :: "gw_host \<Rightarrow> int" where
  "free h = (if slotsTotal h \<le> slotsUsed h then 0 else wrap64 (slotsTotal h - slotsUsed h))"

record gateway =
  gw_token :: string
  gw_ttl :: int
  hosts :: "string \<Rightarrow> gw_host option"
  route :: "string \<Rightarrow> string option"

definition New :: "string \<Rightarrow> int \<Rightarrow> gateway" where
  "New token ttl = \<lparr>gw_token = token, gw_ttl = ttl, hosts = (\<lambda>_. None), route = (\<lambda>_. None)\<rparr>"

text \<open>\<open>time.Since(h.lastSeen) <= g.ttl\<close>, with the clock at \<open>now\<close>.\<close>

definition live :: "gateway \<Rightarrow> int \<Rightarrow> gw_host \<Rightarrow> bool" where
  "live g now h \<longleftrightarrow> now - lastSeen h \<le> gw_ttl g"

text \<open>The values a loop over the map of hosts visits.\<close>

definition visit :: "gateway \<Rightarrow> string list \<Rightarrow> gw_host list" where
  "visit g order = List.map_filter (hosts g) order"

text \<open>An order in which Go may visit the map: every key, once.\<close>

definition visits_all :: "gateway \<Rightarrow> string list \<Rightarrow> bool" where
  "visits_all g order \<longleftrightarrow> distinct order \<and> set order = dom (hosts g)"

subsection \<open>Registration\<close>

definition drop_routes :: "string \<Rightarrow> (string \<Rightarrow> string option) \<Rightarrow> string \<Rightarrow> string option" where
  "drop_routes hid r = (\<lambda>sid. if r sid = Some hid then None else r sid)"

definition register :: "int \<Rightarrow> heartbeat \<Rightarrow> gateway \<Rightarrow> gateway" where
  "register now hb g =
     (let h = (case hosts g (hb_HostID hb) of
                 None \<Rightarrow> \<lparr>host_id = hb_HostID hb, host_addr = '''', host_token = '''', slotsTotal = 0,
                          slotsUsed = 0, lastSeen = 0\<rparr>
               | Some h \<Rightarrow> h);
          h = h\<lparr>host_addr := hb_Addr hb, host_token := hb_Token hb, slotsTotal := hb_SlotsTotal hb,
                slotsUsed := hb_SlotsUsed hb, lastSeen := now\<rparr>;
          r = drop_routes (hb_HostID hb) (route g)
      in g\<lparr>hosts := (hosts g)(hb_HostID hb \<mapsto> h),
           route := fold (\<lambda>sid r. r(sid \<mapsto> hb_HostID hb)) (hb_SandboxIDs hb) r\<rparr>)"

definition handleRegister :: "int \<Rightarrow> heartbeat request_body \<Rightarrow> gateway \<Rightarrow> nat \<times> gateway" where
  "handleRegister now rb g =
     (case rb of
        Decoded hb \<Rightarrow>
          if hb_HostID hb = [] \<or> hb_Addr hb = [] then (400, g) else (204, register now hb g)
      | _ \<Rightarrow> (400, g))"

subsection \<open>Placement\<close>

fun pick_best :: "gateway \<Rightarrow> (string \<Rightarrow> int) \<Rightarrow> gw_host list \<Rightarrow> gw_host option \<Rightarrow> gw_host option" where
  "pick_best g clock [] best = best"
| "pick_best g clock (h # hs) best =
     (if \<not> live g (clock (host_id h)) h \<or> free h \<le> 0 then pick_best g clock hs best
      else case best of
        None \<Rightarrow> pick_best g clock hs (Some h)
      | Some b \<Rightarrow> pick_best g clock hs (Some (if free h > free b then h else b)))"

definition pickHost :: "(string \<Rightarrow> int) \<Rightarrow> string list \<Rightarrow> gateway \<Rightarrow> gw_host option" where
  "pickHost clock order g = pick_best g clock (visit g order) None"

text \<open>The second critical section of \<open>handleCreate\<close>.\<close>

definition charge :: "string \<Rightarrow> string \<Rightarrow> gateway \<Rightarrow> gateway" where
  "charge hid sid g = g\<lparr>route := (route g)(sid \<mapsto> hid),
     hosts := (case hosts g hid of
                 None \<Rightarrow> hosts g
               | Some hh \<Rightarrow> (hosts g)(hid \<mapsto> hh\<lparr>slotsUsed := wrap64 (slotsUsed hh + 1)\<rparr>))\<rparr>"

text \<open>
  \<open>Client.Create\<close>: a timeout is sent when it is positive. Any other request of the client
  that needs a reply is the argument \<open>create\<close> or \<open>list\<close> below.
\<close>

definition create_request :: "int \<Rightarrow> int request_body" where
  "create_request timeout_sec = (if timeout_sec > 0 then Decoded timeout_sec else NoBody)"

datatype gw_error = ErrDecodeBody | ErrNoCapacity | ErrCreateOnHost string | ErrNotFound string

text \<open>
  \<open>meanwhile\<close> is what other requests do to the gateway while the chosen host works: the
  lock is not held then.
\<close>

definition gw_handleCreate :: "(string \<Rightarrow> int) \<Rightarrow> string list \<Rightarrow> (gw_host \<Rightarrow> int request_body \<Rightarrow> sandbox option)
    \<Rightarrow> (gateway \<Rightarrow> gateway) \<Rightarrow> int request_body \<Rightarrow> gateway \<Rightarrow> (nat \<times> (gw_error, sandbox) result) \<times> gateway" where
  "gw_handleCreate clock order create meanwhile rb g =
     (case (case rb of Malformed \<Rightarrow> None | NoBody \<Rightarrow> Some 0 | Decoded n \<Rightarrow> Some n) of
        None \<Rightarrow> ((400, Inl ErrDecodeBody), g)
      | Some timeout_sec \<Rightarrow>
      (case pickHost clock order g of
        None \<Rightarrow> ((503, Inl ErrNoCapacity), g)
      | Some h \<Rightarrow>
      (case create h (create_request timeout_sec) of
        None \<Rightarrow> ((502, Inl (ErrCreateOnHost (host_id h))), meanwhile g)
      | Some sb \<Rightarrow> ((201, Inr sb), charge (host_id h) (sb_id sb) (meanwhile g)))))"

subsection \<open>Reading\<close>

definition gw_handleList :: "(string \<Rightarrow> int) \<Rightarrow> string list \<Rightarrow> (gw_host \<Rightarrow> sandbox list option) \<Rightarrow> gateway
    \<Rightarrow> sandbox list" where
  "gw_handleList clock order list g =
     sort_key (\<lambda>s. - sb_created_at s)
       (concat (map (\<lambda>h. case list h of None \<Rightarrow> [] | Some sbs \<Rightarrow> sbs)
          (filter (\<lambda>h. live g (clock (host_id h)) h) (visit g order))))"

text \<open>
  Where a request for a sandbox goes: the address it is sent to and the \<open>Authorization\<close>
  header it carries, in place of the client's own.
\<close>

datatype proxy_result = NotFound | Forward string "string option"

definition handleProxyByID :: "string \<Rightarrow> gateway \<Rightarrow> proxy_result" where
  "handleProxyByID sid g =
     (case hosts g (case route g sid of None \<Rightarrow> '''' | Some hid \<Rightarrow> hid) of
        None \<Rightarrow> NotFound
      | Some snap \<Rightarrow> Forward (host_addr snap)
          (if host_token snap \<noteq> [] then Some (''Bearer '' @ host_token snap) else None))"

record hostView =
  hv_ID :: string
  hv_Addr :: string
  hv_SlotsTotal :: int
  hv_SlotsUsed :: int
  hv_Free :: int
  hv_Alive :: bool
  hv_LastSeenMS :: int

definition host_view :: "gateway \<Rightarrow> int \<Rightarrow> int \<Rightarrow> gw_host \<Rightarrow> hostView" where
  "host_view g now now' h =
     \<lparr>hv_ID = host_id h, hv_Addr = host_addr h, hv_SlotsTotal = slotsTotal h, hv_SlotsUsed = slotsUsed h,
      hv_Free = free h, hv_Alive = live g now h,
      hv_LastSeenMS = (let d = now' - lastSeen h in if d < 0 then - ((- d) div 1000000) else d div 1000000)\<rparr>"

text \<open>Identifiers are compared byte by byte, as Go compares strings.\<close>

fun string_less :: "string \<Rightarrow> string \<Rightarrow> bool" where
  "string_less _ [] = False"
| "string_less [] (_ # _) = True"
| "string_less (a # as) (b # bs) =
     (if a = b then string_less as bs else (of_char a :: nat) < of_char b)"

fun insert_view :: "hostView \<Rightarrow> hostView list \<Rightarrow> hostView list" where
  "insert_view v [] = [v]"
| "insert_view v (x # xs) = (if string_less (hv_ID v) (hv_ID x) then v # x # xs else x # insert_view v xs)"

definition handleHosts :: "(string \<Rightarrow> int) \<Rightarrow> (string \<Rightarrow> int) \<Rightarrow> string list \<Rightarrow> gateway \<Rightarrow> hostView list" where
  "handleHosts clock clock' order g =
     fold insert_view (map (\<lambda>h. host_view g (clock (host_id h)) (clock' (host_id h)) h) (visit g order)) []"

subsection \<open>Pruning\<close>

definition prune_host :: "(string \<Rightarrow> int) \<Rightarrow> string \<Rightarrow> gateway \<Rightarrow> gateway" where
  "prune_host clock hid g =
     (case hosts g hid of
        None \<Rightarrow> g
      | Some h \<Rightarrow>
          if live g (clock hid) h then g
          else g\<lparr>hosts := (hosts g)(hid := None), route := drop_routes hid (route g)\<rparr>)"

text \<open>One tick of \<open>pruneLoop\<close>. Go allows deleting the visited entry of a map.\<close>

definition prune_tick :: "(string \<Rightarrow> int) \<Rightarrow> string list \<Rightarrow> gateway \<Rightarrow> gateway" where
  "prune_tick clock order g = fold (prune_host clock) order g"

subsection \<open>Authentication\<close>

text \<open>
  The gate in front of every handler of the gateway and of a host's TCP listener; \<open>sha256\<close>
  and \<open>subtle.ConstantTimeCompare\<close> (equality, for slices of one length) are the
  standard library's. An absent header reads as the empty string.
\<close>

definition bearerAuth :: "(string \<Rightarrow> 'digest) \<Rightarrow> string \<Rightarrow> string \<Rightarrow> bool" where
  "bearerAuth sha256 token authorization \<longleftrightarrow> sha256 (''Bearer '' @ token) = sha256 authorization"

end
