(* ===== verification/Gateway_Props.thy ===== *)
theory Gateway_Props
  imports Gateway
begin

text \<open>
  The gateway against an abstract fleet: which hosts are known, with their latest
  heartbeat, and which sandboxes each of them claims. Routing, placement, pruning and the
  recovery after a restart.
\<close>

subsection \<open>Lemmas on the steps\<close>

lemma fold_upd_routes:
  "fold (\<lambda>sid r. r(sid \<mapsto> hid)) sids r = (\<lambda>sid. if sid \<in> set sids then Some hid else r sid)"
  by (induction sids arbitrary: r) (auto simp: fun_eq_iff)

lemma register_route:
  "route (register now hb g) sid =
     (if sid \<in> set (hb_SandboxIDs hb) then Some (hb_HostID hb)
      else if route g sid = Some (hb_HostID hb) then None else route g sid)"
  by (simp add: register_def Let_def fold_upd_routes drop_routes_def)

lemma register_ttl [simp]: "gw_ttl (register now hb g) = gw_ttl g"
  by (simp add: register_def Let_def)

lemma charge_simps [simp]:
  "gw_ttl (charge hid sid g) = gw_ttl g"
  "route (charge hid sid g) = (route g)(sid \<mapsto> hid)"
  by (simp_all add: charge_def)

lemma prune_host_ttl [simp]: "gw_ttl (prune_host clock hid g) = gw_ttl g"
  by (simp add: prune_host_def split: option.split)

lemma prune_tick_ttl [simp]: "gw_ttl (prune_tick clock order g) = gw_ttl g"
  by (induction order arbitrary: g) (simp_all add: prune_tick_def)

definition stale :: "(string \<Rightarrow> int) \<Rightarrow> string list \<Rightarrow> gateway \<Rightarrow> string \<Rightarrow> bool" where
  "stale clock order g hid \<longleftrightarrow> hid \<in> set order \<and> (\<exists>h. hosts g hid = Some h \<and> \<not> live g (clock hid) h)"

lemma prune_tick_exact_hosts:
  "hosts (prune_tick clock order g) hid = (if stale clock order g hid then None else hosts g hid)"
proof (induction order arbitrary: g)
  case Nil
  then show ?case by (simp add: prune_tick_def stale_def)
next
  case (Cons k ks)
  have "prune_tick clock (k # ks) g = prune_tick clock ks (prune_host clock k g)"
    by (simp add: prune_tick_def)
  then show ?case
    by (auto simp: Cons.IH stale_def prune_host_def live_def split: option.splits)
qed

lemma prune_tick_exact_routes:
  "route (prune_tick clock order g) sid =
     (case route g sid of None \<Rightarrow> None | Some hid \<Rightarrow> if stale clock order g hid then None else Some hid)"
proof (induction order arbitrary: g)
  case Nil
  then show ?case by (simp add: prune_tick_def stale_def split: option.split)
next
  case (Cons k ks)
  have "prune_tick clock (k # ks) g = prune_tick clock ks (prune_host clock k g)"
    by (simp add: prune_tick_def)
  then show ?case
    by (auto simp: Cons.IH stale_def prune_host_def live_def drop_routes_def split: option.splits)
qed

subsection \<open>The abstract fleet\<close>

datatype event =
    Registered int "heartbeat request_body"
  | Created string string
  | Pruned "string \<Rightarrow> int" "string list"

fun gw_step :: "event \<Rightarrow> gateway \<Rightarrow> gateway" where
  "gw_step (Registered now rb) g = snd (handleRegister now rb g)"
| "gw_step (Created hid sid) g = charge hid sid g"
| "gw_step (Pruned clock order) g = prune_tick clock order g"

record fleet =
  known :: "string \<Rightarrow> (int \<times> heartbeat) option"
  claimed :: "string \<Rightarrow> string set"

definition no_fleet :: fleet where
  "no_fleet = \<lparr>known = (\<lambda>_. None), claimed = (\<lambda>_. {})\<rparr>"

definition silent :: "int \<Rightarrow> (string \<Rightarrow> int) \<Rightarrow> string list \<Rightarrow> fleet \<Rightarrow> string \<Rightarrow> bool" where
  "silent ttl clock order f hid \<longleftrightarrow>
     hid \<in> set order \<and> (case known f hid of None \<Rightarrow> False | Some (t, hb) \<Rightarrow> clock hid - t > ttl)"

fun fleet_step :: "int \<Rightarrow> event \<Rightarrow> fleet \<Rightarrow> fleet" where
  "fleet_step ttl (Registered now (Decoded hb)) f =
     (if hb_HostID hb = [] \<or> hb_Addr hb = [] then f
      else f\<lparr>known := (known f)(hb_HostID hb \<mapsto> (now, hb)),
             claimed := (claimed f)(hb_HostID hb := set (hb_SandboxIDs hb))\<rparr>)"
| "fleet_step ttl (Registered now _) f = f"
| "fleet_step ttl (Created hid sid) f = f\<lparr>claimed := (claimed f)(hid := insert sid (claimed f hid))\<rparr>"
| "fleet_step ttl (Pruned clock order) f =
     f\<lparr>known := (\<lambda>hid. if silent ttl clock order f hid then None else known f hid),
       claimed := (\<lambda>hid. if silent ttl clock order f hid then {} else claimed f hid)\<rparr>"

text \<open>A sandbox has one owner: only that host reports it, and it was created there.\<close>

fun owned :: "(string \<Rightarrow> string) \<Rightarrow> event \<Rightarrow> bool" where
  "owned owner (Registered now (Decoded hb)) \<longleftrightarrow> (\<forall>sid \<in> set (hb_SandboxIDs hb). owner sid = hb_HostID hb)"
| "owned owner (Registered now _) \<longleftrightarrow> True"
| "owned owner (Created hid sid) \<longleftrightarrow> owner sid = hid"
| "owned owner (Pruned clock order) \<longleftrightarrow> True"

text \<open>
  The abstract view of a gateway: what it knows of a host is the host's latest heartbeat,
  apart from the slots in use, which creations change in between.
\<close>

definition host_core :: "gw_host \<Rightarrow> string \<times> string \<times> string \<times> int \<times> int" where
  "host_core h = (host_id h, host_addr h, host_token h, slotsTotal h, lastSeen h)"

definition report_core :: "string \<Rightarrow> int \<times> heartbeat \<Rightarrow> string \<times> string \<times> string \<times> int \<times> int" where
  "report_core hid = (\<lambda>(t, hb). (hid, hb_Addr hb, hb_Token hb, hb_SlotsTotal hb, t))"

definition hosts_reflect :: "fleet \<Rightarrow> gateway \<Rightarrow> bool" where
  "hosts_reflect f g \<longleftrightarrow> known f [] = None \<and>
     (\<forall>hid. map_option host_core (hosts g hid) = map_option (report_core hid) (known f hid))"

definition routes_reflect :: "(string \<Rightarrow> string) \<Rightarrow> fleet \<Rightarrow> gateway \<Rightarrow> bool" where
  "routes_reflect owner f g \<longleftrightarrow>
     (\<forall>sid. route g sid = (if sid \<in> claimed f (owner sid) then Some (owner sid) else None)) \<and>
     (\<forall>hid. claimed f hid \<subseteq> {sid. owner sid = hid})"

definition reflects :: "(string \<Rightarrow> string) \<Rightarrow> int \<Rightarrow> fleet \<Rightarrow> gateway \<Rightarrow> bool" where
  "reflects owner ttl f g \<longleftrightarrow> gw_ttl g = ttl \<and> hosts_reflect f g \<and> routes_reflect owner f g"

lemma hosts_reflect_None: "hosts_reflect f g \<Longrightarrow> hosts g hid = None \<Longrightarrow> known f hid = None"
  unfolding hosts_reflect_def by (metis map_option_is_None)

lemma hosts_reflect_Some:
  assumes "hosts_reflect f g" "hosts g hid = Some h"
  obtains t hb where "known f hid = Some (t, hb)" "host_id h = hid" "host_addr h = hb_Addr hb"
    "host_token h = hb_Token hb" "lastSeen h = t"
proof -
  from assms obtain p where "known f hid = Some p" "host_core h = report_core hid p"
    unfolding hosts_reflect_def by (metis (no_types, lifting) map_option_eq_Some)
  then show thesis by (cases p) (auto simp: host_core_def report_core_def intro: that)
qed

lemma reflects_new: "reflects owner ttl no_fleet (New token ttl)"
  by (simp add: reflects_def hosts_reflect_def routes_reflect_def no_fleet_def New_def)

lemma host_core_register:
  assumes "hosts_reflect f g"
  shows "map_option host_core (hosts (register now hb g) hid) =
    (if hid = hb_HostID hb then Some (report_core hid (now, hb)) else map_option host_core (hosts g hid))"
proof (cases "hosts g (hb_HostID hb)")
  case None
  then show ?thesis by (simp add: register_def host_core_def report_core_def)
next
  case (Some h)
  from hosts_reflect_Some [OF assms Some] have "host_id h = hb_HostID hb" .
  with Some show ?thesis by (simp add: register_def host_core_def report_core_def)
qed

lemma reflects_register:
  assumes "reflects owner ttl f g" "owned owner (Registered now rb)"
  shows "reflects owner ttl (fleet_step ttl (Registered now rb) f) (snd (handleRegister now rb g))"
proof (cases "\<exists>hb. rb = Decoded hb \<and> hb_HostID hb \<noteq> [] \<and> hb_Addr hb \<noteq> []")
  case False
  with assms(1) show ?thesis by (cases rb) (auto simp: handleRegister_def)
next
  case True
  then obtain hb where hb: "rb = Decoded hb" "hb_HostID hb \<noteq> []" "hb_Addr hb \<noteq> []" by blast
  let ?f = "fleet_step ttl (Registered now rb) f"
  have "hosts_reflect ?f (register now hb g)"
    using assms(1) hb host_core_register [of f g now hb]
    by (auto simp: reflects_def hosts_reflect_def)
  moreover have "routes_reflect owner ?f (register now hb g)"
    using assms hb by (auto simp: reflects_def routes_reflect_def register_route)
  ultimately show ?thesis
    using assms(1) hb by (simp add: reflects_def handleRegister_def)
qed

lemma host_core_charge: "map_option host_core (hosts (charge hid sid g) x) = map_option host_core (hosts g x)"
  by (simp add: charge_def host_core_def split: option.split)

lemma reflects_charge:
  "reflects owner ttl f g \<Longrightarrow> owner sid = hid \<Longrightarrow>
     reflects owner ttl (fleet_step ttl (Created hid sid) f) (charge hid sid g)"
  by (auto simp: reflects_def hosts_reflect_def routes_reflect_def host_core_charge)

lemma silent_stale:
  assumes "reflects owner ttl f g"
  shows "silent ttl clock order f hid \<longleftrightarrow> stale clock order g hid"
proof (cases "hosts g hid")
  case None
  with assms have "known f hid = None" by (auto simp: reflects_def intro: hosts_reflect_None)
  with None show ?thesis by (simp add: silent_def stale_def)
next
  case (Some h)
  from assms have "hosts_reflect f g" "gw_ttl g = ttl" by (simp_all add: reflects_def)
  with hosts_reflect_Some [OF _ Some] obtain t hb where "known f hid = Some (t, hb)" "lastSeen h = t"
    by metis
  with Some \<open>gw_ttl g = ttl\<close> show ?thesis by (auto simp: silent_def stale_def live_def)
qed

lemma reflects_prune:
  assumes "reflects owner ttl f g"
  shows "reflects owner ttl (fleet_step ttl (Pruned clock order) f) (prune_tick clock order g)"
proof -
  note stale = silent_stale [OF assms, of clock order]
  have "hosts_reflect (fleet_step ttl (Pruned clock order) f) (prune_tick clock order g)"
    using assms by (simp add: reflects_def hosts_reflect_def stale prune_tick_exact_hosts)
  moreover have "routes_reflect owner (fleet_step ttl (Pruned clock order) f) (prune_tick clock order g)"
    using assms by (simp add: reflects_def routes_reflect_def stale prune_tick_exact_routes)
  ultimately show ?thesis using assms by (simp add: reflects_def)
qed

lemma reflects_step:
  "reflects owner ttl f g \<Longrightarrow> owned owner e \<Longrightarrow> reflects owner ttl (fleet_step ttl e f) (gw_step e g)"
  by (cases e) (simp_all only: gw_step.simps owned.simps reflects_register reflects_charge reflects_prune)

interpretation fleet: simulation gw_step "fleet_step ttl" "owned owner" "reflects owner ttl"
  by unfold_locales (rule reflects_step)

lemmas reflects_events = fleet.sim_fold [OF reflects_new]

end
