(* ===== verification/Gateway_Routing.thy ===== *)
theory Gateway_Routing
  imports Gateway_Props
begin

text \<open>
  The properties of the gateway: requests reach the owner of a sandbox, a restarted gateway
  recovers, placement takes a host with the most free slots, pruning is exact.
\<close>

subsection \<open>Routing\<close>

definition gw_run :: "string \<Rightarrow> int \<Rightarrow> event list \<Rightarrow> gateway" where
  "gw_run token ttl es = fold gw_step es (New token ttl)"

definition fleet_after :: "int \<Rightarrow> event list \<Rightarrow> fleet" where
  "fleet_after ttl es = fold (fleet_step ttl) es no_fleet"

text \<open>Where a request belongs: the owner's last reported address, with the owner's credential.\<close>

definition address_of :: "heartbeat \<Rightarrow> proxy_result" where
  "address_of hb = Forward (hb_Addr hb) (if hb_Token hb \<noteq> [] then Some (''Bearer '' @ hb_Token hb) else None)"

definition destination :: "(string \<Rightarrow> string) \<Rightarrow> fleet \<Rightarrow> string \<Rightarrow> proxy_result" where
  "destination owner f sid =
     (case known f (owner sid) of
        None \<Rightarrow> NotFound
      | Some (t, hb) \<Rightarrow> if sid \<in> claimed f (owner sid) then address_of hb else NotFound)"

lemma reflects_destination:
  assumes "reflects owner ttl f g"
  shows "handleProxyByID sid g = destination owner f sid"
proof -
  have ref: "hosts_reflect f g" "routes_reflect owner f g" using assms by (simp_all add: reflects_def)
  have empty: "hosts g [] = None"
    using ref(1) unfolding hosts_reflect_def by (metis map_option_is_None)
  show ?thesis
  proof (cases "hosts g (owner sid)")
    case None
    with ref empty hosts_reflect_None [OF ref(1) None] show ?thesis
      by (simp add: handleProxyByID_def destination_def routes_reflect_def)
  next
    case (Some h)
    then obtain t hb where "known f (owner sid) = Some (t, hb)" "host_addr h = hb_Addr hb"
        "host_token h = hb_Token hb"
      using hosts_reflect_Some [OF ref(1) Some] by metis
    with ref(2) Some empty show ?thesis
      by (simp add: handleProxyByID_def destination_def routes_reflect_def address_of_def)
  qed
qed

text \<open>
  C9: Whatever heartbeats, creations and prunings a gateway has seen, in any order, a request
  for a sandbox goes exactly to the last address its owner reported, with the owner's
  token, if the owner is still known and claims the sandbox, and is answered 404 otherwise.
\<close>
theorem gateway_routes_to_owner:
  assumes "\<forall>e \<in> set es. owned owner e"
  shows "handleProxyByID sid (gw_run token ttl es) = destination owner (fleet_after ttl es) sid"
  unfolding gw_run_def fleet_after_def
  by (rule reflects_destination [OF reflects_events [OF assms]])

definition hb_a :: heartbeat where
  "hb_a = \<lparr>hb_HostID = ''A'', hb_Addr = ''10.0.0.1:8080'', hb_Token = ''ta'', hb_SlotsTotal = 2,
           hb_SlotsUsed = 1, hb_SandboxIDs = [''a1'']\<rparr>"

definition hb_b :: heartbeat where
  "hb_b = \<lparr>hb_HostID = ''B'', hb_Addr = ''10.0.0.2:8080'', hb_Token = [], hb_SlotsTotal = 5,
           hb_SlotsUsed = 0, hb_SandboxIDs = []\<rparr>"

definition owner_ab :: "string \<Rightarrow> string" where
  "owner_ab sid = (if sid = ''a1'' then ''A'' else ''B'')"

definition events_ab :: "event list" where
  "events_ab = [Registered 0 (Decoded hb_a), Registered 3 (Decoded hb_b), Created ''B'' ''b1'',
     Pruned (\<lambda>_. 12) [''B'', ''A'']]"

lemma events_ab_owned: "\<forall>e \<in> set events_ab. owned owner_ab e"
  by (simp add: events_ab_def hb_a_def hb_b_def owner_ab_def)

theorem gateway_routes_to_owner_witness:
  "handleProxyByID ''b1'' (gw_run ''t'' 10 events_ab) = Forward ''10.0.0.2:8080'' None \<and>
   handleProxyByID ''a1'' (gw_run ''t'' 10 events_ab) = NotFound"
  unfolding gateway_routes_to_owner [OF events_ab_owned]
  by (simp add: events_ab_def hb_a_def hb_b_def owner_ab_def destination_def address_of_def
        fleet_after_def no_fleet_def silent_def)

subsection \<open>Recovery after a restart\<close>

definition reports :: "(int \<times> heartbeat) list \<Rightarrow> event list" where
  "reports rs = map (\<lambda>(t, hb). Registered t (Decoded hb)) rs"

definition valid_report :: "(string \<Rightarrow> string) \<Rightarrow> heartbeat \<Rightarrow> bool" where
  "valid_report owner hb \<longleftrightarrow> hb_HostID hb \<noteq> [] \<and> hb_Addr hb \<noteq> [] \<and>
     (\<forall>sid \<in> set (hb_SandboxIDs hb). owner sid = hb_HostID hb)"

lemma fleet_reports_keep:
  "hid \<notin> set (map (hb_HostID \<circ> snd) rs) \<Longrightarrow>
     known (fold (fleet_step ttl) (reports rs) f) hid = known f hid \<and>
     claimed (fold (fleet_step ttl) (reports rs) f) hid = claimed f hid"
  by (induction rs arbitrary: f) (auto simp: reports_def split: if_splits)

lemma fleet_reports:
  assumes "\<forall>r \<in> set rs. valid_report owner (snd r)" "distinct (map (hb_HostID \<circ> snd) rs)" "(t, hb) \<in> set rs"
  shows "known (fold (fleet_step ttl) (reports rs) f) (hb_HostID hb) = Some (t, hb) \<and>
     claimed (fold (fleet_step ttl) (reports rs) f) (hb_HostID hb) = set (hb_SandboxIDs hb)"
  using assms
proof (induction rs arbitrary: f)
  case (Cons r rs)
  have fold: "fold (fleet_step ttl) (reports (r # rs)) f =
      fold (fleet_step ttl) (reports rs) (fleet_step ttl (Registered (fst r) (Decoded (snd r))) f)"
    by (simp add: reports_def split: prod.split)
  show ?case
  proof (cases "(t, hb) = r")
    case True
    then have r: "r = (t, hb)" by simp
    with Cons.prems(2) have "hb_HostID hb \<notin> set (map (hb_HostID \<circ> snd) rs)" by simp
    from fleet_reports_keep [OF this] Cons.prems(1) show ?thesis
      by (simp add: fold [unfolded r] r valid_report_def)
  next
    case False
    with Cons.prems show ?thesis unfolding fold by (intro Cons.IH) auto
  qed
qed simp

text \<open>
  After a restart, once every host has reported once, in any order, every reported
  sandbox is reachable at its host again.
\<close>
theorem restart_rebuilds_routes:
  assumes "\<forall>r \<in> set rs. valid_report owner (snd r)" "distinct (map (hb_HostID \<circ> snd) rs)"
    and "(t, hb) \<in> set rs" "sid \<in> set (hb_SandboxIDs hb)"
  shows "handleProxyByID sid (gw_run token ttl (reports rs)) = address_of hb"
proof -
  have "\<forall>e \<in> set (reports rs). owned owner e" using assms(1) by (auto simp: reports_def valid_report_def)
  then have "handleProxyByID sid (gw_run token ttl (reports rs)) = destination owner (fleet_after ttl (reports rs)) sid"
    unfolding gw_run_def fleet_after_def by (rule reflects_destination [OF reflects_events])
  moreover have "owner sid = hb_HostID hb" using assms by (fastforce simp: valid_report_def)
  ultimately show ?thesis
    using fleet_reports [OF assms(1-3), of ttl no_fleet] assms(4)
    by (simp add: fleet_after_def destination_def)
qed

theorem restart_rebuilds_routes_witness:
  "handleProxyByID ''a1'' (gw_run ''t'' 10 (reports [(4, hb_b), (6, hb_a)])) =
     Forward ''10.0.0.1:8080'' (Some ''Bearer ta'')"
  by (subst restart_rebuilds_routes [of _ owner_ab 6 hb_a])
    (simp_all add: hb_a_def hb_b_def address_of_def valid_report_def owner_ab_def)

text \<open>
  Sending a heartbeat again changes nothing but the time the host was last seen: the
  second registration gives what it would have given without the first.
\<close>
theorem register_idempotent: "register t2 hb (register t1 hb g) = register t2 hb g"
proof -
  have "route (register t2 hb (register t1 hb g)) = route (register t2 hb g)"
    by (auto simp: fun_eq_iff register_route)
  moreover have "hosts (register t2 hb (register t1 hb g)) = hosts (register t2 hb g)"
    by (simp add: register_def Let_def split: option.split)
  ultimately show ?thesis by (simp add: register_def Let_def)
qed

subsection \<open>Placement\<close>

definition eligible :: "(string \<Rightarrow> int) \<Rightarrow> gateway \<Rightarrow> gw_host \<Rightarrow> bool" where
  "eligible clock g h \<longleftrightarrow> live g (clock (host_id h)) h \<and> 0 < free h"

lemma pick_best_correct:
  "case pick_best g clock hs best of
     None \<Rightarrow> best = None \<and> (\<forall>h \<in> set hs. \<not> eligible clock g h)
   | Some b \<Rightarrow> (best = Some b \<or> b \<in> set hs \<and> eligible clock g b) \<and>
       (\<forall>x. best = Some x \<longrightarrow> free x \<le> free b) \<and>
       (\<forall>h \<in> set hs. eligible clock g h \<longrightarrow> free h \<le> free b)"
proof (induction hs arbitrary: best)
  case (Cons h hs)
  show ?case
  proof (cases "eligible clock g h")
    case False
    then have "pick_best g clock (h # hs) best = pick_best g clock hs best"
      by (auto simp: eligible_def)
    with Cons [of best] False show ?thesis by (auto split: option.splits)
  next
    case True
    then have "pick_best g clock (h # hs) best =
        pick_best g clock hs (Some (case best of None \<Rightarrow> h | Some b \<Rightarrow> if free h > free b then h else b))"
      by (simp add: eligible_def split: option.split)
    with Cons [of "Some (case best of None \<Rightarrow> h | Some b \<Rightarrow> if free h > free b then h else b)"] True
    show ?thesis by (cases best) (auto split: option.splits if_splits)
  qed
qed (simp split: option.split)

lemma set_visit: "set (visit g order) = {h. \<exists>hid \<in> set order. hosts g hid = Some h}"
  by (force simp: visit_def List.map_filter_def)

lemma visits_all_ran: "visits_all g order \<Longrightarrow> set (visit g order) = ran (hosts g)"
  by (auto simp: set_visit visits_all_def ran_def)

lemma pickHost_spec:
  assumes "visits_all g order"
  shows "case pickHost clock order g of
     None \<Rightarrow> \<forall>h \<in> ran (hosts g). \<not> eligible clock g h
   | Some b \<Rightarrow> b \<in> ran (hosts g) \<and> eligible clock g b \<and>
       (\<forall>h \<in> ran (hosts g). eligible clock g h \<longrightarrow> free h \<le> free b)"
  using pick_best_correct [where g = g and clock = clock and hs = "visit g order" and best = None]
  by (simp add: pickHost_def visits_all_ran [OF assms] split: option.splits)

lemma pick_placed:
  assumes "visits_all g order" "\<exists>h \<in> ran (hosts g). eligible clock g h"
  shows "\<exists>b. pickHost clock order g = Some b \<and> b \<in> ran (hosts g) \<and> eligible clock g b"
  using pickHost_spec [OF assms(1), of clock] assms(2) by (auto split: option.splits)

text \<open>
  C31: In whatever order the hosts are visited, a new sandbox is placed on a host that is
  alive and has a free slot, and no other such host has more; placement fails only when no
  host qualifies.
\<close>
theorem pickHost_most_free:
  assumes "visits_all g order"
  shows "case pickHost clock order g of
     None \<Rightarrow> \<forall>h \<in> ran (hosts g). \<not> eligible clock g h
   | Some b \<Rightarrow> b \<in> ran (hosts g) \<and> eligible clock g b \<and>
       (\<forall>h \<in> ran (hosts g). eligible clock g h \<longrightarrow> free h \<le> free b)"
  by (rule pickHost_spec [OF assms])

definition gw_ab :: gateway where
  "gw_ab = register 3 hb_b (register 0 hb_a (New ''t'' 10))"

lemma gw_ab_simps:
  "hosts gw_ab = [''A'' \<mapsto> \<lparr>host_id = ''A'', host_addr = ''10.0.0.1:8080'', host_token = ''ta'',
       slotsTotal = 2, slotsUsed = 1, lastSeen = 0\<rparr>,
     ''B'' \<mapsto> \<lparr>host_id = ''B'', host_addr = ''10.0.0.2:8080'', host_token = [],
       slotsTotal = 5, slotsUsed = 0, lastSeen = 3\<rparr>]"
  "gw_ttl gw_ab = 10" "route gw_ab ''a1'' = Some ''A''"
  by (simp_all add: gw_ab_def register_def hb_a_def hb_b_def New_def drop_routes_def)

lemma pickHost_gw_ab: "map_option host_id (pickHost (\<lambda>_. 5) [''A'', ''B''] gw_ab) = Some ''B''"
  by (simp add: pickHost_def visit_def List.map_filter_def gw_ab_simps live_def free_def wrap64_def)

theorem pickHost_most_free_witness:
  "\<exists>b. pickHost (\<lambda>_. 5) [''A'', ''B''] gw_ab = Some b \<and> host_id b = ''B'' \<and> eligible (\<lambda>_. 5) gw_ab b"
proof -
  have "visits_all gw_ab [''A'', ''B'']" by (auto simp: visits_all_def gw_ab_simps)
  from pickHost_most_free [OF this, of "\<lambda>_. 5"] pickHost_gw_ab show ?thesis
    by (auto split: option.splits)
qed

subsection \<open>Pruning\<close>

text \<open>
  A tick of the pruning loop removes exactly the hosts not heard of within the limit and
  exactly the routes to them, in whatever order the hosts are visited.
\<close>
theorem prune_tick_exact:
  assumes "visits_all g order"
  shows "hosts (prune_tick clock order g) hid =
      (case hosts g hid of None \<Rightarrow> None | Some h \<Rightarrow> if live g (clock hid) h then Some h else None) \<and>
    route (prune_tick clock order g) sid =
      (case route g sid of None \<Rightarrow> None | Some k \<Rightarrow>
         (case hosts g k of None \<Rightarrow> Some k | Some h \<Rightarrow> if live g (clock k) h then Some k else None))"
proof -
  have "hosts g k = Some h \<Longrightarrow> k \<in> set order" for k h
    using assms by (auto simp: visits_all_def)
  then show ?thesis
    by (auto simp: prune_tick_exact_hosts prune_tick_exact_routes stale_def split: option.splits)
qed

theorem prune_tick_exact_witness:
  "hosts (prune_tick (\<lambda>_. 12) [''B'', ''A''] gw_ab) ''A'' = None \<and>
   route (prune_tick (\<lambda>_. 12) [''B'', ''A''] gw_ab) ''a1'' = None"
proof -
  have "visits_all gw_ab [''B'', ''A'']" by (auto simp: visits_all_def gw_ab_simps)
  from prune_tick_exact [OF this, of "\<lambda>_. 12" "''A''" "''a1''"] show ?thesis
    by (simp add: gw_ab_simps live_def)
qed

subsection \<open>The merged list\<close>

lemma gw_handleList_complete:
  "mset (gw_handleList clock order list g) =
     sum_list (map (\<lambda>h. case list h of None \<Rightarrow> {#} | Some sbs \<Rightarrow> mset sbs)
       (filter (\<lambda>h. live g (clock (host_id h)) h) (visit g order))) \<and>
   sorted (map (\<lambda>s. - sb_created_at s) (gw_handleList clock order list g))"
proof -
  have "mset (concat (map f hs)) = sum_list (map (\<lambda>h. mset (f h)) hs)" for f :: "gw_host \<Rightarrow> sandbox list" and hs
    by (induction hs) auto
  moreover have "mset (case x of None \<Rightarrow> [] | Some y \<Rightarrow> y) = (case x of None \<Rightarrow> {#} | Some y \<Rightarrow> mset y)"
    for x :: "sandbox list option"
    by (cases x) auto
  ultimately show ?thesis by (simp add: gw_handleList_def)
qed

subsection \<open>A creation that outlives its host\<close>

text \<open>
  The route of a creation is stored even if the host was dropped while it worked; no later
  pruning finds it, since the host is no longer in the map.
\<close>

lemma charge_dangling:
  "hosts g hid = None \<Longrightarrow> route (charge hid sid g) sid = Some hid \<and> hosts (charge hid sid g) hid = None \<and>
     route (prune_tick clock order (charge hid sid g)) sid = Some hid"
  by (simp add: prune_tick_exact_routes stale_def) (simp add: charge_def)

subsection \<open>Authentication\<close>

text \<open>A digest without collisions lets exactly the header with the token through.\<close>

lemma bearerAuth_exact:
  "inj sha256 \<Longrightarrow> bearerAuth sha256 token authorization \<longleftrightarrow> authorization = ''Bearer '' @ token"
  by (auto simp: bearerAuth_def inj_eq)

end
