(* ===== verification/Fleet.thy ===== *)
theory Fleet
  imports Liveness Gateway_Routing
begin

text \<open>
  \<open>internal/server/heartbeat.go\<close> and the hosts behind a gateway. A heartbeat is built from
  the registry of a server; registering it makes exactly its running sandboxes reachable.
  Creating through the gateway is the gateway's handler composed with the handler of the
  host it picks.
\<close>

subsection \<open>The heartbeat of a server\<close>

text \<open>The request of one heartbeat: where it goes, what it carries, how it authenticates.\<close>

record heartbeat_request =
  hr_url :: string
  hr_body :: heartbeat
  hr_authorization :: "string option"

definition heartbeat_identity :: "env \<Rightarrow> server_config \<Rightarrow> (string \<times> string \<times> string) server_action" where
  "heartbeat_identity E cfg =
     (let advertise = (if AdvertiseAddr cfg = [] then ListenAddr cfg else AdvertiseAddr cfg);
          url = GatewayURL cfg @ ''/register''
      in if HostID cfg \<noteq> [] then return (url, HostID cfg, advertise)
         else do {
           r \<leftarrow> call E Hostname;
           return (url, if r_ok r \<and> r_out r \<noteq> [] then r_out r else advertise, advertise)
         })"

definition heartbeat_of :: "server_config \<Rightarrow> string \<Rightarrow> string \<Rightarrow> sandbox list \<Rightarrow> heartbeat" where
  "heartbeat_of cfg hostID advertise rows =
     \<lparr>hb_HostID = hostID, hb_Addr = advertise, hb_Token = APIToken cfg,
      hb_SlotsTotal = Slots (RegPools cfg), hb_SlotsUsed = int (length rows),
      hb_SandboxIDs = map sb_id rows\<rparr>"

text \<open>The answer of the gateway is only logged.\<close>

definition sendHeartbeat :: "env \<Rightarrow> server_config \<Rightarrow> string \<Rightarrow> string \<Rightarrow> string
    \<Rightarrow> heartbeat_request option server_action" where
  "sendHeartbeat E cfg url hostID advertise = do {
     r \<leftarrow> db_query E OpList List;
     return (case r of
        Inl e \<Rightarrow> None
      | Inr rows \<Rightarrow> Some
          \<lparr>hr_url = url, hr_body = heartbeat_of cfg hostID advertise rows,
           hr_authorization = (if GatewayToken cfg \<noteq> [] then Some (''Bearer '' @ GatewayToken cfg) else None)\<rparr>)
   }"

text \<open>One round of \<open>heartbeat\<close>: the identity is settled once, the sending repeats.\<close>

definition heartbeat_round :: "env \<Rightarrow> server_config \<Rightarrow> heartbeat_request option server_action" where
  "heartbeat_round E cfg = do {
     (url, hostID, advertise) \<leftarrow> heartbeat_identity E cfg;
     sendHeartbeat E cfg url hostID advertise
   }"

definition running_ids :: "registry_db \<Rightarrow> string set" where
  "running_ids db = c_id ` set (filter running (sandboxes db))"

lemma sendHeartbeat_body:
  assumes "run_state (sendHeartbeat E cfg url hostID advertise) s = (Some req, t)"
  shows "hb_HostID (hr_body req) = hostID \<and> hb_Addr (hr_body req) = advertise \<and>
    hb_Token (hr_body req) = APIToken cfg \<and> hb_SlotsTotal (hr_body req) = Slots (RegPools cfg) \<and>
    hb_SlotsUsed (hr_body req) = int (length (filter running (sandboxes (reg_db s)))) \<and>
    set (hb_SandboxIDs (hr_body req)) = running_ids (reg_db s) \<and> reg_db t = reg_db s \<and> machines t = machines s"
  using assms
  by (auto simp: sendHeartbeat_def db_query_def List_def heartbeat_of_def collectSandboxes_def running_ids_def
      scanSandbox_def split: sum.splits if_splits)

lemma proxy_route:
  "route g sid = Some hid \<Longrightarrow> hosts g hid = Some h \<Longrightarrow> handleProxyByID sid g =
     Forward (host_addr h) (if host_token h \<noteq> [] then Some (''Bearer '' @ host_token h) else None)"
  by (simp add: handleProxyByID_def)

text \<open>
  The heartbeat of a server is accepted by the gateway and makes exactly the sandboxes
  running on that host reachable there: every other sandbox is no longer routed to it, and
  the host's entry carries its capacity and the number of its running sandboxes.
\<close>
theorem heartbeat_routes_running:
  assumes "run_state (sendHeartbeat E cfg url hostID advertise) s = (Some req, t)" "hostID \<noteq> []" "advertise \<noteq> []"
    and "handleRegister now (Decoded (hr_body req)) g = (code, g')"
  shows "code = 204 \<and>
    (\<forall>sid. route g' sid = Some hostID \<longleftrightarrow> sid \<in> running_ids (reg_db s)) \<and>
    (\<forall>sid \<in> running_ids (reg_db s). handleProxyByID sid g' = Forward advertise
       (if APIToken cfg \<noteq> [] then Some (''Bearer '' @ APIToken cfg) else None)) \<and>
    (\<exists>h. hosts g' hostID = Some h \<and> slotsTotal h = Slots (RegPools cfg) \<and>
       slotsUsed h = int (length (filter running (sandboxes (reg_db s)))) \<and> lastSeen h = now)"
proof -
  note body = sendHeartbeat_body [OF assms(1)]
  have g': "code = 204" "g' = register now (hr_body req) g"
    using assms(2-4) body by (simp_all add: handleRegister_def)
  have routes: "\<forall>sid. route g' sid = Some hostID \<longleftrightarrow> sid \<in> running_ids (reg_db s)"
    using body by (simp add: g' register_route)
  obtain h where h: "hosts g' hostID = Some h" "host_addr h = advertise" "host_token h = APIToken cfg"
      "slotsTotal h = Slots (RegPools cfg)" "lastSeen h = now"
      "slotsUsed h = int (length (filter running (sandboxes (reg_db s))))"
    using body by (simp add: g' register_def split: option.split)
  from g'(1) routes h proxy_route [OF _ h(1)] show ?thesis by simp
qed

definition host_cfg :: server_config where
  "host_cfg = sample_cfg\<lparr>ListenAddr := ''10.0.0.9:8080'', GatewayURL := ''http://gw:9090''\<rparr>"

definition req_a :: heartbeat_request where
  "req_a = \<lparr>hr_url = ''http://gw:9090/register'',
     hr_body = \<lparr>hb_HostID = ''h'', hb_Addr = ''10.0.0.9:8080'', hb_Token = [], hb_SlotsTotal = 2,
       hb_SlotsUsed = 1, hb_SandboxIDs = [''a'']\<rparr>,
     hr_authorization = None\<rparr>"

lemma sendHeartbeat_a:
  "\<exists>t. run_state (sendHeartbeat sunny host_cfg ''http://gw:9090/register'' ''h'' ''10.0.0.9:8080'') server_a = (Some req_a, t)"
  by (simp add: sendHeartbeat_def db_query_def List_def heartbeat_of_def collectSandboxes_def scanSandbox_def
      server_a_def db_a_def row_a_def running_def new_row_def sunny_def no_faults_def req_a_def host_cfg_def
      sample_cfg_def Slots_sample)

theorem heartbeat_routes_running_witness:
  "\<exists>g'. handleRegister 7 (Decoded (hr_body req_a)) (New ''t'' 10) = (204, g') \<and> route g' ''a'' = Some ''h''"
proof -
  obtain t where run: "run_state (sendHeartbeat sunny host_cfg ''http://gw:9090/register'' ''h'' ''10.0.0.9:8080'') server_a = (Some req_a, t)"
    using sendHeartbeat_a by blast
  obtain code g' where reg: "handleRegister 7 (Decoded (hr_body req_a)) (New ''t'' 10) = (code, g')"
    by (metis prod.exhaust)
  have "''a'' \<in> running_ids (reg_db server_a)"
    by (simp add: running_ids_def server_a_def db_a_def row_a_def running_def new_row_def)
  with heartbeat_routes_running [OF run _ _ reg] reg show ?thesis by simp
qed

subsection \<open>Creating through the gateway\<close>

text \<open>A host as the gateway reaches it: its environment, configuration and state.\<close>

record node =
  node_env :: env
  node_cfg :: server_config
  node_state :: server

text \<open>
  \<open>Client.Create\<close> against such a host: a status of 400 or more is an error, otherwise the
  body is the sandbox.
\<close>

definition create_on :: "(string \<Rightarrow> node) \<Rightarrow> gw_host \<Rightarrow> int request_body \<Rightarrow> sandbox option" where
  "create_on nodes h rb =
     (let n = nodes (host_id h) in
      case fst (run_state (handleCreate (node_env n) (node_cfg n) rb) (node_state n)) of
        (code, b) \<Rightarrow>
          if code \<ge> 400 then None
          else (case b of BSandbox sb \<Rightarrow> Some sb | _ \<Rightarrow> None))"

text \<open>A host that can take one more sandbox, if its capacity allows it.\<close>

definition node_ready :: "node \<Rightarrow> bool" where
  "node_ready n \<longleftrightarrow> (let E = node_env n; cfg = node_cfg n; s = node_state n in
     all_well E \<and> registry_ok (reg_db s) \<and> tracked_ok s \<and>
     (case ip_range (RegPools cfg) of None \<Rightarrow> False | Some (lo, hi) \<Rightarrow> lo \<le> hi \<and> hi \<noteq> - 1) \<and>
     length (sandboxes (reg_db s)) + length (sandbox_ports (reg_db s)) < length (port_slots (RegPools cfg)) \<and>
     find_sandbox (fresh_id E s) (reg_db s) = None \<and> ParseIP (ServerGatewayIP cfg) \<noteq> None)"

text \<open>What the gateway holds of a host is what the host's last heartbeat said and still holds.\<close>

definition in_sync :: "(string \<Rightarrow> node) \<Rightarrow> gateway \<Rightarrow> bool" where
  "in_sync nodes g \<longleftrightarrow> (\<forall>hid h. hosts g hid = Some h \<longrightarrow>
     host_id h = hid \<and> slotsTotal h = Slots (RegPools (node_cfg (nodes hid))) \<and>
     slotsUsed h = int (length (filter running (sandboxes (reg_db (node_state (nodes hid)))))))"

lemma all_well_cleanup: "all_well E \<Longrightarrow> cleanup_ok E"
  by (simp add: cleanup_ok_def)

lemma create_request_timeout: "timeout_of (create_request ts) = Inr (max 0 ts)"
  by (simp add: create_request_def timeout_of_def)

lemma free_pos: "0 < free h \<Longrightarrow> slotsUsed h < slotsTotal h"
  by (simp add: free_def split: if_splits)

lemma registry_all_running: "registry_ok db \<Longrightarrow> filter running (sandboxes db) = sandboxes db"
  by (simp add: registry_ok_def code_ok_def list_all_iff)

lemma node_creates:
  assumes "node_ready (nodes hid)" "host_id h = hid" "timeout_of rb = Inr n"
    and "int (length (sandboxes (reg_db (node_state (nodes hid))))) < Slots (RegPools (node_cfg (nodes hid)))"
  shows "\<exists>sb. create_on nodes h rb = Some sb \<and> sb_id sb = fresh_id (node_env (nodes hid)) (node_state (nodes hid))"
proof -
  let ?E = "node_env (nodes hid)" and ?cfg = "node_cfg (nodes hid)" and ?s = "node_state (nodes hid)"
  obtain lo hi where ready: "all_well ?E" "registry_ok (reg_db ?s)" "tracked_ok ?s"
      "ip_range (RegPools ?cfg) = Some (lo, hi)" "lo \<le> hi" "hi \<noteq> - 1"
      "length (sandboxes (reg_db ?s)) + length (sandbox_ports (reg_db ?s)) < length (port_slots (RegPools ?cfg))"
      "find_sandbox (fresh_id ?E ?s) (reg_db ?s) = None" "ParseIP (ServerGatewayIP ?cfg) \<noteq> None"
    using assms(1) by (auto simp: node_ready_def Let_def split: option.splits)
  obtain code b t where run: "run_state (handleCreate ?E ?cfg rb) ?s = ((code, b), t)"
    by (metis prod.exhaust)
  have "code = 201"
    using wp_run [OF run create_well [OF ready(1,2) assms(3) ready(4-6) assms(4) ready(7-9)]] by simp
  moreover obtain sb where "b = BSandbox sb" "sb_id sb = fresh_id ?E ?s"
    using wp_run [OF run handleCreate_wp [OF all_well_cleanup [OF ready(1)] ready(2,3)]] \<open>code = 201\<close>
    by (auto simp: create_post_def)
  ultimately show ?thesis using run assms(2) by (simp add: create_on_def)
qed


definition fresh_node :: node where
  "fresh_node = \<lparr>node_env = sunny, node_cfg = host_cfg, node_state = server0\<rparr>"

definition gw_one :: gateway where
  "gw_one = register 3 \<lparr>hb_HostID = ''h'', hb_Addr = ''10.0.0.9:8080'', hb_Token = [], hb_SlotsTotal = 2,
     hb_SlotsUsed = 0, hb_SandboxIDs = []\<rparr> (New ''t'' 10)"

lemma gw_one_simps:
  "hosts gw_one = [''h'' \<mapsto> \<lparr>host_id = ''h'', host_addr = ''10.0.0.9:8080'', host_token = [],
     slotsTotal = 2, slotsUsed = 0, lastSeen = 3\<rparr>]"
  "gw_ttl gw_one = 10"
  by (simp_all add: gw_one_def register_def New_def)

lemma fresh_node_ready: "node_ready fresh_node"
  by (simp add: node_ready_def fresh_node_def server0_def empty_db_ok tracked_ok_def host_cfg_def sample_cfg_def
      ip_range_sample parse_gateway port_slots_sample del: ip_range.simps)
    (simp add: empty_db_def find_sandbox_def)

lemma fresh_node_room:
  "int (length (sandboxes (reg_db (node_state fresh_node)))) < Slots (RegPools (node_cfg fresh_node))"
  by (simp add: fresh_node_def server0_def empty_db_def host_cfg_def sample_cfg_def Slots_sample)


subsection \<open>Negative timeouts\<close>

text \<open>
  A host refuses a negative timeout with 400 and changes nothing, but through the gateway
  the same request is forwarded without its body, so it is served like one without a
  timeout: the sandbox never expires.
\<close>
theorem gateway_drops_negative_timeout:
  assumes "n < 0"
  shows "gw_handleCreate clock order create meanwhile (Decoded n) g = gw_handleCreate clock order create meanwhile NoBody g \<and>
    (\<exists>t. run_state (handleCreate E cfg (Decoded n)) s = ((400, BError ErrNegativeTimeout), t) \<and> reg_db t = reg_db s)"
  using assms by (simp add: gw_handleCreate_def create_request_def handleCreate_def timeout_of_def call_def split: option.split)

lemma no_timeout: "timeout_of NoBody = Inr 0"
  by (simp add: timeout_of_def)

theorem gateway_drops_negative_timeout_witness:
  "\<exists>sb g'. gw_handleCreate (\<lambda>_. 5) [''h''] (create_on (\<lambda>_. fresh_node)) (\<lambda>g. g) (Decoded (- 1)) gw_one = ((201, Inr sb), g')"
proof -
  obtain r g' where run: "gw_handleCreate (\<lambda>_. 5) [''h''] (create_on (\<lambda>_. fresh_node)) (\<lambda>g. g) NoBody gw_one = (r, g')"
    by (metis prod.exhaust)
  have "create_on (\<lambda>_. fresh_node) \<lparr>host_id = ''h'', host_addr = ''10.0.0.9:8080'', host_token = [],
      slotsTotal = 2, slotsUsed = 0, lastSeen = 3\<rparr> NoBody \<noteq> None"
    by (metis node_creates [OF fresh_node_ready _ _ fresh_node_room] gw_host.select_convs(1) no_timeout option.distinct(1))
  then have "\<exists>sb. r = (201, Inr sb)"
    using run by (auto simp: gw_handleCreate_def create_request_def pickHost_def visit_def List.map_filter_def
        gw_one_simps live_def free_def wrap64_def)
  with run gateway_drops_negative_timeout [of "- 1"] show ?thesis by auto
qed

end
