(* ===== verification/Api.thy ===== *)
theory Api
  imports Fleet
begin

text \<open>
  \<open>Serve\<close> of \<open>internal/server/server.go\<close> with the proxies of \<open>proxy.go\<close>: which handler a
  request reaches, what is forwarded to the agent of a guest, the order of the start-up
  steps, and the server as a whole: start-up followed by requests, reaper ticks and
  heartbeats in any order.
\<close>

subsection \<open>Proxying to the agent\<close>

record agent_request =
  ar_method :: string
  ar_url :: string
  ar_content_type :: string
  ar_body :: string

text \<open>The agent's answer; a request can also fail to be built or to be delivered.\<close>

datatype agent_answer = BadRequest | Unreachable | Answer nat "(string \<times> string) list" string

record api_request =
  rq_method :: string
  rq_path :: "string list"
  rq_query :: string
  rq_content_type :: string
  rq_raw :: string
  rq_timeout :: "int request_body"  \<comment> \<open>the body as a handler's structure decodes it: \<open>timeout_sec\<close>,\<close>
  rq_port :: "int request_body"  \<comment> \<open>\<open>guest_port\<close>,\<close>
  rq_fanout :: "(int \<times> int) request_body"  \<comment> \<open>\<open>count\<close> and \<open>timeout_sec\<close>\<close>

definition AgentPort :: int where "AgentPort = 8090"

definition with_query :: "string \<Rightarrow> string \<Rightarrow> string" where
  "with_query url q = (if q \<noteq> [] then url @ ''?'' @ q else url)"

definition proxied :: "agent_answer \<Rightarrow> response" where
  "proxied a = (case a of
     BadRequest \<Rightarrow> (500, BError ErrBadRequest)
   | Unreachable \<Rightarrow> (502, BError ErrAgentUnreachable)
   | Answer code headers body \<Rightarrow> (code, BProxied headers body))"

definition handleAgentProxy :: "env \<Rightarrow> (agent_request \<Rightarrow> agent_answer) \<Rightarrow> string \<Rightarrow> string \<Rightarrow> api_request
    \<Rightarrow> response server_action" where
  "handleAgentProxy E agent endpoint sid rq = do {
     r \<leftarrow> reg_Get E sid;
     (case r of
        Inl e \<Rightarrow> httpError 404 (ErrRegistry e)
      | Inr sb \<Rightarrow> return (proxied (agent
          \<lparr>ar_method = rq_method rq,
           ar_url = with_query (''http://'' @ sb_guest_ip sb @ '':'' @ itoa AgentPort @ ''/'' @ endpoint) (rq_query rq),
           ar_content_type = rq_content_type rq, ar_body = rq_raw rq\<rparr>)))
   }"

definition handleShellProxy :: "env \<Rightarrow> (agent_request \<Rightarrow> agent_answer) \<Rightarrow> string \<Rightarrow> api_request
    \<Rightarrow> response server_action" where
  "handleShellProxy E agent sid rq = do {
     r \<leftarrow> reg_Get E sid;
     (case r of
        Inl e \<Rightarrow> httpError 404 (ErrRegistry e)
      | Inr sb \<Rightarrow> return (proxied (agent
          \<lparr>ar_method = rq_method rq,
           ar_url = with_query (''http://'' @ sb_guest_ip sb @ '':'' @ itoa AgentPort @ ''/shell'') (rq_query rq),
           ar_content_type = rq_content_type rq, ar_body = rq_raw rq\<rparr>)))
   }"

subsection \<open>Routes\<close>

datatype handler =
    HCreate | HList | HGet | HDestroy | HSetTimeout | HExposePort | HListPorts | HAgent string | HShell
  | HSnapshot | HListSnapshots | HRestore | HFanout | HDeleteSnapshot

datatype segment = Lit string | Wild

text \<open>The patterns of the mux, in the order they are registered.\<close>

definition api_routes :: "(string \<times> segment list \<times> handler) list" where
  "api_routes =
     [(''POST'', [Lit ''sandboxes''], HCreate),
      (''GET'', [Lit ''sandboxes''], HList),
      (''GET'', [Lit ''sandboxes'', Wild], HGet),
      (''DELETE'', [Lit ''sandboxes'', Wild], HDestroy),
      (''POST'', [Lit ''sandboxes'', Wild, Lit ''timeout''], HSetTimeout),
      (''POST'', [Lit ''sandboxes'', Wild, Lit ''ports''], HExposePort),
      (''GET'', [Lit ''sandboxes'', Wild, Lit ''ports''], HListPorts),
      (''POST'', [Lit ''sandboxes'', Wild, Lit ''exec''], HAgent ''exec''),
      (''POST'', [Lit ''sandboxes'', Wild, Lit ''exec'', Lit ''stream''], HAgent ''exec/stream''),
      (''GET'', [Lit ''sandboxes'', Wild, Lit ''files''], HAgent ''files''),
      (''PUT'', [Lit ''sandboxes'', Wild, Lit ''files''], HAgent ''files''),
      (''GET'', [Lit ''sandboxes'', Wild, Lit ''dir''], HAgent ''dir''),
      (''GET'', [Lit ''sandboxes'', Wild, Lit ''shell''], HShell),
      (''POST'', [Lit ''sandboxes'', Wild, Lit ''snapshot''], HSnapshot),
      (''GET'', [Lit ''snapshots''], HListSnapshots),
      (''POST'', [Lit ''snapshots'', Wild, Lit ''restore''], HRestore),
      (''POST'', [Lit ''snapshots'', Wild, Lit ''fanout''], HFanout),
      (''DELETE'', [Lit ''snapshots'', Wild], HDeleteSnapshot)]"

text \<open>A wildcard matches one segment that is not empty; \<open>HEAD\<close> is served by the patterns of \<open>GET\<close>.\<close>

fun match_path :: "segment list \<Rightarrow> string list \<Rightarrow> string option \<Rightarrow> string option option" where
  "match_path [] [] w = Some w"
| "match_path (Lit l # ps) (x # xs) w = (if x = l then match_path ps xs w else None)"
| "match_path (Wild # ps) (x # xs) w = (if x \<noteq> [] then match_path ps xs (Some x) else None)"
| "match_path _ _ w = None"

definition match_route :: "api_request \<Rightarrow> string \<times> segment list \<times> handler \<Rightarrow> (handler \<times> string) option" where
  "match_route rq p = (case p of (m, ps, h) \<Rightarrow>
     if rq_method rq = m \<or> m = ''GET'' \<and> rq_method rq = ''HEAD''
     then map_option (\<lambda>w. (h, case w of None \<Rightarrow> [] | Some x \<Rightarrow> x)) (match_path ps (rq_path rq) None)
     else None)"

definition route_request :: "api_request \<Rightarrow> (handler \<times> string) option" where
  "route_request rq = (case List.map_filter (match_route rq) api_routes of [] \<Rightarrow> None | h # _ \<Rightarrow> Some h)"

fun handle :: "env \<Rightarrow> server_config \<Rightarrow> (agent_request \<Rightarrow> agent_answer) \<Rightarrow> api_request \<Rightarrow> handler \<Rightarrow> string
    \<Rightarrow> response server_action" where
  "handle E cfg agent rq HCreate sid = handleCreate E cfg (rq_timeout rq)"
| "handle E cfg agent rq HList sid = handleList E"
| "handle E cfg agent rq HGet sid = handleGet E sid"
| "handle E cfg agent rq HDestroy sid = handleDestroy E cfg sid"
| "handle E cfg agent rq HSetTimeout sid = handleSetTimeout E sid (rq_timeout rq)"
| "handle E cfg agent rq HExposePort sid = handleExposePort E cfg sid (rq_port rq)"
| "handle E cfg agent rq HListPorts sid = handleListPorts E cfg sid"
| "handle E cfg agent rq (HAgent endpoint) sid = handleAgentProxy E agent endpoint sid rq"
| "handle E cfg agent rq HShell sid = handleShellProxy E agent sid rq"
| "handle E cfg agent rq HSnapshot sid = handleSnapshot E cfg sid"
| "handle E cfg agent rq HListSnapshots sid = handleListSnapshots E"
| "handle E cfg agent rq HRestore sid = handleRestore E cfg sid (rq_timeout rq)"
| "handle E cfg agent rq HFanout sid = handleFanout E cfg sid (rq_fanout rq)"
| "handle E cfg agent rq HDeleteSnapshot sid = handleDeleteSnapshot E cfg sid"

text \<open>No answer of the API when no pattern matches: the mux answers 404 or 405 by itself.\<close>

definition serve_request :: "env \<Rightarrow> server_config \<Rightarrow> (agent_request \<Rightarrow> agent_answer) \<Rightarrow> api_request
    \<Rightarrow> response option server_action" where
  "serve_request E cfg agent rq =
     (case route_request rq of
        None \<Rightarrow> return None
      | Some (h, sid) \<Rightarrow> do { r \<leftarrow> handle E cfg agent rq h sid; return (Some r) })"

text \<open>Requests that come in over TCP pass \<open>bearerAuth\<close> first.\<close>

definition serve_tcp :: "(string \<Rightarrow> 'digest) \<Rightarrow> env \<Rightarrow> server_config \<Rightarrow> (agent_request \<Rightarrow> agent_answer) \<Rightarrow> string
    \<Rightarrow> api_request \<Rightarrow> response option server_action" where
  "serve_tcp sha256 E cfg agent authorization rq =
     (if bearerAuth sha256 (APIToken cfg) authorization then serve_request E cfg agent rq
      else return (Some (401, BError ErrUnauthorized)))"

subsection \<open>Starting and stopping\<close>

datatype serve_error = ErrSocketDir | ErrListenUnix | ErrNoToken | ErrListenTcp string

text \<open>From the reconciliation to the listeners; the result tells whether a TCP listener runs.\<close>

definition serve_start :: "env \<Rightarrow> server_config \<Rightarrow> (serve_error, bool) result server_action" where
  "serve_start E cfg = do {
     _ \<leftarrow> reconcile E cfg;
     d \<leftarrow> call E (MkdirAll (Dir (ServerSocketPath cfg)));
     if \<not> r_ok d then return (Inl ErrSocketDir)
     else do {
       _ \<leftarrow> call E (RemoveFile (ServerSocketPath cfg));
       ln \<leftarrow> call E (Listen ''unix'' (ServerSocketPath cfg));
       if \<not> r_ok ln then return (Inl ErrListenUnix)
       else do {
         _ \<leftarrow> call E (Chmod (ServerSocketPath cfg));
         if ListenAddr cfg = [] then return (Inr False)
         else if APIToken cfg = [] then return (Inl ErrNoToken)
         else do {
           tcp \<leftarrow> call E (Listen ''tcp'' (ListenAddr cfg));
           return (if r_ok tcp then Inr True else Inl (ErrListenTcp (ListenAddr cfg)))
         }
       }
     }
   }"

subsection \<open>The server as a whole\<close>

datatype server_event = Request api_request | ReaperTick int | Heartbeat | Shutdown "string list"

definition server_event_action :: "env \<Rightarrow> server_config \<Rightarrow> (agent_request \<Rightarrow> agent_answer) \<Rightarrow> server_event
    \<Rightarrow> unit server_action" where
  "server_event_action E cfg agent ev = (case ev of
     Request rq \<Rightarrow> do { _ \<leftarrow> serve_request E cfg agent rq; return () }
   | ReaperTick now \<Rightarrow> reap_tick E cfg now
   | Heartbeat \<Rightarrow> do { _ \<leftarrow> heartbeat_round E cfg; return () }
   | Shutdown ids \<Rightarrow> shutdownAll E cfg ids)"

text \<open>A life of the server: the registry file of the previous one, start-up, then events.\<close>

definition server_life :: "env \<Rightarrow> server_config \<Rightarrow> (agent_request \<Rightarrow> agent_answer) \<Rightarrow> server_event list
    \<Rightarrow> (serve_error, unit) result server_action" where
  "server_life E cfg agent evs = do {
     r \<leftarrow> serve_start E cfg;
     (case r of
        Inl e \<Rightarrow> return (Inl e)
      | Inr _ \<Rightarrow> do { _ \<leftarrow> each (server_event_action E cfg agent) evs; return (Inr ()) })
   }"

end
