(* ===== verification/Concurrent.thy ===== *)
theory Concurrent
  imports Tasks Api_Props
begin

text \<open>
  The handlers that change the registry, as tasks whose atomic steps are what the code
  shares: one operation of the registry (a single connection serialises them), one access to
  the map of machines (a \<open>sync.Map\<close>), and between these the calls to provisioner, driver
  and agent, which touch no state of the server and are one step each. Run alone, a task is
  the handler.
\<close>

subsection \<open>Rolling back, destroying, finishing a start\<close>

type_synonym 'a server_task = "(server, 'a) task"

definition rollback_task :: "env \<Rightarrow> server_config \<Rightarrow> string \<Rightarrow> sandbox \<Rightarrow> 'a server_task \<Rightarrow> 'a server_task" where
  "rollback_task E cfg sid sb k =
     act (DeleteTap E (sb_tap_device sb)) (\<lambda>_.
     act (RemoveRootfs E (sb_rootfs_path sb)) (\<lambda>_.
     act (reg_Destroy E sid) (\<lambda>_. k)))"

definition destroy_task :: "env \<Rightarrow> server_config \<Rightarrow> string \<Rightarrow> (server_error, unit) result server_task" where
  "destroy_task E cfg sid =
     act (reg_Get E sid) (\<lambda>r. case r of
       Inl e \<Rightarrow> Done (Inl (ErrGetSandbox e))
     | Inr sb \<Rightarrow>
         act (reg_Ports E sid) (\<lambda>ps.
         act (machines_LoadAndDelete sid) (\<lambda>v.
         act (case v of None \<Rightarrow> return () | Some m \<Rightarrow> stop_machine E m) (\<lambda>_.
         act (release E cfg sb (case ps of Inl _ \<Rightarrow> [] | Inr ports \<Rightarrow> ports)) (\<lambda>_.
         act (reg_Destroy E sid) (\<lambda>r.
         Done (case r of Inl e \<Rightarrow> Inl (ErrRegistry e) | Inr _ \<Rightarrow> Inr ())))))))"

definition bring_up_task :: "env \<Rightarrow> server_config \<Rightarrow> string \<Rightarrow> sandbox \<Rightarrow> machine \<Rightarrow> runtime_config
    \<Rightarrow> (host_error \<Rightarrow> server_error) \<Rightarrow> int \<Rightarrow> response server_task" where
  "bring_up_task E cfg sid sb m rt start_error agent_deadline =
     act (Start E (Some m)) (\<lambda>r. case r of
       Inl e \<Rightarrow> act (StopForce E (Some m)) (\<lambda>_. rollback_task E cfg sid sb (Done (500, BError (start_error e))))
     | Inr _ \<Rightarrow>
     act (PID E (Some m)) (\<lambda>r. case r of
       Inl e \<Rightarrow> act (StopForce E (Some m)) (\<lambda>_. rollback_task E cfg sid sb (Done (500, BError (ErrPid e))))
     | Inr pid \<Rightarrow>
     act (AddPortForward E (Prov cfg) (sb_host_port sb) (sb_guest_ip sb)) (\<lambda>r. case r of
       Inl e \<Rightarrow> act (StopForce E (Some m)) (\<lambda>_. rollback_task E cfg sid sb (Done (500, BError (ErrPortForward e))))
     | Inr _ \<Rightarrow>
     act (reg_FinishStart E sid pid rt) (\<lambda>r. case r of
       Inl e \<Rightarrow>
         act (RemovePortForward E (Prov cfg) (sb_host_port sb) (sb_guest_ip sb)) (\<lambda>_.
         act (StopForce E (Some m)) (\<lambda>_. rollback_task E cfg sid sb (Done (500, BError (ErrFinishStart e)))))
     | Inr _ \<Rightarrow>
     act (machines_Store sid m) (\<lambda>_.
     act (waitForAgent E (sb_guest_ip sb) agent_deadline) (\<lambda>r. case r of
       Inl e \<Rightarrow> t_bind (destroy_task E cfg sid) (\<lambda>_. Done (500, BError e))
     | Inr _ \<Rightarrow> Done (201, BSandbox (started sb pid rt))))))))"

subsection \<open>Requests\<close>

definition create_task :: "env \<Rightarrow> server_config \<Rightarrow> int request_body \<Rightarrow> response server_task" where
  "create_task E cfg rb =
     act (call E NewUUID) (\<lambda>u. case timeout_of rb of
       Inl e \<Rightarrow> Done (400, BError e)
     | Inr timeout \<Rightarrow>
     act (expires_at E timeout) (\<lambda>expiresAt.
     act (PrepareRootfs E (Prov cfg) (r_out u)) (\<lambda>r. case r of
       Inl e \<Rightarrow> Done (500, BError (ErrPrepareRootfs e))
     | Inr rootfs \<Rightarrow>
     act (reg_Create E cfg (r_out u) rootfs expiresAt) (\<lambda>r. case r of
       Inl e \<Rightarrow> act (CleanupRootfs E (Prov cfg) (r_out u)) (\<lambda>_. Done (500, BError (ErrRegistryCreate e)))
     | Inr sb \<Rightarrow>
     act (CreateTap E (Prov cfg) (sb_tap_device sb)) (\<lambda>r. case r of
       Inl e \<Rightarrow> rollback_task E cfg (r_out u) sb (Done (500, BError (ErrCreateTap e)))
     | Inr _ \<Rightarrow>
     act (randomMAC E) (\<lambda>mac.
     act (NewMachine E (vm_options cfg rootfs sb mac)) (\<lambda>r. case r of
       Inl e \<Rightarrow> rollback_task E cfg (r_out u) sb (Done (500, BError (ErrNewMachine e)))
     | Inr (m, rt) \<Rightarrow> bring_up_task E cfg (r_out u) sb m rt ErrStart 60000000000)))))))"

definition restore_task :: "env \<Rightarrow> server_config \<Rightarrow> string \<Rightarrow> int request_body \<Rightarrow> response server_task" where
  "restore_task E cfg snapID rb =
     act (reg_GetSnapshot E snapID) (\<lambda>r. case r of
       Inl e \<Rightarrow> Done (404, BError (ErrSnapshotNotFound snapID))
     | Inr snap \<Rightarrow> (case timeout_of rb of
       Inl e \<Rightarrow> Done (400, BError e)
     | Inr timeout \<Rightarrow>
     act (expires_at E timeout) (\<lambda>expiresAt.
     act (call E NewUUID) (\<lambda>u.
     act (reg_CreateRestore E cfg (r_out u) snap expiresAt) (\<lambda>r. case r of
       Inl e \<Rightarrow> Done (409, BError (ErrRegistryRestore e))
     | Inr sb \<Rightarrow>
     act (CopyFileSparse E (sn_rootfs_path snap) (sn_source_rootfs_path snap)) (\<lambda>r. case r of
       Inl e \<Rightarrow> rollback_task E cfg (r_out u) sb (Done (500, BError (ErrCopyRootfs e)))
     | Inr _ \<Rightarrow>
     act (CreateTap E (Prov cfg) (sb_tap_device sb)) (\<lambda>r. case r of
       Inl e \<Rightarrow> rollback_task E cfg (r_out u) sb (Done (500, BError (ErrCreateTap e)))
     | Inr _ \<Rightarrow>
     act (NewMachineFromSnapshot E (restore_options cfg (sn_source_rootfs_path snap)) (sn_mem_path snap) (sn_state_path snap)) (\<lambda>r.
       case r of
         Inl e \<Rightarrow> rollback_task E cfg (r_out u) sb (Done (500, BError (ErrNewMachine e)))
       | Inr (m, rt) \<Rightarrow> bring_up_task E cfg (r_out u) sb m rt ErrStart 30000000000))))))))"

definition handleDestroy_task :: "env \<Rightarrow> server_config \<Rightarrow> string \<Rightarrow> response server_task" where
  "handleDestroy_task E cfg sid =
     t_bind (destroy_task E cfg sid) (\<lambda>r. case r of Inl e \<Rightarrow> Done (500, BError e) | Inr _ \<Rightarrow> Done (204, BEmpty))"

definition expose_task :: "env \<Rightarrow> server_config \<Rightarrow> string \<Rightarrow> int request_body \<Rightarrow> response server_task" where
  "expose_task E cfg sid rb =
     (case (case rb of Malformed \<Rightarrow> None | NoBody \<Rightarrow> None | Decoded gp \<Rightarrow> Some gp) of
        None \<Rightarrow> Done (400, BError ErrDecode)
      | Some gp \<Rightarrow>
          if gp < 1 \<or> gp > 65535 then Done (400, BError (ErrInvalidGuestPort gp))
          else
     act (reg_Get E sid) (\<lambda>r. case r of
       Inl e \<Rightarrow> Done (404, BError (ErrRegistry e))
     | Inr sb \<Rightarrow>
         if gp = GuestPort (Network (Prov cfg))
         then Done (200, BPort \<lparr>pm_guest_port = gp, pm_host_port = sb_host_port sb\<rparr>)
         else
     act (reg_Ports E sid) (\<lambda>r. case r of
       Inl e \<Rightarrow> Done (500, BError (ErrRegistry e))
     | Inr existing \<Rightarrow> (case find (\<lambda>pm. pm_guest_port pm = gp) existing of
         Some pm \<Rightarrow> Done (200, BPort pm)
       | None \<Rightarrow>
     act (db_update E (OpAddPort sid gp) (\<lambda>fl. AddPort (RegPools cfg) fl sid gp)) (\<lambda>r. case r of
       Inl e \<Rightarrow> Done (500, BError (ErrAllocatePort e))
     | Inr hostPort \<Rightarrow>
     act (AddPortForwardTo E hostPort (sb_guest_ip sb) gp) (\<lambda>r. case r of
       Inl e \<Rightarrow> act (db_update E (OpDeletePort sid gp) (\<lambda>fl. DeletePort fl sid gp)) (\<lambda>_. Done (500, BError (ErrPortForward e)))
     | Inr _ \<Rightarrow> Done (200, BPort \<lparr>pm_guest_port = gp, pm_host_port = hostPort\<rparr>)))))))"

definition set_timeout_task :: "env \<Rightarrow> string \<Rightarrow> int request_body \<Rightarrow> response server_task" where
  "set_timeout_task E sid rb =
     (case (case rb of NoBody \<Rightarrow> Inl ErrDecode | _ \<Rightarrow> timeout_of rb) of
        Inl e \<Rightarrow> Done (400, BError e)
      | Inr timeout \<Rightarrow>
     act (expires_at E timeout) (\<lambda>expiresAt.
     act (db_update E (OpSetExpiry sid) (\<lambda>fl. SetExpiry fl sid expiresAt)) (\<lambda>r. case r of
       Inl e \<Rightarrow> Done (404, BError (ErrRegistry e))
     | Inr _ \<Rightarrow>
     act (reg_Get E sid) (\<lambda>r. case r of
       Inl e \<Rightarrow> Done (500, BError (ErrRegistry e)) | Inr sb \<Rightarrow> Done (200, BSandbox sb)))))"

definition snapshot_task :: "env \<Rightarrow> server_config \<Rightarrow> string \<Rightarrow> response server_task" where
  "snapshot_task E cfg sid =
     act (reg_Get E sid) (\<lambda>r. case r of
       Inl e \<Rightarrow> Done (404, BError (ErrRegistry e))
     | Inr sb \<Rightarrow>
     act (machines_Load sid) (\<lambda>v. case v of
       None \<Rightarrow> Done (409, BError (ErrNotRunning sid))
     | Some m \<Rightarrow>
     act (call E NewUUID) (\<lambda>u.
     act (SnapshotPaths E (Prov cfg) (r_out u)) (\<lambda>r. case r of
       Inl e \<Rightarrow> Done (500, BError (ErrSnapshotDir e))
     | Inr paths \<Rightarrow>
     act (Pause E (Some m)) (\<lambda>r. case r of
       Inl e \<Rightarrow> Done (500, BError (ErrPause e))
     | Inr _ \<Rightarrow> (case paths of (memPath, statePath, rootfs) \<Rightarrow>
     act (Snapshot E (Some m) memPath statePath) (\<lambda>r. case r of
       Inl e \<Rightarrow>
         act (CleanupSnapshot E (Prov cfg) (r_out u)) (\<lambda>_.
         act (Resume E (Some m)) (\<lambda>_. Done (500, BError (ErrCreateSnapshot e))))
     | Inr _ \<Rightarrow>
     act (CopyFileSparse E (sb_rootfs_path sb) rootfs) (\<lambda>r. case r of
       Inl e \<Rightarrow>
         act (CleanupSnapshot E (Prov cfg) (r_out u)) (\<lambda>_.
         act (Resume E (Some m)) (\<lambda>_. Done (500, BError (ErrFreezeRootfs e))))
     | Inr _ \<Rightarrow>
     act (Resume E (Some m)) (\<lambda>_.
     act (call E Now) (\<lambda>now.
       let snap = snapshot_of (r_out u) sid sb paths (r_num now) in
     act (db_update E (OpCreateSnapshot (sn_id snap)) (\<lambda>fl. CreateSnapshot fl snap)) (\<lambda>r. case r of
       Inl e \<Rightarrow> act (CleanupSnapshot E (Prov cfg) (sn_id snap)) (\<lambda>_. Done (500, BError (ErrRecordSnapshot e)))
     | Inr _ \<Rightarrow> Done (201, BSnapshot snap))))))))))))"

definition delete_snapshot_task :: "env \<Rightarrow> server_config \<Rightarrow> string \<Rightarrow> response server_task" where
  "delete_snapshot_task E cfg snapID =
     act (db_update E (OpDeleteSnapshot snapID) (\<lambda>fl. DeleteSnapshot fl snapID)) (\<lambda>r. case r of
       Inl e \<Rightarrow> Done (404, BError (ErrRegistry e))
     | Inr _ \<Rightarrow> act (CleanupSnapshot E (Prov cfg) snapID) (\<lambda>_. Done (204, BEmpty)))"

text \<open>One tick of the reaper; its list of expired sandboxes is read once, at the beginning.\<close>

fun reap_rest :: "env \<Rightarrow> server_config \<Rightarrow> sandbox list \<Rightarrow> unit server_task" where
  "reap_rest E cfg [] = Done ()"
| "reap_rest E cfg (sb # sbs) = t_bind (destroy_task E cfg (sb_id sb)) (\<lambda>_. reap_rest E cfg sbs)"

definition reap_task :: "env \<Rightarrow> server_config \<Rightarrow> int \<Rightarrow> unit server_task" where
  "reap_task E cfg now = act (db_query E OpExpired (\<lambda>fl. Expired fl now))
     (\<lambda>r. case r of Inl e \<Rightarrow> Done () | Inr expired \<Rightarrow> reap_rest E cfg expired)"

subsection \<open>Clones\<close>

definition clone_task :: "env \<Rightarrow> server_config \<Rightarrow> snapshot \<Rightarrow> int option \<Rightarrow> clone server_task" where
  "clone_task E cfg snap expiresAt =
     act (call E NewUUID) (\<lambda>u.
     act (reg_Create E cfg (r_out u) (RootfsPathFor (Prov cfg) (r_out u)) expiresAt) (\<lambda>r. case r of
       Inl e \<Rightarrow> Done (Inl (ErrRegistryCreate e))
     | Inr sb \<Rightarrow>
     act (CloneRootfs E (Prov cfg) (r_out u) (sn_rootfs_path snap)) (\<lambda>r. case r of
       Inl e \<Rightarrow> rollback_task E cfg (r_out u) sb (Done (Inl (ErrCloneRootfs e)))
     | Inr _ \<Rightarrow>
     act (CreateTapUnbridged E (sb_tap_device sb)) (\<lambda>r. case r of
       Inl e \<Rightarrow> rollback_task E cfg (r_out u) sb (Done (Inl (ErrCreateTap e)))
     | Inr _ \<Rightarrow>
     act (randomMAC E) (\<lambda>mac.
     act (StartClone E ((VMTemplate cfg)\<lparr>SocketPath := ''''\<rparr>)
       (clone_of cfg snap (r_out u) (RootfsPathFor (Prov cfg) (r_out u)) sb mac)) (\<lambda>r. case r of
       Inl e \<Rightarrow> rollback_task E cfg (r_out u) sb (Done (Inl (ErrStartClone e)))
     | Inr (m, rt) \<Rightarrow> Done (Inr (sb, m, rt))))))))"

definition finish_task :: "env \<Rightarrow> server_config \<Rightarrow> sandbox \<Rightarrow> machine \<Rightarrow> runtime_config
    \<Rightarrow> (server_error, unit) result server_task" where
  "finish_task E cfg sb m rt =
     act (PID E (Some m)) (\<lambda>r. case r of
       Inl e \<Rightarrow> act (StopForce E (Some m)) (\<lambda>_. Done (Inl (ErrPid e)))
     | Inr pid \<Rightarrow>
     act (AttachTapToBridge E (Prov cfg) (sb_tap_device sb)) (\<lambda>r. case r of
       Inl e \<Rightarrow> act (StopForce E (Some m)) (\<lambda>_. Done (Inl (ErrAttachTap e)))
     | Inr _ \<Rightarrow>
     act (AddPortForward E (Prov cfg) (sb_host_port sb) (sb_guest_ip sb)) (\<lambda>r. case r of
       Inl e \<Rightarrow> act (StopForce E (Some m)) (\<lambda>_. Done (Inl (ErrPortForward e)))
     | Inr _ \<Rightarrow>
     act (reg_FinishStart E (sb_id sb) pid rt) (\<lambda>r. case r of
       Inl e \<Rightarrow> act (StopForce E (Some m)) (\<lambda>_. Done (Inl (ErrFinishStart e)))
     | Inr _ \<Rightarrow>
     act (machines_Store (sb_id sb) m) (\<lambda>_.
     act (waitForAgent E (sb_guest_ip sb) 30000000000) Done)))))"

text \<open>A goroutine of the second phase: the sandbox when it is live, else it is destroyed.\<close>

definition live_task :: "env \<Rightarrow> server_config \<Rightarrow> sandbox \<times> machine \<times> runtime_config \<Rightarrow> sandbox option server_task" where
  "live_task E cfg c = (case c of (sb, m, rt) \<Rightarrow>
     t_bind (finish_task E cfg sb m rt) (\<lambda>r. case r of
       Inl e \<Rightarrow> t_bind (destroy_task E cfg (sb_id sb)) (\<lambda>_. Done None)
     | Inr _ \<Rightarrow> Done (Some sb)))"

subsection \<open>What runs at the same time\<close>

datatype job =
    JCreate "int request_body" | JRestore string "int request_body" | JDestroy string
  | JExpose string "int request_body" | JSetTimeout string "int request_body"
  | JSnapshot string | JDeleteSnapshot string | JReap int
  | JClone snapshot "int option" | JLive "sandbox \<times> machine \<times> runtime_config"

datatype job_result = Responded response | Ticked | Cloned clone | Finished "sandbox option"

fun job_task :: "env \<Rightarrow> server_config \<Rightarrow> job \<Rightarrow> job_result server_task" where
  "job_task E cfg (JCreate rb) = t_bind (create_task E cfg rb) (\<lambda>r. Done (Responded r))"
| "job_task E cfg (JRestore snapID rb) = t_bind (restore_task E cfg snapID rb) (\<lambda>r. Done (Responded r))"
| "job_task E cfg (JDestroy sid) = t_bind (handleDestroy_task E cfg sid) (\<lambda>r. Done (Responded r))"
| "job_task E cfg (JExpose sid rb) = t_bind (expose_task E cfg sid rb) (\<lambda>r. Done (Responded r))"
| "job_task E cfg (JSetTimeout sid rb) = t_bind (set_timeout_task E sid rb) (\<lambda>r. Done (Responded r))"
| "job_task E cfg (JSnapshot sid) = t_bind (snapshot_task E cfg sid) (\<lambda>r. Done (Responded r))"
| "job_task E cfg (JDeleteSnapshot snapID) = t_bind (delete_snapshot_task E cfg snapID) (\<lambda>r. Done (Responded r))"
| "job_task E cfg (JReap now) = t_bind (reap_task E cfg now) (\<lambda>_. Done Ticked)"
| "job_task E cfg (JClone snap e) = t_bind (clone_task E cfg snap e) (\<lambda>c. Done (Cloned c))"
| "job_task E cfg (JLive c) = t_bind (live_task E cfg c) (\<lambda>x. Done (Finished x))"

text \<open>Every job starts at once and takes its turns as the schedule has it.\<close>

definition run_jobs :: "env \<Rightarrow> server_config \<Rightarrow> job list \<Rightarrow> nat list \<Rightarrow> server \<Rightarrow> (server, job_result) pool \<times> server" where
  "run_jobs E cfg jobs sched s = run_schedule (length jobs) sched (spawn (map (job_task E cfg) jobs), s)"

subsection \<open>Run alone, a task is its handler\<close>

named_theorems alone \<open>tasks run alone\<close>

lemma run_sum [alone]:
  "run_task (case r of Inl e \<Rightarrow> f e | Inr v \<Rightarrow> g v) = (case r of Inl e \<Rightarrow> run_task (f e) | Inr v \<Rightarrow> run_task (g v))"
  "run_task (case x of None \<Rightarrow> n | Some w \<Rightarrow> h w) = (case x of None \<Rightarrow> run_task n | Some w \<Rightarrow> run_task (h w))"
  "run_task (case p of (a, b) \<Rightarrow> j a b) = (case p of (a, b) \<Rightarrow> run_task (j a b))"
  "run_task (if b then t else u) = (if b then run_task t else run_task u)"
  by (simp_all split: sum.split option.split prod.split)

lemma bind_assoc: "State_Monad.bind (State_Monad.bind m f) g = State_Monad.bind m (\<lambda>x. State_Monad.bind (f x) g)"
  by (rule state_ext) (simp split: prod.split)

lemma bind_return: "State_Monad.bind (return x) f = f x" "State_Monad.bind m return = m"
  by (rule state_ext, simp split: prod.split)+

lemma rollback_alone [alone]:
  "run_task (rollback_task E cfg sid sb k) = do { _ \<leftarrow> rollbackPreVM E cfg sid sb; run_task k }"
  by (simp add: rollback_task_def rollbackPreVM_def bind_assoc bind_return)

lemma destroy_alone [alone]: "run_task (destroy_task E cfg sid) = destroy E cfg sid"
  by (simp add: destroy_task_def destroy_def alone cong: sum.case_cong)

lemma bring_up_alone [alone]: "run_task (bring_up_task E cfg sid sb m rt err n) = bring_up E cfg sid sb m rt err n"
  by (simp add: bring_up_task_def bring_up_def alone cong: sum.case_cong)

lemma requests_alone:
  "run_task (create_task E cfg rb) = handleCreate E cfg rb"
  "run_task (restore_task E cfg snapID rb) = handleRestore E cfg snapID rb"
  "run_task (expose_task E cfg sid rb) = handleExposePort E cfg sid rb"
  "run_task (set_timeout_task E sid rb) = handleSetTimeout E sid rb"
  "run_task (handleDestroy_task E cfg sid) = handleDestroy E cfg sid"
  "run_task (snapshot_task E cfg sid) = handleSnapshot E cfg sid"
  "run_task (delete_snapshot_task E cfg snapID) = handleDeleteSnapshot E cfg snapID"
  by (simp_all add: create_task_def handleCreate_def restore_task_def handleRestore_def expose_task_def
      handleExposePort_def set_timeout_task_def handleSetTimeout_def handleDestroy_task_def handleDestroy_def
      snapshot_task_def handleSnapshot_def paused_part_def record_snapshot_def delete_snapshot_task_def handleDeleteSnapshot_def alone Let_def cong: sum.case_cong option.case_cong prod.case_cong if_cong)

lemma clones_alone [alone]:
  "run_task (clone_task E cfg snap e) = bringUpClone E cfg snap e"
  "run_task (finish_task E cfg sb m rt) = finishClone E cfg sb m rt"
  by (simp_all add: clone_task_def bringUpClone_def finish_task_def finishClone_def alone Let_def bind_return
      cong: sum.case_cong option.case_cong prod.case_cong)

lemma reap_rest_alone: "run_task (reap_rest E cfg sbs) = each (\<lambda>sb. destroy E cfg (sb_id sb)) sbs"
  by (induction sbs) (simp_all add: alone)

lemma reap_alone: "run_task (reap_task E cfg now) = reap_tick E cfg now"
  by (simp add: reap_task_def reap_tick_def reap_rest_alone alone cong: sum.case_cong)

lemma live_alone:
  "run_task (live_task E cfg (sb, m, rt)) = do {
     r \<leftarrow> finishClone E cfg sb m rt;
     (case r of Inl e \<Rightarrow> do { _ \<leftarrow> destroy E cfg (sb_id sb); return None } | Inr _ \<Rightarrow> return (Some sb))
   }"
  by (simp add: live_task_def alone cong: sum.case_cong)

end
