(* ===== verification/Claims.thy ===== *)
theory Claims
  imports Concurrent
begin

text \<open>
  Who may touch what when handlers run at the same time. The ghost of a task is its claim:
  the row of the one sandbox it is creating or has been asked for, and whether a machine is
  tracked for it. Claims are disjoint; each claimed row is in the table as claimed; without
  the claimed rows the database is the one the pool started with, less the sandboxes it was
  asked for; and so are the machines. Each step a task takes keeps this.
\<close>

subsection \<open>Claims\<close>

type_synonym claim = "(sandbox_row \<times> bool) option"

definition claim_ids :: "claim \<Rightarrow> string set" where
  "claim_ids g = (case g of None \<Rightarrow> {} | Some (r, b) \<Rightarrow> {c_id r})"

lemma claim_ids_simps [simp]: "claim_ids None = {}" "claim_ids (Some (r, b)) = {c_id r}"
  by (simp_all add: claim_ids_def)

definition claimed :: "claim list \<Rightarrow> string set" where
  "claimed gs = (\<Union>g \<in> set gs. claim_ids g)"

definition claim_holds :: "server \<Rightarrow> claim \<Rightarrow> bool" where
  "claim_holds s g \<longleftrightarrow> (\<forall>r b. g = Some (r, b) \<longrightarrow>
     find_sandbox (c_id r) (reg_db s) = Some r \<and> (machines s (c_id r) \<noteq> None) = b)"

definition disjoint_claims :: "claim list \<Rightarrow> bool" where
  "disjoint_claims gs \<longleftrightarrow>
     (\<forall>i < length gs. \<forall>j < length gs. i \<noteq> j \<longrightarrow> claim_ids (gs ! i) \<inter> claim_ids (gs ! j) = {})"

definition claims_inv :: "registry_db \<Rightarrow> (string \<Rightarrow> machine option) \<Rightarrow> claim list \<Rightarrow> server \<Rightarrow> bool" where
  "claims_inv B M gs s \<longleftrightarrow> registry_ok (reg_db s) \<and> disjoint_claims gs \<and> (\<forall>g \<in> set gs. claim_holds s g) \<and>
     delete_all (claimed gs) (reg_db s) = B \<and> (\<forall>x. x \<notin> claimed gs \<longrightarrow> machines s x = M x) \<and>
     (\<forall>x. find_sandbox x B = None \<longrightarrow> M x = None)"

lemma claimed_nth: "claimed gs = (\<Union>j \<in> {..<length gs}. claim_ids (gs ! j))"
  by (simp add: claimed_def set_conv_nth) blast

lemma claim_in: "i < length gs \<Longrightarrow> claim_ids (gs ! i) \<subseteq> claimed gs"
  unfolding claimed_nth by blast

lemma claimed_update:
  assumes "disjoint_claims gs" "i < length gs"
  shows "claimed (gs[i := g']) = (claimed gs - claim_ids (gs ! i)) \<union> claim_ids g'"
proof -
  have apart: "claim_ids (gs ! j) \<inter> claim_ids (gs ! i) = {}" if "j < length gs" "j \<noteq> i" for j
    using assms that by (auto simp: disjoint_claims_def)
  have "x \<in> claimed (gs[i := g']) \<longleftrightarrow> x \<in> claim_ids g' \<or> (\<exists>j < length gs. j \<noteq> i \<and> x \<in> claim_ids (gs ! j))" for x
    using assms(2) unfolding claimed_nth by (auto simp: nth_list_update split: if_splits)
  moreover have "x \<in> claimed gs - claim_ids (gs ! i) \<longleftrightarrow> (\<exists>j < length gs. j \<noteq> i \<and> x \<in> claim_ids (gs ! j))" for x
    using apart unfolding claimed_nth by blast
  ultimately show ?thesis by blast
qed

text \<open>A task that changes only what it claims before or after the change.\<close>

lemma claims_base:
  assumes "delete_all (C \<union> D) db = B" "registry_ok db" "registry_ok db'"
    and "delete_all (D \<union> D') db' = delete_all (D \<union> D') db"
    and "\<And>x. x \<in> D' - D \<Longrightarrow> find_sandbox x db = None" "\<And>x. x \<in> D - D' \<Longrightarrow> find_sandbox x db' = None"
  shows "delete_all (C \<union> D') db' = B"
proof -
  have "delete_all (C \<union> D') db' = delete_all (C \<union> (D \<union> D')) db'"
    by (rule delete_all_shrink [OF assms(3), symmetric]) (use assms(6) in auto)
  also have "\<dots> = delete_all C (delete_all (D \<union> D') db')" by (simp add: delete_all_union)
  also have "\<dots> = delete_all (C \<union> (D \<union> D')) db" by (simp add: assms(4) delete_all_union)
  also have "\<dots> = delete_all (C \<union> D) db"
    by (rule delete_all_shrink [OF assms(2)]) (use assms(5) in auto)
  finally show ?thesis using assms(1) by simp
qed

text \<open>The other claims, when one is exchanged.\<close>

lemma claims_others:
  assumes "disjoint_claims gs" "i < length gs" "claimed gs \<inter> (claim_ids g' - claim_ids (gs ! i)) = {}"
  shows "disjoint_claims (gs[i := g'])"
    and "h \<in> set (gs[i := g']) \<Longrightarrow> h = g' \<or> h \<in> set gs \<and> claim_ids h \<inter> (claim_ids (gs ! i) \<union> claim_ids g') = {}"
proof -
  have apart: "claim_ids (gs ! j) \<inter> (claim_ids (gs ! i) \<union> claim_ids g') = {}" if "j < length gs" "j \<noteq> i" for j
    using assms that claim_in [OF that(1)] unfolding disjoint_claims_def by blast
  then show "disjoint_claims (gs[i := g'])"
    using assms(1,2) unfolding disjoint_claims_def by (auto simp: nth_list_update)
  assume "h \<in> set (gs[i := g'])"
  then obtain j where "j < length gs" "h = gs[i := g'] ! j" by (auto simp: in_set_conv_nth)
  then show "h = g' \<or> h \<in> set gs \<and> claim_ids h \<inter> (claim_ids (gs ! i) \<union> claim_ids g') = {}"
    using apart [of j] by (cases "j = i") auto
qed

lemma claims_change:
  assumes inv: "claims_inv B M gs s" and i: "i < length gs" and g: "gs ! i = g"
    and ok: "registry_ok (reg_db t)"
    and rows: "delete_all (claim_ids g \<union> claim_ids g') (reg_db t) = delete_all (claim_ids g \<union> claim_ids g') (reg_db s)"
    and ms: "\<And>x. x \<notin> claim_ids g \<union> claim_ids g' \<Longrightarrow> machines t x = machines s x"
    and new: "\<And>x. x \<in> claim_ids g' - claim_ids g \<Longrightarrow> find_sandbox x (reg_db s) = None"
    and old: "\<And>x. x \<in> claim_ids g - claim_ids g' \<Longrightarrow> find_sandbox x (reg_db t) = None \<and> machines t x = None"
    and holds: "claim_holds t g'"
  shows "claims_inv B M (gs[i := g']) t"
proof -
  let ?C = "claimed gs - claim_ids g"
  note I = inv [unfolded claims_inv_def]
  have upd: "claimed (gs[i := g']) = ?C \<union> claim_ids g'"
    using claimed_update [of gs i g'] I i g by simp
  have all: "claimed gs = ?C \<union> claim_ids g" using claim_in [OF i] g by auto
  have "find_sandbox x (reg_db s) \<noteq> None" if "x \<in> claimed gs" for x
    using that I unfolding claimed_def claim_holds_def by (auto simp: claim_ids_def split: option.splits)
  then have fresh: "claimed gs \<inter> (claim_ids g' - claim_ids (gs ! i)) = {}" using new g by fastforce
  note others = claims_others [OF _ i fresh]
  have base: "delete_all (claimed (gs[i := g'])) (reg_db t) = B"
    unfolding upd by (rule claims_base [of _ "claim_ids g" "reg_db s"]) (use I all ok rows new old in auto)
  have "claim_holds t h" if "h \<in> set (gs[i := g'])" for h
  proof (cases "h = g'")
    case False
    then have "h \<in> set gs" "\<And>x. x \<in> claim_ids h \<Longrightarrow> x \<notin> claim_ids g \<union> claim_ids g'"
      using others(2) [OF _ that] I g by auto
    then show ?thesis
      using I find_outside [OF _ rows] ms unfolding claim_holds_def by (cases h) (auto dest!: bspec)
  qed (simp add: holds)
  moreover have "machines t x = M x" if "x \<notin> claimed (gs[i := g'])" for x
  proof (cases "x \<in> claim_ids g")
    case True
    then have "find_sandbox x B = None" using I all by (metis UnI2 find_delete_all)
    then show ?thesis using True that upd old [of x] I by auto
  next
    case False
    then show ?thesis using that upd all ms [of x] I by auto
  qed
  ultimately show ?thesis using ok base I others(1) by (simp add: claims_inv_def)
qed

subsection \<open>Atomic steps\<close>

lemma claims_host:
  "claims_inv B M gs s \<Longrightarrow> reg_db t = reg_db s \<Longrightarrow> machines t = machines s \<Longrightarrow> claims_inv B M gs t"
  unfolding claims_inv_def claim_holds_def by simp

lemma claims_holdD: "claims_inv B M gs s \<Longrightarrow> i < length gs \<Longrightarrow> gs ! i = g \<Longrightarrow> claim_holds s g"
  unfolding claims_inv_def by (metis nth_mem)

lemma safe_host:
  assumes "state_io_rel host_only m" and "\<And>r. safe (claims_inv B M) Q (k r) g"
  shows "safe (claims_inv B M) Q (act m k) g"
proof (rule safe_act)
  fix gs i s r s' assume s: "claims_inv B M gs s" "i < length gs" "gs ! i = g" and run: "run_state m s = (r, s')"
  have "host_only s s'" by (rule host_frame.io_run [OF assms(1) run])
  then have "claims_inv B M gs s'" using claims_host [OF s(1)] host_onlyD by blast
  then show "\<exists>g'. claims_inv B M (gs[i := g']) s' \<and> safe (claims_inv B M) Q (k r) g'"
    using assms(2) s(2,3) by (intro exI [of _ g]) auto
qed

lemma safe_query:
  assumes "\<And>h s. registry_ok (reg_db s) \<Longrightarrow> claim_holds s g \<Longrightarrow> safe (claims_inv B M) Q (k (f (db_faults E h op) (reg_db s))) g"
  shows "safe (claims_inv B M) Q (act (db_query E op f) k) g"
proof (rule safe_act)
  fix gs i s r s' assume s: "claims_inv B M gs s" "i < length gs" "gs ! i = g" and run: "run_state (db_query E op f) s = (r, s')"
  have r: "r = f (db_faults E (calls s) op) (reg_db s)" "reg_db s' = reg_db s" "machines s' = machines s"
    using run by (auto simp: db_query_def)
  have "safe (claims_inv B M) Q (k r) g"
    using assms [of s "calls s"] claims_holdD [OF s] s(1) r(1) by (simp add: claims_inv_def)
  then show "\<exists>g'. claims_inv B M (gs[i := g']) s' \<and> safe (claims_inv B M) Q (k r) g'"
    using claims_host [OF s(1) r(2,3)] s(2,3) by (intro exI [of _ g]) auto
qed

text \<open>An operation of the registry on what is claimed before or after it.\<close>

definition row_change :: "registry_db \<Rightarrow> claim \<Rightarrow> registry_db \<Rightarrow> claim \<Rightarrow> bool" where
  "row_change d g d' g' \<longleftrightarrow> registry_ok d' \<and>
     delete_all (claim_ids g \<union> claim_ids g') d' = delete_all (claim_ids g \<union> claim_ids g') d \<and>
     (\<forall>x \<in> claim_ids g' - claim_ids g. find_sandbox x d = None) \<and>
     (\<forall>x \<in> claim_ids g - claim_ids g'. find_sandbox x d' = None) \<and>
     (\<forall>r b. g' = Some (r, b) \<longrightarrow> find_sandbox (c_id r) d' = Some r \<and> (case g of None \<Rightarrow> \<not> b | Some (q, c) \<Rightarrow> c_id q = c_id r \<and> b = c)) \<and>
     (\<forall>q c. g = Some (q, c) \<longrightarrow> g' = None \<longrightarrow> \<not> c)"

lemma safe_update:
  assumes step: "\<And>fl d r d'. registry_ok d \<Longrightarrow> (\<forall>q c. g = Some (q, c) \<longrightarrow> find_sandbox (c_id q) d = Some q) \<Longrightarrow> f fl d = (r, d') \<Longrightarrow>
      (\<exists>h. fl = db_faults E h op) \<Longrightarrow> \<exists>g'. row_change d g d' g' \<and> safe (claims_inv B M) Q (k r) g'"
  shows "safe (claims_inv B M) Q (act (db_update E op f) k) g"
proof (rule safe_act)
  fix gs i s r s' assume s: "claims_inv B M gs s" "i < length gs" "gs ! i = g" and run: "run_state (db_update E op f) s = (r, s')"
  have s': "f (db_faults E (calls s) op) (reg_db s) = (r, reg_db s')" "machines s' = machines s"
    using run by (auto simp: db_update_def split: prod.splits)
  note holds = claims_holdD [OF s]
  from step [OF _ _ s'(1)] obtain g' where g': "row_change (reg_db s) g (reg_db s') g'" "safe (claims_inv B M) Q (k r) g'"
    using s(1) holds by (auto simp: claims_inv_def claim_holds_def)
  note ch = g'(1) [unfolded row_change_def]
  have free: "machines s x = None" if "find_sandbox x (reg_db s) = None" for x
  proof -
    have "x \<notin> claimed gs"
      using s(1) that unfolding claims_inv_def claim_holds_def claimed_def by (force simp: claim_ids_def split: option.splits)
    moreover have "find_sandbox x B = None"
      using s(1) that by (auto simp: claims_inv_def find_delete_all)
    ultimately show ?thesis using s(1) by (simp add: claims_inv_def)
  qed
  have "claims_inv B M (gs[i := g']) s'"
  proof (rule claims_change [OF s])
    show "claim_holds s' g'"
      unfolding claim_holds_def
    proof (intro allI impI)
      fix r b assume "g' = Some (r, b)"
      then show "find_sandbox (c_id r) (reg_db s') = Some r \<and> (machines s' (c_id r) \<noteq> None) = b"
        using ch holds free [of "c_id r"] s'(2) by (cases g) (auto simp: claim_holds_def)
    qed
    show "find_sandbox x (reg_db s') = None \<and> machines s' x = None" if x: "x \<in> claim_ids g - claim_ids g'" for x
    proof -
      obtain q c where g: "g = Some (q, c)" "x = c_id q" using x by (cases g) auto
      then have "\<not> c" using x ch by (cases g') auto
      then show ?thesis using g x ch holds s'(2) by (auto simp: claim_holds_def)
    qed
  qed (use ch s'(2) in auto)
  then show "\<exists>g'. claims_inv B M (gs[i := g']) s' \<and> safe (claims_inv B M) Q (k r) g'"
    using g'(2) by blast
qed

lemma safe_store:
  assumes "c_id r = sid" "safe (claims_inv B M) Q (k ()) (Some (r, True))"
  shows "safe (claims_inv B M) Q (act (machines_Store sid m) k) (Some (r, b))"
proof (rule safe_act)
  fix gs i s u s' assume s: "claims_inv B M gs s" "i < length gs" "gs ! i = Some (r, b)"
    and run: "run_state (machines_Store sid m) s = (u, s')"
  have "claims_inv B M (gs[i := Some (r, True)]) s'"
    by (rule claims_change [OF s]) (use run s(1) assms(1) claims_holdD [OF s] in \<open>auto simp: machines_Store_def claims_inv_def claim_holds_def\<close>)
  then show "\<exists>g'. claims_inv B M (gs[i := g']) s' \<and> safe (claims_inv B M) Q (k u) g'"
    using assms(2) by auto
qed

lemma safe_load_delete:
  assumes "c_id r = sid" "\<And>v. safe (claims_inv B M) Q (k v) (Some (r, False))"
  shows "safe (claims_inv B M) Q (act (machines_LoadAndDelete sid) k) (Some (r, b))"
proof (rule safe_act)
  fix gs i s u s' assume s: "claims_inv B M gs s" "i < length gs" "gs ! i = Some (r, b)"
    and run: "run_state (machines_LoadAndDelete sid) s = (u, s')"
  have "claims_inv B M (gs[i := Some (r, False)]) s'"
    by (rule claims_change [OF s]) (use run s(1) assms(1) claims_holdD [OF s] in \<open>auto simp: machines_LoadAndDelete_def claims_inv_def claim_holds_def\<close>)
  then show "\<exists>g'. claims_inv B M (gs[i := g']) s' \<and> safe (claims_inv B M) Q (k u) g'"
    using assms(2) by auto
qed

text \<open>Two steps in one.\<close>

lemma safe_actD:
  "safe I Q (act m k) g \<Longrightarrow> I gs s \<Longrightarrow> i < length gs \<Longrightarrow> gs ! i = g \<Longrightarrow>
     \<exists>g'. I (gs[i := g']) (snd (run_state m s)) \<and> safe I Q (k (fst (run_state m s))) g'"
  unfolding act_def by (erule safe.cases) auto

lemma safe_merge:
  assumes "safe I Q (act m (\<lambda>x. act (f x) k)) g"
  shows "safe I Q (act (State_Monad.bind m f) k) g"
proof (rule safe_act)
  fix gs i s r s' assume s: "I gs s" "i < length gs" "gs ! i = g"
    and run: "run_state (State_Monad.bind m f) s = (r, s')"
  from safe_actD [OF assms s] obtain g1 where
    g1: "I (gs[i := g1]) (snd (run_state m s))" "safe I Q (act (f (fst (run_state m s))) k) g1" by blast
  from safe_actD [OF g1(2,1), of i] s(2) run show "\<exists>g'. I (gs[i := g']) s' \<and> safe I Q (k r) g'"
    by (auto split: prod.splits)
qed

subsection \<open>The operations the tasks use\<close>

lemma change_none: "registry_ok d \<Longrightarrow> (\<forall>q c. g = Some (q, c) \<longrightarrow> find_sandbox (c_id q) d = Some q) \<Longrightarrow> row_change d g d g" if "g \<noteq> None"
  using that by (cases g) (auto simp: row_change_def)

lemma change_allocate:
  assumes "registry_ok d" "allocated d sid sb d'"
  shows "\<exists>r. row_change d None d' (Some (r, False)) \<and> c_id r = sid \<and> scanSandbox r = whole_seconds sb"
proof -
  obtain r where r: "scanSandbox r = whole_seconds sb" "c_id r = sid"
    "\<And>x. find_sandbox x d' = (if x = sid then Some r else find_sandbox x d)" "find_sandbox sid d = None"
    using allocated_find [OF assms(2)] by metis
  have "delete_all {sid} d' = delete_all {sid} d"
    using delete_all_allocated [OF assms] delete_all_unknown [OF assms(1) r(4)] by simp
  with r allocated_ok [OF assms] show ?thesis
    by (intro exI [of _ r]) (auto simp: row_change_def)
qed

lemma change_destroy:
  assumes "registry_ok d" "find_sandbox (c_id r) d = Some r"
  shows "Destroy no_faults (c_id r) d = (Inr (), delete_all {c_id r} d)" "row_change d (Some (r, False)) (delete_all {c_id r} d) None"
  using assms by (auto simp: row_change_def Destroy_no_faults delete_all_single [symmetric] registry_ok_delete_all1
      delete_all_union find_delete_all)

lemma change_started:
  assumes "registry_ok d" "find_sandbox (c_id r) d = Some r"
  shows "row_change d (Some (r, b)) (update_sandbox (c_id r) (set_started pid rt) d) (Some (set_started pid rt r, b))"
  using assms registry_ok_started [OF assms(1)]
  by (auto simp: row_change_def delete_all_update find_after_update)

lemma safe_create:
  assumes "\<And>e. safe (claims_inv B M) Q (k (Inl e)) None"
    and "\<And>sb r. c_id r = sid \<Longrightarrow> sb_id sb = sid \<Longrightarrow> scanSandbox r = whole_seconds sb \<Longrightarrow> no_process sb \<Longrightarrow>
      safe (claims_inv B M) Q (k (Inr sb)) (Some (r, False))"
  shows "safe (claims_inv B M) Q (act (reg_Create E cfg sid path e) k) None"
proof -
  have "safe (claims_inv B M) Q (act (call E Now) (\<lambda>now. act (db_update E (OpCreate sid)
      (\<lambda>fl. Create (RegPools cfg) fl (r_num now) sid path e)) k)) None"
  proof (rule safe_host [OF call_host_only], rule safe_update)
    fix now :: reply and fl d r d'
    assume d: "registry_ok d" and run: "Create (RegPools cfg) fl (r_num now) sid path e d = (r, d')"
    show "\<exists>g'. row_change d None d' g' \<and> safe (claims_inv B M) Q (k r) g'"
    proof (cases r)
      case (Inl x)
      then have "d' = d" using run Create_error by auto
      then show ?thesis using d assms(1) Inl by (intro exI [of _ None]) (simp add: row_change_def)
    next
      case (Inr sb)
      note al = Create_allocated [OF run [unfolded Inr], THEN conjunct1]
      have "sb_id sb = sid" using al by (auto simp: allocated_def)
      then show ?thesis
        using change_allocate [OF d al] assms(2) Create_no_process [OF run [unfolded Inr]] Inr by blast
    qed
  qed
  then show ?thesis unfolding reg_Create_def by (rule safe_merge)
qed

lemma safe_restore:
  assumes "\<And>e. safe (claims_inv B M) Q (k (Inl e)) None"
    and "\<And>sb r. c_id r = sid \<Longrightarrow> sb_id sb = sid \<Longrightarrow> scanSandbox r = whole_seconds sb \<Longrightarrow>
      safe (claims_inv B M) Q (k (Inr sb)) (Some (r, False))"
  shows "safe (claims_inv B M) Q (act (reg_CreateRestore E cfg sid snap e) k) None"
proof -
  have "safe (claims_inv B M) Q (act (call E Now) (\<lambda>now. act (db_update E (OpCreateRestore sid)
      (\<lambda>fl. CreateRestore (RegPools cfg) fl (r_num now) sid (sn_source_rootfs_path snap) (sn_tap_device snap) (sn_guest_ip snap) e)) k)) None"
  proof (rule safe_host [OF call_host_only], rule safe_update)
    fix now :: reply and fl d r d'
    assume d: "registry_ok d" and run: "CreateRestore (RegPools cfg) fl (r_num now) sid (sn_source_rootfs_path snap)
      (sn_tap_device snap) (sn_guest_ip snap) e d = (r, d')"
    show "\<exists>g'. row_change d None d' g' \<and> safe (claims_inv B M) Q (k r) g'"
    proof (cases r)
      case (Inl x)
      then have "d' = d" using run by (auto elim: CreateRestore_cases)
      then show ?thesis using d assms(1) Inl by (intro exI [of _ None]) (simp add: row_change_def)
    next
      case (Inr sb)
      note al = CreateRestore_allocated [OF run [unfolded Inr], THEN conjunct1]
      have "sb_id sb = sid" using al by (auto simp: allocated_def)
      then show ?thesis using change_allocate [OF d al] assms(2) Inr by blast
    qed
  qed
  then show ?thesis unfolding reg_CreateRestore_def by (rule safe_merge)
qed

lemma safe_reg_Destroy:
  assumes "cleanup_ok E" "c_id r = sid" "safe (claims_inv B M) Q (k (Inr ())) None"
  shows "safe (claims_inv B M) Q (act (reg_Destroy E sid) k) (Some (r, False))"
  unfolding reg_Destroy_def
proof (rule safe_update)
  fix fl d x d'
  assume "registry_ok d" "\<forall>q c. Some (r, False) = Some (q, c) \<longrightarrow> find_sandbox (c_id q) d = Some q"
    "Destroy fl sid d = (x, d')" "\<exists>h. fl = db_faults E h (OpDestroy sid)"
  then show "\<exists>g'. row_change d (Some (r, False)) d' g' \<and> safe (claims_inv B M) Q (k x) g'"
    using change_destroy [of d r] assms by (intro exI [of _ None]) auto
qed

lemma safe_FinishStart:
  assumes "c_id r = sid" "\<And>e. safe (claims_inv B M) Q (k (Inl e)) (Some (r, b))"
    and "safe (claims_inv B M) Q (k (Inr ())) (Some (set_started pid rt r, b))"
  shows "safe (claims_inv B M) Q (act (reg_FinishStart E sid pid rt) k) (Some (r, b))"
  unfolding reg_FinishStart_def
proof (rule safe_update)
  fix fl d x d'
  assume d: "registry_ok d" "\<forall>q c. Some (r, b) = Some (q, c) \<longrightarrow> find_sandbox (c_id q) d = Some q"
    and run: "FinishStart fl sid pid (rt_VMID rt) (rt_SocketPath rt) d = (x, d')"
  have found: "find_sandbox (c_id r) d = Some r" using d(2) by simp
  then have "find_sandbox sid d \<noteq> None" using assms(1) by simp
  from FinishStart_cases [OF this, of fl pid rt]
  show "\<exists>g'. row_change d (Some (r, b)) d' g' \<and> safe (claims_inv B M) Q (k x) g'"
  proof
    assume "\<exists>e. FinishStart fl sid pid (rt_VMID rt) (rt_SocketPath rt) d = (Inl e, d)"
    then obtain e where "x = Inl e" "d' = d" using run by auto
    then show ?thesis using change_none [OF _ d] assms(2) by (intro exI [of _ "Some (r, b)"]) simp
  next
    assume "FinishStart fl sid pid (rt_VMID rt) (rt_SocketPath rt) d = (Inr (), update_sandbox sid (set_started pid rt) d)"
    then have "x = Inr ()" "d' = update_sandbox sid (set_started pid rt) d" using run by auto
    then show ?thesis
      using change_started [OF d(1) found, of b pid rt] assms(1,3) by (intro exI [of _ "Some (set_started pid rt r, b)"]) simp
  qed
qed

lemma safe_Get:
  assumes "cleanup_ok E" "c_id r = sid" "safe (claims_inv B M) Q (k (Inr (scanSandbox r))) (Some (r, b))"
  shows "safe (claims_inv B M) Q (act (reg_Get E sid) k) (Some (r, b))"
  unfolding reg_Get_def
  by (rule safe_query) (use assms in \<open>auto simp: claim_holds_def Get_no_faults\<close>)

lemma safe_any_query:
  "(\<And>x. safe (claims_inv B M) Q (k x) g) \<Longrightarrow> safe (claims_inv B M) Q (act (db_query E op f) k) g"
  by (rule safe_query)

subsection \<open>The tasks\<close>

lemma rollback_safe:
  assumes "cleanup_ok E" "c_id r = sid" "safe (claims_inv B M) Q k None"
  shows "safe (claims_inv B M) Q (rollback_task E cfg sid sb k) (Some (r, False))"
  unfolding rollback_task_def by (intro safe_host io_host safe_reg_Destroy assms)

lemma stop_host_only: "state_io_rel host_only (case v of None \<Rightarrow> return () | Some m \<Rightarrow> stop_machine E m)"
  by (intro host_frame.io_intros io_host)

lemma destroy_safe:
  assumes "cleanup_ok E" "c_id r = sid"
  shows "safe (claims_inv B M) (\<lambda>x g. x = Inr () \<and> g = None) (destroy_task E cfg sid) (Some (r, b))"
  unfolding destroy_task_def reg_Ports_def
  by (rule safe_Get [OF assms])
    (auto intro!: safe_any_query safe_load_delete [OF assms(2)] safe_host stop_host_only io_host safe_reg_Destroy [OF assms] safe_Done)

text \<open>What a request that creates a sandbox ends with.\<close>

definition created :: "response \<Rightarrow> claim \<Rightarrow> bool" where
  "created resp g \<longleftrightarrow>
     (if fst resp = 201 then \<exists>sb r. snd resp = BSandbox sb \<and> g = Some (r, True) \<and> c_id r = sb_id sb \<and>
        scanSandbox r = whole_seconds sb
      else g = None)"

lemma bring_up_safe:
  assumes "cleanup_ok E" "c_id r = sid" "sb_id sb = sid" "scanSandbox r = whole_seconds sb"
  shows "safe (claims_inv B M) created (bring_up_task E cfg sid sb m rt err n) (Some (r, False))"
proof -
  have fail: "safe (claims_inv B M) created (rollback_task E cfg sid sb (Done (500, BError e))) (Some (r, False))" for e
    by (rule rollback_safe [OF assms(1,2)]) (simp add: safe_Done created_def)
  have gone: "safe (claims_inv B M) created (t_bind (destroy_task E cfg sid) (\<lambda>_. Done (500, BError e))) (Some (set_started pid rt r, b))"
    for pid b e
    by (rule safe_bind [OF destroy_safe]) (use assms in \<open>auto intro: safe_Done simp: created_def\<close>)
  have ok: "safe (claims_inv B M) created (Done (201, BSandbox (started sb pid rt))) (Some (set_started pid rt r, True))" for pid
    using assms(2,3) whole_seconds_started [OF assms(4)] by (intro safe_Done) (simp add: created_def started_def)
  show ?thesis
    unfolding bring_up_task_def
    by (intro safe_host io_host) (auto split: sum.split intro!: safe_host io_host fail gone ok safe_FinishStart [OF assms(2)] safe_store simp: assms(2))
qed

lemma Done_fail: "code \<noteq> 201 \<Longrightarrow> safe (claims_inv B M) created (Done (code, BError e)) None"
  by (rule safe_Done) (simp add: created_def)

lemma rollback_fail:
  "cleanup_ok E \<Longrightarrow> c_id r = sid \<Longrightarrow> code \<noteq> 201 \<Longrightarrow>
     safe (claims_inv B M) created (rollback_task E cfg sid sb (Done (code, BError e))) (Some (r, False))"
  by (intro rollback_safe Done_fail)

lemma create_safe:
  assumes "cleanup_ok E"
  shows "safe (claims_inv B M) created (create_task E cfg rb) None"
  unfolding create_task_def
  by (intro safe_host call_host_only)
    (auto split: sum.split prod.split intro!: safe_host io_host Done_fail safe_create rollback_fail [OF assms] bring_up_safe [OF assms])

lemma restore_safe:
  assumes "cleanup_ok E"
  shows "safe (claims_inv B M) created (restore_task E cfg snapID rb) None"
  unfolding restore_task_def reg_GetSnapshot_def
  by (rule safe_any_query)
    (auto split: sum.split prod.split intro!: safe_host io_host call_host_only Done_fail safe_restore rollback_fail [OF assms] bring_up_safe [OF assms])

lemma handleDestroy_safe:
  assumes "cleanup_ok E" "c_id r = sid"
  shows "safe (claims_inv B M) (\<lambda>x g. x = (204, BEmpty) \<and> g = None) (handleDestroy_task E cfg sid) (Some (r, b))"
  unfolding handleDestroy_task_def
  by (rule safe_bind [OF destroy_safe [OF assms]]) (auto intro: safe_Done)

text \<open>A sandbox that keeps its row, but for the deadline, and its machine.\<close>

definition kept :: "sandbox_row \<Rightarrow> bool \<Rightarrow> response \<Rightarrow> claim \<Rightarrow> bool" where
  "kept r b resp g \<longleftrightarrow> fst resp \<noteq> 201 \<and> (\<exists>e. g = Some (r\<lparr>c_expires_at := e\<rparr>, b))"

lemma Done_kept: "fst resp \<noteq> 201 \<Longrightarrow> safe (claims_inv B M) (kept r b) (Done resp) (Some (r\<lparr>c_expires_at := e\<rparr>, b))"
  "fst resp \<noteq> 201 \<Longrightarrow> safe (claims_inv B M) (kept r b) (Done resp) (Some (r, b))"
  by (rule safe_Done, force simp: kept_def) (rule safe_Done, auto simp: kept_def intro!: exI [of _ "c_expires_at r"])

lemma change_port:
  assumes "registry_ok d" "find_sandbox (c_id r) d = Some r" "registry_ok d'" "sandboxes d' = sandboxes d" "snapshots d' = snapshots d"
    and "filter (\<lambda>q. p_sandbox_id q \<noteq> c_id r) (sandbox_ports d') = filter (\<lambda>q. p_sandbox_id q \<noteq> c_id r) (sandbox_ports d)"
  shows "row_change d (Some (r, b)) d' (Some (r, b))"
  using assms by (auto simp: row_change_def delete_all_def find_sandbox_def)

lemma AddPort_change:
  assumes "registry_ok d" "find_sandbox (c_id r) d = Some r" "AddPort p fl (c_id r) gp d = (x, d')"
  shows "row_change d (Some (r, b)) d' (Some (r, b))"
proof (rule change_port [OF assms(1,2)])
  show "registry_ok d'" using AddPort_ok assms(1,3) by blast
  show "sandboxes d' = sandboxes d" "snapshots d' = snapshots d"
    "filter (\<lambda>q. p_sandbox_id q \<noteq> c_id r) (sandbox_ports d') = filter (\<lambda>q. p_sandbox_id q \<noteq> c_id r) (sandbox_ports d)"
    using assms(3) by (auto elim!: AddPort_cases dest!: insert_portD)
qed

lemma DeletePort_change:
  assumes "registry_ok d" "find_sandbox (c_id r) d = Some r" "DeletePort fl (c_id r) gp d = (x, d')"
  shows "row_change d (Some (r, b)) d' (Some (r, b))"
proof (rule change_port [OF assms(1,2)])
  show "registry_ok d'" using DeletePort_ok assms(1,3) by blast
  show "sandboxes d' = sandboxes d" "snapshots d' = snapshots d"
    using assms(3) by (auto simp: DeletePort_def delete_port_def split: if_splits)
  have "filter (\<lambda>q. p_sandbox_id q \<noteq> c_id r) (filter (\<lambda>q. port_key q \<noteq> (c_id r, gp)) ps) = filter (\<lambda>q. p_sandbox_id q \<noteq> c_id r) ps" for ps
    by (induction ps) (auto simp: port_key_def)
  then show "filter (\<lambda>q. p_sandbox_id q \<noteq> c_id r) (sandbox_ports d') = filter (\<lambda>q. p_sandbox_id q \<noteq> c_id r) (sandbox_ports d)"
    using assms(3) by (auto simp: DeletePort_def delete_port_def split: if_splits)
qed

lemma expose_safe:
  assumes "c_id r = sid"
  shows "safe (claims_inv B M) (kept r b) (expose_task E cfg sid rb) (Some (r, b))"
proof -
  have add: "safe (claims_inv B M) (kept r b) (act (db_update E op (\<lambda>fl. AddPort p fl sid gp)) k) (Some (r, b))"
    if "\<And>x. safe (claims_inv B M) (kept r b) (k x) (Some (r, b))" for op p gp k
  proof (rule safe_update)
    fix fl d x d'
    assume "registry_ok d" "\<forall>q c. Some (r, b) = Some (q, c) \<longrightarrow> find_sandbox (c_id q) d = Some q" "AddPort p fl sid gp d = (x, d')"
    then have "row_change d (Some (r, b)) d' (Some (r, b))" using assms by (intro AddPort_change) auto
    with that [of x] show "\<exists>g'. row_change d (Some (r, b)) d' g' \<and> safe (claims_inv B M) (kept r b) (k x) g'" by blast
  qed
  have del: "safe (claims_inv B M) (kept r b) (act (db_update E op (\<lambda>fl. DeletePort fl sid gp)) k) (Some (r, b))"
    if "\<And>x. safe (claims_inv B M) (kept r b) (k x) (Some (r, b))" for op gp k
  proof (rule safe_update)
    fix fl d x d'
    assume "registry_ok d" "\<forall>q c. Some (r, b) = Some (q, c) \<longrightarrow> find_sandbox (c_id q) d = Some q" "DeletePort fl sid gp d = (x, d')"
    then have "row_change d (Some (r, b)) d' (Some (r, b))" using assms by (intro DeletePort_change) auto
    with that [of x] show "\<exists>g'. row_change d (Some (r, b)) d' g' \<and> safe (claims_inv B M) (kept r b) (k x) g'" by blast
  qed
  show ?thesis
    unfolding expose_task_def reg_Get_def reg_Ports_def
    by (simp split: option.split sum.split add: Done_kept)
      (intro allI impI safe_any_query, simp split: option.split sum.split add: Done_kept,
        intro allI impI safe_any_query conjI, simp split: option.split sum.split add: Done_kept,
        intro allI impI add, simp split: sum.split add: Done_kept,
        intro allI impI safe_host io_host, simp split: sum.split add: Done_kept, intro allI impI del Done_kept, simp)
qed

lemma set_timeout_safe:
  assumes "c_id r = sid"
  shows "safe (claims_inv B M) (kept r b) (set_timeout_task E sid rb) (Some (r, b))"
proof -
  have upd: "safe (claims_inv B M) (kept r b) (act (db_update E op (\<lambda>fl. SetExpiry fl sid t)) k) (Some (r, b))"
    if "\<And>e. safe (claims_inv B M) (kept r b) (k (Inl e)) (Some (r, b))"
      and "\<And>e. safe (claims_inv B M) (kept r b) (k (Inr ())) (Some (r\<lparr>c_expires_at := e\<rparr>, b))" for op t k
  proof (rule safe_update)
    fix fl d x d'
    assume d: "registry_ok d" "\<forall>q c. Some (r, b) = Some (q, c) \<longrightarrow> find_sandbox (c_id q) d = Some q"
      and run: "SetExpiry fl sid t d = (x, d')"
    show "\<exists>g'. row_change d (Some (r, b)) d' g' \<and> safe (claims_inv B M) (kept r b) (k x) g'"
    proof (cases x)
      case (Inl e)
      then have "d' = d" using run by (auto simp: SetExpiry_def split: if_splits)
      then show ?thesis using change_none [OF _ d] that(1) Inl by (intro exI [of _ "Some (r, b)"]) simp
    next
      case (Inr u)
      then have "d' = update_sandbox sid (\<lambda>r. r\<lparr>c_expires_at := unixOrNil t\<rparr>) d"
        using run by (auto simp: SetExpiry_def split: if_splits)
      moreover have "registry_ok d'" using update_ok [OF d(1)] run by blast
      ultimately have "row_change d (Some (r, b)) d' (Some (r\<lparr>c_expires_at := unixOrNil t\<rparr>, b))"
        using d assms by (auto simp: row_change_def delete_all_update find_after_update)
      then show ?thesis using that(2) Inr by auto
    qed
  qed
  have read: "safe (claims_inv B M) (kept r b) (act (reg_Get E sid) (\<lambda>r. case r of
      Inl e \<Rightarrow> Done (500, BError (ErrRegistry e)) | Inr sb \<Rightarrow> Done (200, BSandbox sb))) (Some (r\<lparr>c_expires_at := e\<rparr>, b))" for e
    unfolding reg_Get_def by (rule safe_any_query) (auto split: sum.split intro!: Done_kept)
  show ?thesis
    unfolding set_timeout_task_def
    by (auto split: sum.split intro!: safe_host io_host upd read Done_kept)
qed

subsection \<open>Clones\<close>

definition claims_sandbox :: "sandbox \<Rightarrow> bool \<Rightarrow> claim \<Rightarrow> bool" where
  "claims_sandbox sb b g \<longleftrightarrow> (\<exists>r. g = Some (r, b) \<and> c_id r = sb_id sb)"

definition cloned :: "clone \<Rightarrow> claim \<Rightarrow> bool" where
  "cloned c g = (case c of Inl e \<Rightarrow> g = None | Inr (sb, m, rt) \<Rightarrow> claims_sandbox sb False g \<and> no_process sb)"

lemma clone_safe:
  assumes "cleanup_ok E"
  shows "safe (claims_inv B M) cloned (clone_task E cfg snap e) None"
proof -
  have fail: "safe (claims_inv B M) cloned (Done (Inl x)) None" for x
    by (rule safe_Done) (simp add: cloned_def)
  have undo: "safe (claims_inv B M) cloned (rollback_task E cfg sid sb (Done (Inl x))) (Some (r, False))" if "c_id r = sid" for sid sb x r
    by (rule rollback_safe [OF assms that fail])
  have ok: "safe (claims_inv B M) cloned (Done (Inr (sb, m, rt))) (Some (r, False))" if "c_id r = sb_id sb" "no_process sb" for sb m rt r
    using that by (intro safe_Done) (auto simp: cloned_def claims_sandbox_def)
  show ?thesis
    unfolding clone_task_def
    by (rule safe_host [OF call_host_only]) (auto split: sum.split prod.split intro!: safe_host io_host safe_create fail undo ok)
qed

lemma finish_safe:
  assumes "c_id r = sb_id sb"
  shows "safe (claims_inv B M) (\<lambda>x g. \<exists>b. claims_sandbox sb b g \<and> (is_ok x \<longrightarrow> b)) (finish_task E cfg sb m rt) (Some (r, b))"
proof -
  have fail: "safe (claims_inv B M) (\<lambda>x g. \<exists>b. claims_sandbox sb b g \<and> (is_ok x \<longrightarrow> b)) (Done (Inl e)) (Some (r, b))" for e
    using assms by (intro safe_Done) (auto simp: claims_sandbox_def)
  have any: "safe (claims_inv B M) (\<lambda>x g. \<exists>b. claims_sandbox sb b g \<and> (is_ok x \<longrightarrow> b)) (Done x) (Some (set_started pid rt r, True))" for x pid
    using assms by (intro safe_Done) (auto simp: claims_sandbox_def)
  show ?thesis
    unfolding finish_task_def
    by (intro safe_host io_host)
      (auto split: sum.split intro!: safe_host io_host fail any safe_FinishStart [OF assms] safe_store simp: assms)
qed

definition live_or_gone :: "sandbox \<Rightarrow> sandbox option \<Rightarrow> claim \<Rightarrow> bool" where
  "live_or_gone sb x g = (case x of None \<Rightarrow> g = None | Some sb' \<Rightarrow> sb' = sb \<and> claims_sandbox sb True g)"

lemma live_safe:
  assumes "cleanup_ok E" "c_id r = sb_id sb"
  shows "safe (claims_inv B M) (live_or_gone sb) (live_task E cfg (sb, m, rt)) (Some (r, b))"
  unfolding live_task_def prod.case
proof (rule safe_bind [OF finish_safe [OF assms(2)]])
  fix x g' assume "\<exists>b. claims_sandbox sb b g' \<and> (is_ok x \<longrightarrow> b)"
  then obtain q b where g: "g' = Some (q, b)" "c_id q = sb_id sb" "is_ok x \<longrightarrow> b" by (auto simp: claims_sandbox_def)
  show "safe (claims_inv B M) (live_or_gone sb) (case x of
      Inl e \<Rightarrow> t_bind (destroy_task E cfg (sb_id sb)) (\<lambda>_. Done None) | Inr _ \<Rightarrow> Done (Some sb)) g'"
  proof (cases x)
    case (Inl e)
    then show ?thesis using g
      by (auto intro!: safe_bind [OF destroy_safe [OF assms(1)]] safe_Done simp: live_or_gone_def)
  next
    case (Inr u)
    then show ?thesis using g by (auto intro!: safe_Done simp: live_or_gone_def claims_sandbox_def)
  qed
qed

end
