(* ===== verification/Concurrent_Props.thy ===== *)
theory Concurrent_Props
  imports Claims
begin

text \<open>
  What holds of requests that run at the same time, in every interleaving of their steps:
  resources stay exclusive at every moment, whatever the requests; requests about different
  sandboxes do not disturb each other; and every pool of requests comes to an end.
\<close>

subsection \<open>Exclusive resources in every interleaving\<close>

text \<open>The ghosts play no part; the invariant is how far the registry has come.\<close>

definition moved :: "pools \<Rightarrow> server \<Rightarrow> unit list \<Rightarrow> server \<Rightarrow> bool" where
  "moved p s0 gs s \<longleftrightarrow> registry_moves p s0 s"

definition moving :: "pools \<Rightarrow> server \<Rightarrow> (server, 'a) task \<Rightarrow> bool" where
  "moving p s0 t \<longleftrightarrow> safe (moved p s0) (\<lambda>_ _. True) t ()"

named_theorems moving \<open>tasks whose steps change the registry only by its operations\<close>

lemma moving_Done [moving]: "moving p s0 (Done x)"
  by (simp add: moving_def safe_Done)

lemma moving_act:
  assumes "state_io_rel (registry_moves p) m" "\<And>r. moving p s0 (k r)"
  shows "moving p s0 (act m k)"
  unfolding moving_def
proof (rule safe_act)
  fix gs i s r s' assume "moved p s0 gs s" and run: "run_state m s = (r, s')"
  then have "moved p s0 (gs[i := ()]) s'"
    using moves.io_run [OF assms(1) run] moves.trans by (simp add: moved_def)
  then show "\<exists>g'. moved p s0 (gs[i := g']) s' \<and> safe (moved p s0) (\<lambda>_ _. True) (k r) g'"
    using assms(2) by (auto simp: moving_def)
qed

lemma moving_bind: "moving p s0 t \<Longrightarrow> (\<And>x. moving p s0 (k x)) \<Longrightarrow> moving p s0 (t_bind t k)"
  unfolding moving_def by (rule safe_bind) auto

lemma moving_cases:
  "(\<And>e. moving p s0 (f e)) \<Longrightarrow> (\<And>v. moving p s0 (g v)) \<Longrightarrow> moving p s0 (case r of Inl e \<Rightarrow> f e | Inr v \<Rightarrow> g v)"
  "moving p s0 n \<Longrightarrow> (\<And>w. moving p s0 (h w)) \<Longrightarrow> moving p s0 (case x of None \<Rightarrow> n | Some w \<Rightarrow> h w)"
  "(\<And>a b. moving p s0 (j a b)) \<Longrightarrow> moving p s0 (case q of (a, b) \<Rightarrow> j a b)"
  "moving p s0 t \<Longrightarrow> moving p s0 u \<Longrightarrow> moving p s0 (if c then t else u)"
  by (simp_all split: sum.split option.split prod.split)

lemma stop_moves [io_moves]: "state_io_rel (registry_moves p) (case v of None \<Rightarrow> return () | Some m \<Rightarrow> stop_machine E m)"
  by (intro moves.io_intros primitive_moves)

lemmas moving_intros = moving_act moving_bind moving_cases moving_Done primitive_moves io_moves

lemma tasks_moving [moving]:
  "moving p s0 k \<Longrightarrow> moving p s0 (rollback_task E cfg sid sb k)"
  "moving p s0 (destroy_task E cfg sid)"
  unfolding rollback_task_def destroy_task_def by (intro moving_intros; assumption)+

lemma bring_up_moving [moving]: "moving p s0 (bring_up_task E cfg sid sb m rt err n)"
  unfolding bring_up_task_def by (intro moving_intros moving)

lemma requests_moving [moving]:
  "moving (RegPools cfg) s0 (create_task E cfg rb)"
  "moving (RegPools cfg) s0 (restore_task E cfg snapID rb)"
  "moving (RegPools cfg) s0 (expose_task E cfg sid rb)"
  "moving p s0 (set_timeout_task E sid rb)"
  "moving p s0 (handleDestroy_task E cfg sid)"
  "moving p s0 (snapshot_task E cfg sid)"
  "moving p s0 (delete_snapshot_task E cfg snapID)"
  unfolding create_task_def restore_task_def expose_task_def set_timeout_task_def handleDestroy_task_def snapshot_task_def
    delete_snapshot_task_def Let_def
  by (intro moving_intros moving update_moves [OF reg_step_ops(6)])+

lemma reap_moving [moving]: "moving p s0 (reap_task E cfg now)"
proof -
  have "moving p s0 (reap_rest E cfg sbs)" for sbs
    by (induction sbs) (simp_all add: moving moving_bind)
  then show ?thesis unfolding reap_task_def by (intro moving_intros)
qed

lemma clones_moving [moving]:
  "moving (RegPools cfg) s0 (clone_task E cfg snap e)"
  "moving p s0 (live_task E cfg c)"
  unfolding clone_task_def live_task_def finish_task_def by (intro moving_intros moving)+

lemma job_moving: "moving (RegPools cfg) s0 (job_task E cfg j)"
  by (cases j) (auto intro!: moving_bind moving)

text \<open>
  C2: Whatever requests, reaper ticks and clones run at the same time, also about the same
  sandbox, whatever calls fail, and in every interleaving of their steps: at every moment
  no two sandboxes in the registry share an id, a tap, a guest address or a host port, and
  every extra port belongs to a sandbox that is there.
\<close>
theorem concurrent_exclusive:
  assumes "reach (\<lambda>db. db = empty_db) (reg_step (RegPools cfg)) (reg_db s)"
    and "run_jobs E cfg jobs sched s = (p, t)"
  shows "distinct (map c_id (sandboxes (reg_db t))) \<and> distinct (map c_tap_device (sandboxes (reg_db t))) \<and>
    distinct (map c_guest_ip (sandboxes (reg_db t))) \<and>
    distinct (map c_host_port (sandboxes (reg_db t)) @ map p_host_port (sandbox_ports (reg_db t))) \<and>
    p_sandbox_id ` set (sandbox_ports (reg_db t)) \<subseteq> c_id ` set (sandboxes (reg_db t))"
proof -
  have "safe_pool (moved (RegPools cfg) s) (\<lambda>_ _ _. True) (map (\<lambda>_. ()) jobs) (spawn (map (job_task E cfg) jobs), s)"
    using job_moving by (auto simp: safe_pool_def spawn_def safe_goroutine_def moving_def moved_def moves.refl)
  from safe_schedule [OF exI [of _ "map (\<lambda>_. ()) jobs"], OF this] assms(2)
  have "registry_moves (RegPools cfg) s t"
    unfolding run_jobs_def by (metis safe_pool_def snd_conv moved_def)
  then have "reach (\<lambda>db. db = empty_db) (reg_step (RegPools cfg)) (reg_db t)"
    using reach_moves [OF _ assms(1)] by (simp add: registry_moves_def)
  from exclusive_rows [OF this] show ?thesis .
qed

theorem concurrent_exclusive_witness:
  "\<exists>p t. run_jobs sunny sample_cfg [JDestroy ''a'', JCreate NoBody, JDestroy ''a'', JReap 9] [0, 2, 0, 2, 1, 0, 1, 1, 0, 0, 2, 3, 1] server_a = (p, t) \<and>
     distinct (map c_tap_device (sandboxes (reg_db t)))"
proof -
  obtain p t where run: "run_jobs sunny sample_cfg [JDestroy ''a'', JCreate NoBody, JDestroy ''a'', JReap 9]
      [0, 2, 0, 2, 1, 0, 1, 1, 0, 0, 2, 3, 1] server_a = (p, t)"
    by (metis prod.exhaust)
  have "reach (\<lambda>db. db = empty_db) (reg_step (RegPools sample_cfg)) (reg_db server_a)"
    using db_a_reach by (simp add: sample_cfg_def server_a_def)
  from concurrent_exclusive [OF this run] run show ?thesis by blast
qed

subsection \<open>Every pool ends\<close>

lemma jobs_end: "\<exists>sched. all_ended (fst (run_jobs E cfg jobs sched s))"
proof (cases "jobs = []")
  case True
  then show ?thesis by (simp add: run_jobs_def spawn_def all_ended_def exI [of _ "[]"])
next
  case False
  then show ?thesis using schedule_exists [of "length jobs"] by (simp add: run_jobs_def)
qed

subsection \<open>Requests about different sandboxes\<close>

text \<open>The sandboxes a job names, and whether it leaves them.\<close>

definition names_of :: "job \<Rightarrow> string list" where
  "names_of j = (case j of JDestroy sid \<Rightarrow> [sid] | JExpose sid _ \<Rightarrow> [sid] | JSetTimeout sid _ \<Rightarrow> [sid] | _ \<Rightarrow> [])"

definition keeps :: "job \<Rightarrow> string list" where
  "keeps j = (case j of JExpose sid _ \<Rightarrow> [sid] | JSetTimeout sid _ \<Rightarrow> [sid] | _ \<Rightarrow> [])"

text \<open>Requests that create, destroy or alter one sandbox.\<close>

definition about_one :: "job \<Rightarrow> bool" where
  "about_one j = (case j of JCreate _ \<Rightarrow> True | JRestore _ _ \<Rightarrow> True | JDestroy _ \<Rightarrow> True | JExpose _ _ \<Rightarrow> True
     | JSetTimeout _ _ \<Rightarrow> True | _ \<Rightarrow> False)"

text \<open>The sandbox a request has made.\<close>

definition made_by :: "job_result \<Rightarrow> sandbox option" where
  "made_by r = (case r of Responded (code, BSandbox sb) \<Rightarrow> if code = 201 then Some sb else None | _ \<Rightarrow> None)"

definition made :: "job_result list \<Rightarrow> sandbox list" where
  "made rs = List.map_filter made_by rs"

text \<open>The claim a job starts with, and what it ends with.\<close>

definition first_claim :: "server \<Rightarrow> job \<Rightarrow> claim" where
  "first_claim s j = (case names_of j of [] \<Rightarrow> None | sid # _ \<Rightarrow>
     map_option (\<lambda>r. (r, machines s sid \<noteq> None)) (find_sandbox sid (reg_db s)))"

definition job_post :: "server \<Rightarrow> job \<Rightarrow> job_result \<Rightarrow> claim \<Rightarrow> bool" where
  "job_post s j res g \<longleftrightarrow> (\<exists>resp. res = Responded resp \<and>
     (case j of
        JDestroy sid \<Rightarrow> resp = (204, BEmpty) \<and> g = None
      | JExpose sid _ \<Rightarrow> (\<exists>r b. first_claim s j = Some (r, b) \<and> kept r b resp g)
      | JSetTimeout sid _ \<Rightarrow> (\<exists>r b. first_claim s j = Some (r, b) \<and> kept r b resp g)
      | _ \<Rightarrow> created resp g))"

lemma first_claim_named:
  assumes "set (names_of j) \<subseteq> c_id ` set (sandboxes (reg_db s))" "names_of j = [sid]"
  shows "\<exists>r. first_claim s j = Some (r, machines s sid \<noteq> None) \<and> c_id r = sid \<and> find_sandbox sid (reg_db s) = Some r"
proof -
  have "find_sandbox sid (reg_db s) \<noteq> None"
    using assms by (auto simp: find_sandbox_def find_None_iff)
  then obtain r where r: "find_sandbox sid (reg_db s) = Some r" by blast
  then show ?thesis using assms(2) find_sandbox_SomeD [OF r] by (simp add: first_claim_def)
qed

lemma job_safe:
  assumes "cleanup_ok E" "about_one j" "set (names_of j) \<subseteq> c_id ` set (sandboxes (reg_db s))"
  shows "safe (claims_inv B M) (job_post s j) (job_task E cfg j) (first_claim s j)"
proof (cases j)
  case (JCreate rb)
  then show ?thesis
    by (auto simp: first_claim_def names_of_def job_post_def intro!: safe_bind [OF create_safe [OF assms(1)]] safe_Done)
next
  case (JRestore snapID rb)
  then show ?thesis
    by (auto simp: first_claim_def names_of_def job_post_def intro!: safe_bind [OF restore_safe [OF assms(1)]] safe_Done)
next
  case (JDestroy sid)
  then obtain r b where "first_claim s j = Some (r, b)" "c_id r = sid"
    using first_claim_named [OF assms(3), of sid] by (fastforce simp: names_of_def)
  then show ?thesis
    using JDestroy by (auto simp: job_post_def intro!: safe_bind [OF handleDestroy_safe [OF assms(1)]] safe_Done)
next
  case (JExpose sid rb)
  then obtain r b where "first_claim s j = Some (r, b)" "c_id r = sid"
    using first_claim_named [OF assms(3), of sid] by (fastforce simp: names_of_def)
  then show ?thesis
    using JExpose by (auto simp: job_post_def intro!: safe_bind [OF expose_safe] safe_Done)
next
  case (JSetTimeout sid rb)
  then obtain r b where "first_claim s j = Some (r, b)" "c_id r = sid"
    using first_claim_named [OF assms(3), of sid] by (fastforce simp: names_of_def)
  then show ?thesis
    using JSetTimeout by (auto simp: job_post_def intro!: safe_bind [OF set_timeout_safe] safe_Done)
qed (use assms(2) in \<open>auto simp: about_one_def\<close>)

lemma names_length: "length (names_of j) \<le> 1"
  by (cases j) (simp_all add: names_of_def)

lemma first_claim_ids:
  assumes "set (names_of j) \<subseteq> c_id ` set (sandboxes (reg_db s))"
  shows "claim_ids (first_claim s j) = set (names_of j)"
proof (cases "names_of j")
  case Nil
  then show ?thesis by (simp add: first_claim_def)
next
  case (Cons sid xs)
  then have "names_of j = [sid]" using names_length [of j] by simp
  from first_claim_named [OF assms this] this show ?thesis by auto
qed

lemma distinct_concat_nth:
  "distinct (concat xss) \<Longrightarrow> i < length xss \<Longrightarrow> j < length xss \<Longrightarrow> i \<noteq> j \<Longrightarrow> set (xss ! i) \<inter> set (xss ! j) = {}"
proof (induction xss arbitrary: i j)
  case (Cons xs xss)
  have "set xs \<inter> set (xss ! k) = {}" if "k < length xss" for k
    using Cons.prems(1) nth_mem [OF that] by fastforce
  then show ?case using Cons by (cases i; cases j) auto
qed simp

lemma jobs_start:
  assumes "registry_ok (reg_db s)" "tracked_ok s"
    and "distinct (concat (map names_of jobs))" "set (concat (map names_of jobs)) \<subseteq> c_id ` set (sandboxes (reg_db s))"
  shows "claims_inv (delete_all (set (concat (map names_of jobs))) (reg_db s))
    (\<lambda>x. if x \<in> set (concat (map names_of jobs)) then None else machines s x) (map (first_claim s) jobs) s"
proof -
  have named: "set (names_of j) \<subseteq> c_id ` set (sandboxes (reg_db s))" if "j \<in> set jobs" for j
    using assms(4) that by auto
  note ids = first_claim_ids [OF named]
  have "claimed (map (first_claim s) jobs) = set (concat (map names_of jobs))"
    by (simp add: claimed_def ids)
  moreover have "disjoint_claims (map (first_claim s) jobs)"
    using distinct_concat_nth [OF assms(3)] by (auto simp: disjoint_claims_def ids)
  moreover have "claim_holds s (first_claim s j)" if "j \<in> set jobs" for j
  proof (cases "names_of j")
    case Nil
    then show ?thesis by (simp add: first_claim_def claim_holds_def)
  next
    case (Cons sid xs)
    then have "names_of j = [sid]" using names_length [of j] by simp
    from first_claim_named [OF named [OF that] this] show ?thesis by (auto simp: claim_holds_def)
  qed
  ultimately show ?thesis
    using assms(1) tracked_okD [OF assms(2)] by (auto simp: claims_inv_def find_delete_all)
qed

text \<open>The claims at the end, read off the results.\<close>

definition final_ids :: "job list \<Rightarrow> job_result list \<Rightarrow> string set" where
  "final_ids jobs rs = sb_id ` set (made rs) \<union> set (concat (map keeps jobs))"

lemma made_by_iff: "made_by (Responded resp) = Some sb \<longleftrightarrow> resp = (201, BSandbox sb)"
  by (auto simp: made_by_def split: prod.splits body.splits)

lemma made_by_created [simp]: "made_by (Responded (201, BSandbox sb)) = Some sb"
  by (simp add: made_by_iff)

lemma post_claim_ids:
  assumes "about_one j" "set (names_of j) \<subseteq> c_id ` set (sandboxes (reg_db s))" "job_post s j res g"
  shows "claim_ids g = (case made_by res of None \<Rightarrow> {} | Some sb \<Rightarrow> {sb_id sb}) \<union> set (keeps j)"
    and "made_by res = Some sb \<Longrightarrow> \<exists>r. g = Some (r, True) \<and> c_id r = sb_id sb \<and> scanSandbox r = whole_seconds sb"
proof -
  obtain resp where resp: "res = Responded resp" using assms(3) by (auto simp: job_post_def)
  have made: "claim_ids g = (case made_by res of None \<Rightarrow> {} | Some sb \<Rightarrow> {sb_id sb}) \<and>
      (\<forall>sb. made_by res = Some sb \<longrightarrow> (\<exists>r. g = Some (r, True) \<and> c_id r = sb_id sb \<and> scanSandbox r = whole_seconds sb))"
    if "created resp g"
  proof (cases "fst resp = 201")
    case True
    then show ?thesis using that resp by (cases resp) (auto simp: created_def made_by_iff)
  next
    case False
    then have "made_by res = None" using resp by (cases "made_by res") (auto simp: made_by_iff)
    then show ?thesis using that False by (simp add: created_def)
  qed
  have kept: "made_by res = None \<and> claim_ids g = {sid}" if k: "kept r b resp g" "first_claim s j = Some (r, b)" "names_of j = [sid]" for r b sid
  proof -
    have "made_by res = None" using k(1) resp by (cases "made_by res") (auto simp: made_by_iff kept_def)
    moreover have "c_id r = sid" using first_claim_named [OF assms(2) k(3)] k(2) by auto
    ultimately show ?thesis using k(1) by (auto simp: kept_def)
  qed
  have split: "created resp g \<and> keeps j = [] \<or> (\<exists>sid r b. names_of j = [sid] \<and> keeps j = [sid] \<and> first_claim s j = Some (r, b) \<and> kept r b resp g) \<or>
      resp = (204, BEmpty) \<and> g = None \<and> keeps j = []"
    using assms(1,3) resp by (cases j) (auto simp: job_post_def about_one_def keeps_def names_of_def)
  have gone: "made_by (Responded (204, BEmpty)) = None" by (simp add: made_by_def)
  show "claim_ids g = (case made_by res of None \<Rightarrow> {} | Some sb \<Rightarrow> {sb_id sb}) \<union> set (keeps j)"
    using split made kept gone resp by auto
  show "\<exists>r. g = Some (r, True) \<and> c_id r = sb_id sb \<and> scanSandbox r = whole_seconds sb" if "made_by res = Some sb"
    using split made kept gone resp that by auto
qed

lemma distinct_map_filter:
  assumes "\<And>i j a b. i < length xs \<Longrightarrow> j < length xs \<Longrightarrow> i \<noteq> j \<Longrightarrow> f (xs ! i) = Some a \<Longrightarrow> f (xs ! j) = Some b \<Longrightarrow> g a \<noteq> g b"
  shows "distinct (map g (List.map_filter f xs))"
  using assms
proof (induction xs)
  case Nil
  then show ?case by (simp add: List.map_filter_def)
next
  case (Cons x xs)
  have "distinct (map g (List.map_filter f xs))"
    using Cons.prems [of "Suc _" "Suc _"] by (intro Cons.IH) auto
  moreover have "g a \<noteq> g b" if "f x = Some a" "y \<in> set xs" "f y = Some b" for a b y
  proof -
    obtain j where "j < length xs" "xs ! j = y" using \<open>y \<in> set xs\<close> by (auto simp: in_set_conv_nth)
    then show ?thesis using Cons.prems [of 0 "Suc j" a b] that(1,3) by simp
  qed
  ultimately show ?case by (auto simp: List.map_filter_def split: option.split)
qed

lemma in_made: "sb \<in> set (made rs) \<longleftrightarrow> (\<exists>i < length rs. made_by (rs ! i) = Some sb)"
proof -
  have "set (List.map_filter f xs) = {y. \<exists>x \<in> set xs. f x = Some y}" for f :: "job_result \<Rightarrow> sandbox option" and xs
    by (induction xs) (auto simp: List.map_filter_def)
  then have "sb \<in> set (made rs) \<longleftrightarrow> (\<exists>x \<in> set rs. made_by x = Some sb)" by (simp add: made_def)
  then show ?thesis by (metis in_set_conv_nth)
qed

text \<open>What the pool ends with: a claim of every request, as its answer says.\<close>

lemma jobs_named:
  assumes "list_all about_one jobs" "set (concat (map names_of jobs)) \<subseteq> c_id ` set (sandboxes (reg_db s))" "i < length jobs"
  shows "about_one (jobs ! i)" "set (names_of (jobs ! i)) \<subseteq> c_id ` set (sandboxes (reg_db s))"
proof -
  have "set (names_of (jobs ! i)) \<subseteq> set (concat (map names_of jobs))" using nth_mem [OF assms(3)] by auto
  then show "set (names_of (jobs ! i)) \<subseteq> c_id ` set (sandboxes (reg_db s))" using assms(2) by blast
  show "about_one (jobs ! i)" using assms(1,3) by (simp add: list_all_length)
qed

lemma jobs_outcome:
  assumes "registry_ok (reg_db s)" "cleanup_ok E" "tracked_ok s"
    and "list_all about_one jobs" "distinct (concat (map names_of jobs))"
    and "set (concat (map names_of jobs)) \<subseteq> c_id ` set (sandboxes (reg_db s))"
    and "run_jobs E cfg jobs sched s = (p, t)" "all_ended p"
  obtains gs where "length gs = length jobs" "length (results p) = length jobs"
    "claims_inv (delete_all (set (concat (map names_of jobs))) (reg_db s))
      (\<lambda>x. if x \<in> set (concat (map names_of jobs)) then None else machines s x) gs t"
    "\<And>i. i < length jobs \<Longrightarrow> job_post s (jobs ! i) (results p ! i) (gs ! i)"
proof -
  let ?N = "set (concat (map names_of jobs))" and ?ts = "map (job_task E cfg) jobs"
  let ?I = "claims_inv (delete_all ?N (reg_db s)) (\<lambda>x. if x \<in> ?N then None else machines s x)"
  have "\<exists>gs. length gs = length ?ts \<and> length (results p) = length ?ts \<and> ?I gs t \<and>
      (\<forall>i < length ?ts. job_post s (jobs ! i) (results p ! i) (gs ! i))"
  proof (rule safe_outcome)
    show "?I (map (first_claim s) jobs) s" by (rule jobs_start [OF assms(1,3,5,6)])
    show "run_schedule (length jobs) sched (spawn ?ts, s) = (p, t)" using assms(7) by (simp add: run_jobs_def)
    show "safe ?I (job_post s (jobs ! i)) (?ts ! i) (map (first_claim s) jobs ! i)" if "i < length ?ts" for i
      using that job_safe [OF assms(2) jobs_named [OF assms(4,6)]] by simp
  qed (simp_all add: assms(8))
  with that show thesis by auto
qed

lemma made_ids:
  "(\<Union>i < length rs. case made_by (rs ! i) of None \<Rightarrow> {} | Some sb \<Rightarrow> {sb_id sb}) = sb_id ` set (made rs)"
proof (intro set_eqI iffI)
  fix x assume "x \<in> (\<Union>i < length rs. case made_by (rs ! i) of None \<Rightarrow> {} | Some sb \<Rightarrow> {sb_id sb})"
  then obtain i sb where "i < length rs" "made_by (rs ! i) = Some sb" "x = sb_id sb" by (auto split: option.splits)
  then show "x \<in> sb_id ` set (made rs)" using in_made by blast
next
  fix x assume "x \<in> sb_id ` set (made rs)"
  then obtain sb i where "i < length rs" "made_by (rs ! i) = Some sb" "x = sb_id sb" using in_made by blast
  then show "x \<in> (\<Union>i < length rs. case made_by (rs ! i) of None \<Rightarrow> {} | Some sb \<Rightarrow> {sb_id sb})"
    by (intro UN_I [of i]) auto
qed

lemma final_claimed:
  assumes "length gs = length jobs" "length rs = length jobs"
    and "\<And>i. i < length jobs \<Longrightarrow> claim_ids (gs ! i) = (case made_by (rs ! i) of None \<Rightarrow> {} | Some sb \<Rightarrow> {sb_id sb}) \<union> set (keeps (jobs ! i))"
  shows "claimed gs = final_ids jobs rs"
proof -
  have "claimed gs = (\<Union>i < length jobs. (case made_by (rs ! i) of None \<Rightarrow> {} | Some sb \<Rightarrow> {sb_id sb}) \<union> set (keeps (jobs ! i)))"
    using assms(1,3) by (simp add: claimed_nth)
  moreover have "(\<Union>i < length jobs. set (keeps (jobs ! i))) = set (concat (map keeps jobs))"
    by (simp add: set_conv_nth [of jobs]) blast
  ultimately show ?thesis using made_ids [of rs] assms(2) by (simp add: final_ids_def UN_Un_distrib)
qed

lemma made_distinct:
  assumes "length gs = length rs" "disjoint_claims gs"
    and "\<And>i sb. i < length rs \<Longrightarrow> made_by (rs ! i) = Some sb \<Longrightarrow> sb_id sb \<in> claim_ids (gs ! i)"
  shows "distinct (map sb_id (made rs))"
proof -
  have "sb_id a \<noteq> sb_id b" if ij: "i < length rs" "j < length rs" "i \<noteq> j" "made_by (rs ! i) = Some a" "made_by (rs ! j) = Some b" for i j a b
    using assms(3) [OF ij(1,4)] assms(3) [OF ij(2,5)] assms(1,2) ij(1-3) by (fastforce simp: disjoint_claims_def)
  then show ?thesis unfolding made_def by (rule distinct_map_filter)
qed

text \<open>
  C6: Any number of requests that create, restore, destroy, expose a port of or change the
  deadline of sandboxes, no two about the same one, run at the same time. In every
  interleaving of their steps that ends, and whatever calls fail on the way: each request
  that answered 201 has its own sandbox, whose row reads back as answered and whose machine
  is tracked; each deletion was answered 204; and apart from the sandboxes made and the ones
  whose ports or deadline were changed, rows, ports, snapshots and machines are exactly those
  of before without the sandboxes named.
\<close>
theorem concurrent_requests_isolated:
  assumes "registry_ok (reg_db s)" "cleanup_ok E" "tracked_ok s"
    and "list_all about_one jobs" "distinct (concat (map names_of jobs))"
    and "set (concat (map names_of jobs)) \<subseteq> c_id ` set (sandboxes (reg_db s))"
    and "run_jobs E cfg jobs sched s = (p, t)" "all_ended p"
  shows "length (results p) = length jobs \<and> distinct (map sb_id (made (results p))) \<and>
    (\<forall>sb \<in> set (made (results p)). Get no_faults (sb_id sb) (reg_db t) = Inr (whole_seconds sb) \<and> machines t (sb_id sb) \<noteq> None) \<and>
    (\<forall>i < length jobs. case jobs ! i of JDestroy sid \<Rightarrow> results p ! i = Responded (204, BEmpty) | _ \<Rightarrow> True) \<and>
    delete_all (final_ids jobs (results p)) (reg_db t) = delete_all (set (concat (map names_of jobs))) (reg_db s) \<and>
    (\<forall>x. x \<in> final_ids jobs (results p) \<or>
       machines t x = (if x \<in> set (concat (map names_of jobs)) then None else machines s x))"
proof -
  let ?N = "set (concat (map names_of jobs))"
  obtain gs where len: "length gs = length jobs" "length (results p) = length jobs"
    and inv: "claims_inv (delete_all ?N (reg_db s)) (\<lambda>x. if x \<in> ?N then None else machines s x) gs t"
    and post: "\<And>i. i < length jobs \<Longrightarrow> job_post s (jobs ! i) (results p ! i) (gs ! i)"
    using jobs_outcome [OF assms] by blast
  note ids = post_claim_ids [OF jobs_named [OF assms(4,6)] post]
  have final: "claimed gs = final_ids jobs (results p)"
    by (rule final_claimed [OF len]) (rule ids(1))
  have made: "\<exists>r. gs ! i = Some (r, True) \<and> c_id r = sb_id sb \<and> scanSandbox r = whole_seconds sb"
    if "i < length jobs" "made_by (results p ! i) = Some sb" for i sb
    using ids(2) [OF that(1) that(1) that(1) that(2)] by blast
  have dist: "distinct (map sb_id (made (results p)))"
    by (rule made_distinct [of gs]) (use inv len made in \<open>fastforce simp: claims_inv_def\<close>)+
  have read: "Get no_faults (sb_id sb) (reg_db t) = Inr (whole_seconds sb) \<and> machines t (sb_id sb) \<noteq> None"
    if "sb \<in> set (made (results p))" for sb
  proof -
    from that obtain i where i: "i < length jobs" "made_by (results p ! i) = Some sb" by (auto simp: in_made len)
    obtain r where r: "gs ! i = Some (r, True)" "c_id r = sb_id sb" "scanSandbox r = whole_seconds sb"
      using made [OF i] by blast
    have "i < length gs" using i(1) len by simp
    from claims_holdD [OF inv this r(1)] r(2,3) show ?thesis by (auto simp: claim_holds_def Get_no_faults)
  qed
  have gone: "case jobs ! i of JDestroy sid \<Rightarrow> results p ! i = Responded (204, BEmpty) | _ \<Rightarrow> True" if "i < length jobs" for i
    using post [OF that] by (auto simp: job_post_def split: job.split)
  have "delete_all (final_ids jobs (results p)) (reg_db t) = delete_all ?N (reg_db s)"
    "\<forall>x. x \<in> final_ids jobs (results p) \<or> machines t x = (if x \<in> ?N then None else machines s x)"
    using inv unfolding claims_inv_def final by blast+
  then show ?thesis using len dist read gone by blast
qed

text \<open>A creation, a destruction and a change of a port at the same time, about different sandboxes.\<close>

theorem concurrent_requests_isolated_witness:
  "\<exists>sched p t. run_jobs sunny sample_cfg [JCreate (Decoded 60), JDestroy ''a'', JCreate NoBody] sched server_a = (p, t) \<and> all_ended p \<and>
     (\<forall>sb \<in> set (made (results p)). machines t (sb_id sb) \<noteq> None) \<and> results p ! 1 = Responded (204, BEmpty)"
proof -
  let ?jobs = "[JCreate (Decoded 60), JDestroy ''a'', JCreate NoBody]"
  obtain sched where ended: "all_ended (fst (run_jobs sunny sample_cfg ?jobs sched server_a))"
    using jobs_end by blast
  obtain p t where run: "run_jobs sunny sample_cfg ?jobs sched server_a = (p, t)" by (metis prod.exhaust)
  have a: "registry_ok (reg_db server_a)" "tracked_ok server_a" "''a'' \<in> c_id ` set (sandboxes (reg_db server_a))"
    by (simp_all add: server_a_def db_a_ok tracked_ok_def) (simp_all add: db_a_def row_a_def)
  have "list_all about_one ?jobs" "distinct (concat (map names_of ?jobs))"
    "set (concat (map names_of ?jobs)) \<subseteq> c_id ` set (sandboxes (reg_db server_a))"
    using a(3) by (simp_all add: about_one_def names_of_def)
  from concurrent_requests_isolated [OF a(1) sunny_cleanup a(2) this run] ended run
  have "\<forall>sb \<in> set (made (results p)). machines t (sb_id sb) \<noteq> None" "results p ! 1 = Responded (204, BEmpty)"
    by (auto dest: spec [of _ 1])
  with run ended show ?thesis by auto
qed

end
