(* ===== verification/Fanout_Parallel.thy ===== *)
theory Fanout_Parallel
  imports Concurrent_Props
begin

text \<open>
  \<open>handleFanout\<close> with its goroutines: at most eight clones are brought up at a time, then
  all that came up are finished at once, in any interleaving of their steps. The response
  lists the live clones in the order in which they got there.
\<close>

subsection \<open>The handler\<close>

definition run_parallel :: "nat \<Rightarrow> nat list \<Rightarrow> (server, 'a) task list \<Rightarrow> (server, 'a) pool server_action" where
  "run_parallel cap sched ts = State (run_schedule cap sched \<circ> Pair (spawn ts))"

definition came_up :: "clone list \<Rightarrow> (sandbox \<times> machine \<times> runtime_config) list" where
  "came_up cs = List.map_filter (\<lambda>c. case c of Inl e \<Rightarrow> None | Inr x \<Rightarrow> Some x) cs"

text \<open>Both phases; None when a schedule stops before the goroutines have ended.\<close>

definition fanout_phases :: "env \<Rightarrow> server_config \<Rightarrow> nat list \<Rightarrow> nat list \<Rightarrow> snapshot \<Rightarrow> int option \<Rightarrow> nat \<Rightarrow> bool
    \<Rightarrow> response option server_action" where
  "fanout_phases E cfg sched1 sched2 snap expiresAt n staged = do {
     p \<leftarrow> run_parallel 8 sched1 (replicate n (clone_task E cfg snap expiresAt));
     if \<not> all_ended p then return None
     else do {
     _ \<leftarrow> (if staged then RemoveRootfs E (sn_source_rootfs_path snap) else return (Inr ()));
     _ \<leftarrow> call E (SleepNs 1500000000);
     q \<leftarrow> (let ts = map (live_task E cfg) (came_up (results p)) in run_parallel (length ts) sched2 ts);
     if \<not> all_ended q then return None
     else (let live = List.map_filter (\<lambda>x. x) (ended q) in
       return (Some (if live = [] then (500, BError ErrAllClonesFailed) else (201, BSandboxes live)))) } }"

definition handleFanout_par :: "env \<Rightarrow> server_config \<Rightarrow> nat list \<Rightarrow> nat list \<Rightarrow> string \<Rightarrow> (int \<times> int) request_body
    \<Rightarrow> response option server_action" where
  "handleFanout_par E cfg sched1 sched2 snapID rb = do {
     r \<leftarrow> reg_GetSnapshot E snapID;
     (case r of
        Inl e \<Rightarrow> return (Some (404, BError (ErrSnapshotNotFound snapID)))
      | Inr snap \<Rightarrow>
     (case fanout_body rb of
        Inl e \<Rightarrow> return (Some (400, BError e))
      | Inr (n, timeout) \<Rightarrow> do {
     expiresAt \<leftarrow> expires_at E timeout;
     r \<leftarrow> stage_baked E snap;
     (case r of
        Inl e \<Rightarrow> return (Some (500, BError (ErrStageRootfs e)))
      | Inr staged \<Rightarrow> fanout_phases E cfg sched1 sched2 snap expiresAt (nat n) staged) })) }"

lemma wp_run_parallel [wp]:
  "wp (run_parallel cap sched ts) Q = (\<lambda>s. case run_schedule cap sched (spawn ts, s) of (p, t) \<Rightarrow> Q p t)"
  by (simp add: wp_def run_parallel_def fun_eq_iff)

subsection \<open>One clone after the other\<close>

lemma in_turn_clones: "in_turn (replicate n (clone_task E cfg snap e)) = bring_up_clones E cfg snap e n"
  by (induction n) (simp_all add: alone)

lemma in_turn_live:
  "State_Monad.bind (in_turn (map (live_task E cfg) (came_up cs))) (\<lambda>xs. return (List.map_filter (\<lambda>x. x) xs)) = finish_clones E cfg cs"
proof (induction cs)
  case Nil
  then show ?case by (simp add: came_up_def List.map_filter_def bind_return)
next
  case (Cons c cs)
  show ?case
  proof (cases c)
    case (Inl e)
    then show ?thesis using Cons by (simp add: came_up_def List.map_filter_def)
  next
    case (Inr x)
    obtain sb m rt where x: "x = (sb, m, rt)" by (cases x) auto
    have more: "came_up (Inr (sb, m, rt) # cs) = (sb, m, rt) # came_up cs" by (simp add: came_up_def List.map_filter_def)
    show ?thesis
      unfolding Inr x more
      by (rule state_ext)
        (simp add: live_alone Cons.IH [symmetric] List.map_filter_def split: prod.split sum.split)
  qed
qed

text \<open>The handler that brings its clones up one by one is this one under some schedules.\<close>

lemma phases_in_turn:
  assumes "run_state (do {
       clones \<leftarrow> bring_up_clones E cfg snap e n;
       _ \<leftarrow> (if staged then RemoveRootfs E (sn_source_rootfs_path snap) else return (Inr ()));
       _ \<leftarrow> call E (SleepNs 1500000000);
       live \<leftarrow> finish_clones E cfg clones;
       if live = [] then httpError 500 ErrAllClonesFailed else writeJSON 201 (BSandboxes live) }) u = (resp, t)"
  shows "\<exists>sched1 sched2. run_state (fanout_phases E cfg sched1 sched2 snap e n staged) u = (Some resp, t)"
proof -
  obtain cs v where cs: "run_state (bring_up_clones E cfg snap e n) u = (cs, v)" by fastforce
  then have "run_state (in_turn (replicate n (clone_task E cfg snap e))) u = (cs, v)" by (simp add: in_turn_clones)
  from all_in_turn [OF _ this, of 8] obtain sched1 p where
    p: "run_schedule 8 sched1 (spawn (replicate n (clone_task E cfg snap e)), u) = (p, v)" "all_ended p" "results p = cs"
    by auto
  obtain y w where w: "run_state (if staged then RemoveRootfs E (sn_source_rootfs_path snap) else return (Inr ())) v = (y, w)" by fastforce
  obtain z w' where w': "run_state (call E (SleepNs 1500000000)) w = (z, w')" by fastforce
  let ?ts = "map (live_task E cfg) (came_up cs)"
  obtain xs t' where xs: "run_state (in_turn ?ts) w' = (xs, t')" by fastforce
  have live: "run_state (finish_clones E cfg cs) w' = (List.map_filter (\<lambda>x. x) xs, t')"
    using xs by (simp add: in_turn_live [symmetric])
  have "\<exists>sched2 q. run_schedule (length ?ts) sched2 (spawn ?ts, w') = (q, t') \<and> all_ended q \<and> ended q = xs"
  proof (cases "?ts = []")
    case True
    then have "run_schedule (length ?ts) [] (spawn ?ts, w') = (spawn [], t')" "xs = []" using xs by simp_all
    then show ?thesis by (intro exI [of _ "[]"] exI [of _ "spawn []"]) (simp add: spawn_def all_ended_def)
  next
    case False
    then have "0 < length ?ts" by simp
    from all_in_turn [OF this xs] show ?thesis by blast
  qed
  then obtain sched2 q where q: "run_schedule (length ?ts) sched2 (spawn ?ts, w') = (q, t')" "all_ended q" "ended q = xs"
    by blast
  show ?thesis
    using assms cs p w w' q live unfolding fanout_phases_def
    by (intro exI [of _ sched1] exI [of _ sched2]) (auto simp: run_parallel_def Let_def split: if_splits)
qed

lemma sequential_is_a_schedule:
  assumes run: "run_state (handleFanout E cfg snapID rb) s = (resp, t)"
  shows "\<exists>sched1 sched2. run_state (handleFanout_par E cfg sched1 sched2 snapID rb) s = (Some resp, t)"
proof -
  obtain r u where u: "run_state (reg_GetSnapshot E snapID) s = (r, u)" by fastforce
  show ?thesis
  proof (cases r)
    case (Inl e)
    then show ?thesis using run u by (simp add: handleFanout_def handleFanout_par_def)
  next
    case snap: (Inr snap)
    show ?thesis
    proof (cases "fanout_body rb")
      case (Inl e)
      then show ?thesis using run u snap by (simp add: handleFanout_def handleFanout_par_def)
    next
      case (Inr b)
      obtain n timeout where b: "b = (n, timeout)" by fastforce
      obtain ex v where v: "run_state (expires_at E timeout) u = (ex, v)" by fastforce
      obtain st w where w: "run_state (stage_baked E snap) v = (st, w)" by fastforce
      show ?thesis
      proof (cases st)
        case (Inl e)
        then show ?thesis using run u snap Inr b v w by (simp add: handleFanout_def handleFanout_par_def)
      next
        case staged: (Inr staged)
        have "run_state (do {
            clones \<leftarrow> bring_up_clones E cfg snap ex (nat n);
            _ \<leftarrow> (if staged then RemoveRootfs E (sn_source_rootfs_path snap) else return (Inr ()));
            _ \<leftarrow> call E (SleepNs 1500000000);
            live \<leftarrow> finish_clones E cfg clones;
            if live = [] then httpError 500 ErrAllClonesFailed else writeJSON 201 (BSandboxes live) }) w = (resp, t)"
          using run u snap Inr b v w staged unfolding handleFanout_def by simp
        from phases_in_turn [OF this] obtain sched1 sched2 where
          "run_state (fanout_phases E cfg sched1 sched2 snap ex (nat n) staged) w = (Some resp, t)" by blast
        then have "run_state (handleFanout_par E cfg sched1 sched2 snapID rb) s = (Some resp, t)"
          using u snap Inr b v w staged unfolding handleFanout_par_def by simp
        then show ?thesis by blast
      qed
    qed
  qed
qed

subsection \<open>Any interleaving\<close>

lemma disjoint_Cons: "disjoint_claims (g # gs) \<longleftrightarrow> disjoint_claims gs \<and> claim_ids g \<inter> claimed gs = {}"
proof
  assume d: "disjoint_claims (g # gs)"
  have "claim_ids (gs ! i) \<inter> claim_ids (gs ! j) = {}" if "i < length gs" "j < length gs" "i \<noteq> j" for i j
    using d [unfolded disjoint_claims_def, rule_format, of "Suc i" "Suc j"] that by simp
  moreover have "claim_ids g \<inter> claim_ids (gs ! j) = {}" if "j < length gs" for j
    using d [unfolded disjoint_claims_def, rule_format, of 0 "Suc j"] that by simp
  ultimately show "disjoint_claims gs \<and> claim_ids g \<inter> claimed gs = {}"
    unfolding disjoint_claims_def claimed_nth by blast
next
  assume d: "disjoint_claims gs \<and> claim_ids g \<inter> claimed gs = {}"
  then have "claim_ids g \<inter> claim_ids (gs ! j) = {}" if "j < length gs" for j
    using claim_in [OF that] by blast
  with d show "disjoint_claims (g # gs)"
    unfolding disjoint_claims_def by (auto simp: nth_Cons' Int_commute)
qed

text \<open>Tasks that claim nothing can be forgotten.\<close>

lemma claimed_filter: "claimed (filter (\<lambda>g. g \<noteq> None) gs) = claimed gs"
proof (intro equalityI subsetI)
  fix x assume "x \<in> claimed gs"
  then obtain g where g: "g \<in> set gs" "x \<in> claim_ids g" unfolding claimed_def by blast
  then have "g \<noteq> None" by (metis claim_ids_simps(1) empty_iff)
  with g(1) have "g \<in> set (filter (\<lambda>g. g \<noteq> None) gs)" unfolding set_filter by blast
  with g(2) show "x \<in> claimed (filter (\<lambda>g. g \<noteq> None) gs)" unfolding claimed_def by blast
next
  fix x assume "x \<in> claimed (filter (\<lambda>g. g \<noteq> None) gs)"
  then show "x \<in> claimed gs" unfolding claimed_def set_filter by blast
qed

lemma claims_forget:
  assumes "claims_inv B M gs s"
  shows "claims_inv B M (filter (\<lambda>g. g \<noteq> None) gs) s"
proof -
  have "disjoint_claims gs \<Longrightarrow> disjoint_claims (filter (\<lambda>g. g \<noteq> None) gs)" for gs
    by (induction gs) (simp_all add: disjoint_Cons claimed_filter del: not_None_eq)
  then show ?thesis using assms unfolding claims_inv_def claimed_filter set_filter by blast
qed

lemma claims_nothing:
  assumes "registry_ok (reg_db s)" "tracked_ok s"
  shows "claims_inv (reg_db s) (machines s) (replicate n None) s"
  using assms tracked_okD [OF assms(2)]
  by (auto simp: claims_inv_def disjoint_claims_def claim_holds_def claimed_def)

definition up_claims :: "sandbox \<times> machine \<times> runtime_config \<Rightarrow> claim \<Rightarrow> bool" where
  "up_claims x g = (case x of (sb, m, rt) \<Rightarrow> claims_sandbox sb False g \<and> no_process sb)"

lemma came_up_claims:
  "list_all2 cloned cs gs \<Longrightarrow> list_all2 up_claims (came_up cs) (filter (\<lambda>g. g \<noteq> None) gs)"
  by (induction rule: list_all2_induct)
    (auto simp: came_up_def List.map_filter_def cloned_def up_claims_def claims_sandbox_def split: sum.splits)

lemma live_claims:
  "length xs = length gs \<Longrightarrow> length ups = length gs \<Longrightarrow>
     (\<And>i. i < length gs \<Longrightarrow> live_or_gone (fst (ups ! i)) (xs ! i) (gs ! i)) \<Longrightarrow>
     disjoint_claims gs \<Longrightarrow>
     distinct (map sb_id (List.map_filter (\<lambda>x. x) xs)) \<and> claimed gs = sb_id ` set (List.map_filter (\<lambda>x. x) xs) \<and>
     set (List.map_filter (\<lambda>x. x) xs) \<subseteq> fst ` set ups \<and> (\<forall>g \<in> set gs. \<forall>r b. g = Some (r, b) \<longrightarrow> b)"
proof (induction gs arbitrary: xs ups)
  case Nil
  then show ?case by (simp add: claimed_def List.map_filter_def)
next
  case (Cons g gs)
  obtain x xs' u ups' where c: "xs = x # xs'" "ups = u # ups'"
    using Cons.prems(1,2) by (cases xs; cases ups) auto
  have here: "live_or_gone (fst u) x g" using Cons.prems(3) [of 0] c by simp
  have "live_or_gone (fst (ups' ! i)) (xs' ! i) (gs ! i)" if "i < length gs" for i
    using Cons.prems(3) [of "Suc i"] that c by simp
  then have IH: "distinct (map sb_id (List.map_filter (\<lambda>x. x) xs'))" "claimed gs = sb_id ` set (List.map_filter (\<lambda>x. x) xs')"
    "set (List.map_filter (\<lambda>x. x) xs') \<subseteq> fst ` set ups'" "\<forall>g \<in> set gs. \<forall>r b. g = Some (r, b) \<longrightarrow> b"
    using Cons.IH [of xs' ups'] Cons.prems c by (auto simp: disjoint_Cons)
  have apart: "claim_ids g \<inter> claimed gs = {}" using Cons.prems(4) by (simp add: disjoint_Cons)
  have all: "claimed (g # gs) = claim_ids g \<union> claimed gs" by (simp add: claimed_def)
  show ?case
  proof (cases x)
    case None
    then show ?thesis using here IH c all by (auto simp: live_or_gone_def List.map_filter_def)
  next
    case (Some sb)
    then obtain r where r: "sb = fst u" "g = Some (r, True)" "c_id r = sb_id sb"
      using here by (auto simp: live_or_gone_def claims_sandbox_def)
    then show ?thesis using Some IH c all apart by (auto simp: List.map_filter_def)
  qed
qed

definition settled :: "server \<Rightarrow> response option \<Rightarrow> server \<Rightarrow> bool" where
  "settled s r t \<longleftrightarrow> (\<forall>resp. r = Some resp \<longrightarrow> fanout_post s resp t)"

lemma phase1_outcome:
  assumes "cleanup_ok E" "claims_inv B M (replicate n None) u"
    and "run_schedule cap sched (spawn (replicate n (clone_task E cfg snap e)), u) = (p, v)" "all_ended p"
  shows "\<exists>gs. claims_inv B M gs v \<and> list_all2 up_claims (came_up (results p)) gs"
proof -
  have "\<exists>gs. length gs = length (replicate n (clone_task E cfg snap e)) \<and>
      length (results p) = length (replicate n (clone_task E cfg snap e)) \<and> claims_inv B M gs v \<and>
      (\<forall>i < length (replicate n (clone_task E cfg snap e)). cloned (results p ! i) (gs ! i))"
    by (rule safe_outcome [where I = "claims_inv B M" and s = u and gs = "replicate n None"])
      (use assms clone_safe [OF assms(1)] in simp_all)
  then obtain gs where "claims_inv B M gs v" "list_all2 cloned (results p) gs"
    by (auto simp: list_all2_conv_all_nth)
  then show ?thesis using claims_forget came_up_claims by blast
qed

lemma phase2_outcome:
  assumes "cleanup_ok E" "claims_inv B M gs u" "list_all2 up_claims ups gs"
    and "run_schedule cap sched (spawn (map (live_task E cfg) ups), u) = (q, v)" "all_ended q"
  shows "\<exists>gs'. claims_inv B M gs' v \<and> claimed gs' = sb_id ` set (List.map_filter (\<lambda>x. x) (results q)) \<and>
    distinct (map sb_id (List.map_filter (\<lambda>x. x) (results q))) \<and>
    set (List.map_filter (\<lambda>x. x) (results q)) \<subseteq> fst ` set ups \<and> (\<forall>g \<in> set gs'. \<forall>r b. g = Some (r, b) \<longrightarrow> b)"
proof -
  have len: "length gs = length ups" using assms(3) by (simp add: list_all2_lengthD)
  have safe: "safe (claims_inv B M) (live_or_gone (fst (ups ! i))) (live_task E cfg (ups ! i)) (gs ! i)" if "i < length ups" for i
  proof -
    obtain sb m rt where x: "ups ! i = (sb, m, rt)" by (cases "ups ! i") auto
    have "up_claims (ups ! i) (gs ! i)" using assms(3) that by (simp add: list_all2_nthD)
    then obtain r where "gs ! i = Some (r, False)" "c_id r = sb_id sb" using x by (auto simp: up_claims_def claims_sandbox_def)
    then show ?thesis using live_safe [OF assms(1)] x by simp
  qed
  have "\<exists>gs'. length gs' = length (map (live_task E cfg) ups) \<and> length (results q) = length (map (live_task E cfg) ups) \<and>
      claims_inv B M gs' v \<and> (\<forall>i < length (map (live_task E cfg) ups). live_or_gone (fst (ups ! i)) (results q ! i) (gs' ! i))"
  proof (rule safe_outcome [where I = "claims_inv B M" and s = u and gs = gs])
    show "run_schedule cap sched (spawn (map (live_task E cfg) ups), u) = (q, v)" by (rule assms(4))
  qed (simp_all add: len safe assms(2,5))
  then obtain gs' where gs': "length gs' = length ups" "length (results q) = length ups" "claims_inv B M gs' v"
    "\<forall>i < length ups. live_or_gone (fst (ups ! i)) (results q ! i) (gs' ! i)"
    by auto
  have "disjoint_claims gs'" using gs'(3) by (simp add: claims_inv_def)
  with gs' have "distinct (map sb_id (List.map_filter (\<lambda>x. x) (results q))) \<and>
      claimed gs' = sb_id ` set (List.map_filter (\<lambda>x. x) (results q)) \<and>
      set (List.map_filter (\<lambda>x. x) (results q)) \<subseteq> fst ` set ups \<and> (\<forall>g \<in> set gs'. \<forall>r b. g = Some (r, b) \<longrightarrow> b)"
    by (intro live_claims) simp_all
  with gs'(3) show ?thesis by blast
qed

lemma phase2_settled:
  assumes "cleanup_ok E" "claims_inv (reg_db s) (machines s) gs v" "list_all2 up_claims ups gs"
    and "run_schedule cap sched2 (spawn (map (live_task E cfg) ups), v) = (q, t)" "all_ended q"
    and "alive = List.map_filter (\<lambda>x. x) (ended q)"
  shows "settled s (Some (if alive = [] then (500, BError ErrAllClonesFailed) else (201, BSandboxes alive))) t"
proof -
  from phase2_outcome [OF assms(1-5)] obtain gs' where
    inv: "claims_inv (reg_db s) (machines s) gs' t" and
    ids: "claimed gs' = sb_id ` set (List.map_filter (\<lambda>x. x) (results q))" and
    dist: "distinct (map sb_id (List.map_filter (\<lambda>x. x) (results q)))" and
    from_ups: "set (List.map_filter (\<lambda>x. x) (results q)) \<subseteq> fst ` set ups" and
    tracked: "\<forall>g \<in> set gs'. \<forall>r b. g = Some (r, b) \<longrightarrow> b" by blast
  have "mset (ended q) = mset (results q)"
    using schedule_log [of cap sched2 "map (live_task E cfg) ups" v] assms(4) by (simp add: log_complete_def)
  then have same: "mset alive = mset (List.map_filter (\<lambda>x. x) (results q))"
    unfolding assms(6) List.map_filter_def by simp
  then have set: "set alive = set (List.map_filter (\<lambda>x. x) (results q))" by (rule mset_eq_setD)
  have dist': "distinct (map sb_id alive)"
    using dist same by (metis mset_map mset_eq_imp_distinct_iff)
  have no: "no_process sb" if sb: "sb \<in> set alive" for sb
  proof -
    obtain x where "x \<in> set ups" "fst x = sb" using from_ups sb unfolding set by blast
    then obtain i where "i < length ups" "ups ! i = x" by (auto simp: in_set_conv_nth)
    then have "up_claims x (gs ! i)" using assms(3) list_all2_nthD by blast
    then show ?thesis using \<open>fst x = sb\<close> by (cases x) (simp add: up_claims_def)
  qed
  have here: "find_sandbox x (reg_db t) \<noteq> None \<and> machines t x \<noteq> None" if "x \<in> sb_id ` set alive" for x
  proof -
    have "x \<in> claimed gs'" using that ids set by simp
    then obtain g r b where "g \<in> set gs'" "g = Some (r, b)" "x = c_id r"
      unfolding claimed_def by (auto simp: claim_ids_def split: option.splits)
    then show ?thesis using inv tracked by (auto simp: claims_inv_def claim_holds_def)
  qed
  have I: "delete_all (sb_id ` set alive) (reg_db t) = reg_db s" "registry_ok (reg_db t)"
    "\<And>x. x \<notin> sb_id ` set alive \<Longrightarrow> machines t x = machines s x"
    using inv unfolding claims_inv_def ids set by blast+
  have fresh: "find_sandbox x (reg_db s) = None" if "x \<in> sb_id ` set alive" for x
    using that I(1) by (metis find_delete_all)
  show ?thesis
  proof (cases "alive = []")
    case True
    then show ?thesis using I by (simp add: settled_def fanout_post_def fun_eq_iff)
  next
    case False
    then show ?thesis
      using I dist' no here fresh by (auto simp: settled_def fanout_post_def added_def)
  qed
qed

lemma fanout_phases_wp:
  assumes "cleanup_ok E" "registry_ok (reg_db s)" "tracked_ok s" "reg_db u = reg_db s" "machines u = machines s"
  shows "wp (fanout_phases E cfg sched1 sched2 snap e n staged) (settled s) u"
proof -
  have start: "claims_inv (reg_db s) (machines s) (replicate n None) u"
    using claims_host [OF claims_nothing [OF assms(2,3)] assms(4,5)] .
  have clean: "state_io_rel host_only (if staged then RemoveRootfs E (sn_source_rootfs_path snap) else return (Inr ()))"
    by (intro host_frame.io_intros io_host)
  show ?thesis
  proof (cases "run_schedule 8 sched1 (spawn (replicate n (clone_task E cfg snap e)), u)")
    case (Pair p v)
    show ?thesis
    proof (cases "all_ended p")
      case False
      then show ?thesis using Pair by (simp add: fanout_phases_def wp settled_def)
    next
      case True
      from phase1_outcome [OF assms(1) start Pair True] obtain gs where
        gs: "claims_inv (reg_db s) (machines s) gs v" "list_all2 up_claims (came_up (results p)) gs" by blast
      let ?ts = "map (live_task E cfg) (came_up (results p))"
      have fin: "wp (do {
           q \<leftarrow> run_parallel (length ?ts) sched2 ?ts;
           if \<not> all_ended q then return None
           else return (Some (if List.map_filter (\<lambda>x. x) (ended q) = [] then (500, BError ErrAllClonesFailed)
             else (201, BSandboxes (List.map_filter (\<lambda>x. x) (ended q))))) }) (settled s) w"
        if w: "reg_db w = reg_db v" "machines w = machines v" for w
      proof (cases "run_schedule (length ?ts) sched2 (spawn ?ts, w)")
        case (Pair q t)
        have "settled s None t" by (simp add: settled_def)
        with phase2_settled [OF assms(1) claims_host [OF gs(1) w] gs(2) Pair _ refl] show ?thesis
          by (subst wp_bind, unfold wp_run_parallel Pair prod.case wp_if wp_return)
            (cases "all_ended q"; simp only: not_True_eq_False not_False_eq_True if_True if_False)
      qed
      have "wp (do {
           _ \<leftarrow> (if staged then RemoveRootfs E (sn_source_rootfs_path snap) else return (Inr ()));
           _ \<leftarrow> call E (SleepNs 1500000000);
           q \<leftarrow> run_parallel (length ?ts) sched2 ?ts;
           if \<not> all_ended q then return None
           else return (Some (if List.map_filter (\<lambda>x. x) (ended q) = [] then (500, BError ErrAllClonesFailed)
             else (201, BSandboxes (List.map_filter (\<lambda>x. x) (ended q))))) }) (settled s) v"
        by (subst wp_bind, rule host_wp [OF clean], subst wp_bind, rule host_wp [OF call_host_only], rule fin) simp_all
      with Pair True show ?thesis
        unfolding fanout_phases_def Let_def by (subst wp_bind) (simp only: wp_run_parallel prod.case not_True_eq_False if_False)
    qed
  qed
qed

lemma handleFanout_par_wp:
  assumes "cleanup_ok E" "registry_ok (reg_db s)" "tracked_ok s"
    and "GetSnapshot (db_faults E (calls s) (OpGetSnapshot snapID)) snapID (reg_db s) = Inr snap"
  shows "wp (handleFanout_par E cfg sched1 sched2 snapID rb) (settled s) s"
proof -
  have fail: "settled s (Some (code, BError e)) t"
    if "code \<noteq> 201" "reg_db t = reg_db s" "machines t = machines s" for code e t
    using that by (auto simp: settled_def fanout_post_def)
  show ?thesis
    unfolding handleFanout_par_def reg_GetSnapshot_def wp
    by (auto simp: assms(4) split: sum.split intro!: host_wps stage_host_only [THEN host_wp] fail fanout_phases_wp [OF assms(1-3)])
qed

text \<open>
  C5: Fanning out with its goroutines, at most eight bring-ups at a time, in every
  interleaving of their steps that ends: the answer is 201 exactly with the clones that were
  added, at least one, under distinct ids, each with a row and a tracked machine; without
  them tables and machines are what they were, so clones that failed in either phase leave
  nothing behind. Any other answer means that nothing changed at all.
\<close>
theorem handleFanout_par_adds_exactly_live:
  assumes "registry_ok (reg_db s)" "cleanup_ok E" "tracked_ok s"
    and "GetSnapshot (db_faults E (calls s) (OpGetSnapshot snapID)) snapID (reg_db s) = Inr snap"
    and "run_state (handleFanout_par E cfg sched1 sched2 snapID rb) s = (Some (code, b), t)"
  shows "if code = 201
    then \<exists>live. b = BSandboxes live \<and> live \<noteq> [] \<and> distinct (map sb_id live) \<and>
      (\<forall>sb \<in> set live. find_sandbox (sb_id sb) (reg_db t) \<noteq> None \<and> machines t (sb_id sb) \<noteq> None) \<and>
      delete_all (sb_id ` set live) (reg_db t) = reg_db s \<and>
      (\<forall>x. x \<in> sb_id ` set live \<or> machines t x = machines s x)
    else reg_db t = reg_db s \<and> machines t = machines s"
  using wp_run [OF assms(5) handleFanout_par_wp [OF assms(2,1,3,4)]]
  by (fastforce simp: settled_def fanout_post_def added_def)

theorem handleFanout_par_adds_exactly_live_witness:
  "\<exists>sched1 sched2 code b t.
     run_state (handleFanout_par sunny sample_cfg sched1 sched2 ''s'' (Decoded (2, 60))) server_free = (Some (code, b), t) \<and>
     (if code = 201
      then \<exists>live. b = BSandboxes live \<and> live \<noteq> [] \<and> delete_all (sb_id ` set live) (reg_db t) = reg_db server_free
      else reg_db t = reg_db server_free)"
proof -
  obtain code b t where run: "run_state (handleFanout sunny sample_cfg ''s'' (Decoded (2, 60))) server_free = ((code, b), t)"
    by (metis prod.exhaust)
  from sequential_is_a_schedule [OF this] obtain sched1 sched2 where
    par: "run_state (handleFanout_par sunny sample_cfg sched1 sched2 ''s'' (Decoded (2, 60))) server_free = (Some (code, b), t)"
    by blast
  from handleFanout_par_adds_exactly_live [OF free_snap(1) sunny_cleanup free_snap(2,3) par]
  have "if code = 201
      then \<exists>live. b = BSandboxes live \<and> live \<noteq> [] \<and> delete_all (sb_id ` set live) (reg_db t) = reg_db server_free
      else reg_db t = reg_db server_free"
    by (auto split: if_splits)
  with par show ?thesis by blast
qed

text \<open>At every moment at most eight clones are being brought up.\<close>

lemma bring_up_bounded:
  "under_way (fst (run_schedule 8 sched (spawn (replicate n (clone_task E cfg snap e)), s))) \<le> 8"
  by (rule schedule_under_way)

end
