(* ===== verification/Races.thy ===== *)
theory Races
  imports Concurrent_Props Liveness
begin

text \<open>
  What the handlers do not exclude: a destruction under way releases by the row it has read,
  whoever has the tap by then; a port is forwarded although its sandbox has been destroyed
  meanwhile; the reaper destroys by a list that has been overtaken. Each theorem takes
  a handler to the point where it has read the registry, lets anything happen, and runs the
  handler to its end.
\<close>

subsection \<open>A goroutine that waits\<close>

lemma turn_other: "i \<noteq> j \<Longrightarrow> gos (fst (turn cap i (p, s))) ! j = gos p ! j"
  by (rule turn_cases [of cap i p s]) simp_all

lemma schedule_other:
  "j \<notin> set sched \<Longrightarrow> gos (fst (run_schedule cap sched (p, s))) ! j = gos p ! j"
proof (induction sched arbitrary: p s)
  case (Cons i sched)
  then show ?case using turn_other [of i j cap p s] by (cases "turn cap i (p, s)") auto
qed simp

lemma turn_act:
  "0 < length (gos p) \<Longrightarrow> gos p ! 0 = Active (act m k) \<Longrightarrow> run_state m s = (r, s') \<Longrightarrow>
     turn cap 0 (p, s) = (p\<lparr>gos := (gos p)[0 := Active (k r)]\<rparr>, s')"
  by (simp add: turn_def act_def)

text \<open>The first job, started, with its rest as its task after \<open>sched\<close>.\<close>

definition first_at :: "(server, 'a) pool \<times> server \<Rightarrow> 'a server_task \<Rightarrow> server \<Rightarrow> nat \<Rightarrow> bool" where
  "first_at ps t s n \<longleftrightarrow> (case ps of (p, u) \<Rightarrow> u = s \<and> length (gos p) = n \<and> 0 < n \<and> gos p ! 0 = Active t)"

lemma first_start: "jobs \<noteq> [] \<Longrightarrow> first_at (run_jobs E cfg jobs [0] s) (job_task E cfg (hd jobs)) s (length jobs)"
proof -
  assume "jobs \<noteq> []"
  moreover have "filter is_active (map Queued ts) = []" for ts :: "job_result server_task list"
    by (induction ts) (simp_all add: is_active_def)
  ultimately show ?thesis
    by (cases jobs) (auto simp: first_at_def run_jobs_def turn_def spawn_def is_active_def)
qed

lemma first_turn:
  assumes "first_at ps (act m k) s n" "run_state m s = (r, s')"
  shows "first_at (turn cap 0 ps) (k r) s' n"
  using assms turn_act [of "fst ps" m k s r s' cap] by (cases ps) (auto simp: first_at_def)

lemma run_jobs_snoc: "run_jobs E cfg jobs (sched @ [i]) s = turn (length jobs) i (run_jobs E cfg jobs sched s)"
  by (simp add: run_jobs_def)

lemma first_step:
  assumes "first_at (run_jobs E cfg jobs sched s) (act m k) u n" "run_state m u = (r, u')"
  shows "first_at (run_jobs E cfg jobs (sched @ [0]) s) (k r) u' n"
  unfolding run_jobs_snoc by (rule first_turn [OF assms])

lemma first_resume:
  assumes "first_at (run_jobs E cfg jobs sched s) t v n" "0 \<notin> set mid"
    and "run_jobs E cfg jobs (sched @ mid) s = (p, u)" "run_state (run_task t) u = (x, u')"
  shows "\<exists>k q. run_jobs E cfg jobs (sched @ mid @ replicate k 0) s = (q, u') \<and> gos q ! 0 = Ended x \<and>
    (\<forall>i. i \<noteq> 0 \<longrightarrow> gos q ! i = gos p ! i)"
proof -
  obtain p0 where p0: "run_jobs E cfg jobs sched s = (p0, v)" "length (gos p0) = n" "0 < n" "gos p0 ! 0 = Active t"
    using assms(1) by (auto simp: first_at_def split: prod.splits)
  have mid: "run_schedule (length jobs) mid (p0, v) = (p, u)"
    using assms(3) p0(1) by (simp add: run_jobs_def)
  then have at: "gos p ! 0 = Active t" "0 < length (gos p)"
    using schedule_other [OF assms(2), of "length jobs" p0 v] length_gos_schedule [of "length jobs" mid "(p0, v)"] p0
    by simp_all
  from run_to_end [OF at(2,1) assms(4)] obtain k where
    "run_schedule (length jobs) (replicate k 0) (p, u) = (p\<lparr>gos := (gos p)[0 := Ended x], ended := ended p @ [x]\<rparr>, u')" by blast
  then have "run_jobs E cfg jobs (sched @ mid @ replicate k 0) s = (p\<lparr>gos := (gos p)[0 := Ended x], ended := ended p @ [x]\<rparr>, u')"
    using p0(1) mid by (simp add: run_jobs_def)
  moreover have "gos (p\<lparr>gos := (gos p)[0 := Ended x], ended := ended p @ [x]\<rparr>) ! 0 = Ended x" using at(2) by simp
  ultimately show ?thesis by (intro exI [of _ k] exI conjI) auto
qed

subsection \<open>Two destructions of one sandbox\<close>

text \<open>Whether a tap exists, by the commands about it.\<close>

definition tap_call :: "string \<Rightarrow> host_call \<Rightarrow> bool \<Rightarrow> bool" where
  "tap_call tap c up = (if c = Cmd [''ip'', ''tuntap'', ''add'', ''dev'', tap, ''mode'', ''tap''] then True
     else if c = Cmd [''ip'', ''link'', ''delete'', tap] then False else up)"

definition tap_up :: "string \<Rightarrow> host_call list \<Rightarrow> bool" where
  "tap_up tap cs = fold (tap_call tap) cs False"

lemma tap_up_snoc: "tap_up tap (cs @ [c]) = tap_call tap c (tap_up tap cs)"
  by (simp add: tap_up_def)

lemma release_tap_down: "wp (release E cfg sb ports) (\<lambda>_ t. \<not> tap_up (sb_tap_device sb) (calls t)) s"
  unfolding release_def wp
  by (rule wp_any, rule wp_any)
    (auto simp: DeleteTap_def run_cmd_def RemoveRootfs_def remove_file_def wp tap_up_snoc tap_call_def)

lemma release_frame: "wp (release E cfg sb ports) (\<lambda>_ t. reg_db t = reg_db s \<and> machines t = machines s) s"
  by (intro host_wps) simp

text \<open>A deletion that has read row and ports and taken the machine, from there on.\<close>

definition destroy_rest :: "env \<Rightarrow> server_config \<Rightarrow> string \<Rightarrow> sandbox \<Rightarrow> port_mapping list \<Rightarrow> machine option \<Rightarrow> job_result server_task" where
  "destroy_rest E cfg sid sb ps v =
     act (case v of None \<Rightarrow> return () | Some m \<Rightarrow> stop_machine E m) (\<lambda>_.
     act (release E cfg sb ps) (\<lambda>_.
     act (reg_Destroy E sid) (\<lambda>x. Done (Responded (case x of
       Inl e \<Rightarrow> (500, BError (ErrRegistry e)) | Inr _ \<Rightarrow> (204, BEmpty))))))"

lemma t_bind_cases:
  "t_bind (case r of Inl e \<Rightarrow> f e | Inr v \<Rightarrow> g v) k = (case r of Inl e \<Rightarrow> t_bind (f e) k | Inr v \<Rightarrow> t_bind (g v) k)"
  "t_bind (case x of None \<Rightarrow> n | Some w \<Rightarrow> h w) k = (case x of None \<Rightarrow> t_bind n k | Some w \<Rightarrow> t_bind (h w) k)"
  by (simp_all split: sum.split option.split)

lemma destroy_job:
  "job_task E cfg (JDestroy sid) = act (reg_Get E sid) (\<lambda>r. case r of
     Inl e \<Rightarrow> Done (Responded (500, BError (ErrGetSandbox e)))
   | Inr sb \<Rightarrow> act (reg_Ports E sid) (\<lambda>ps. act (machines_LoadAndDelete sid)
       (destroy_rest E cfg sid sb (case ps of Inl _ \<Rightarrow> [] | Inr ports \<Rightarrow> ports))))"
proof -
  have last: "(case case x of Inl e \<Rightarrow> Inl (ErrRegistry e) | Inr y \<Rightarrow> Inr y of
      Inl e \<Rightarrow> Done (Responded (500, BError e)) | Inr _ \<Rightarrow> Done (Responded (204, BEmpty))) =
    Done (Responded (case x of Inl e \<Rightarrow> (500, BError (ErrRegistry e)) | Inr _ \<Rightarrow> (204, BEmpty)))"
    for x :: "reg_error + unit"
    by (cases x) simp_all
  show ?thesis
    by (simp add: handleDestroy_task_def destroy_task_def destroy_rest_def [abs_def] t_bind_cases last
        cong del: sum.case_cong_weak)
qed

lemma destroy_started:
  assumes "db_reliable E" "find_sandbox sid (reg_db s) = Some r" "Ports no_faults sid (reg_db s) = Inr ps"
  shows "\<exists>v u. first_at (run_jobs E cfg (JDestroy sid # jobs) [0, 0, 0, 0] s)
    (destroy_rest E cfg sid (scanSandbox r) ps v) u (Suc (length jobs)) \<and>
    reg_db u = reg_db s \<and> machines u = (machines s)(sid := None)"
proof -
  define s1 where "s1 = s\<lparr>calls := calls s @ [DbOp (OpGet sid)]\<rparr>"
  define s2 where "s2 = s1\<lparr>calls := calls s1 @ [DbOp (OpPorts sid)]\<rparr>"
  obtain v s3 where s3: "run_state (machines_LoadAndDelete sid) s2 = (v, s3)" by fastforce
  have get: "run_state (reg_Get E sid) s = (Inr (scanSandbox r), s1)" and ports: "run_state (reg_Ports E sid) s1 = (Inr ps, s2)"
    using assms by (simp_all add: reg_Get_def reg_Ports_def db_query_def Get_no_faults s1_def s2_def)
  have "first_at (run_jobs E cfg (JDestroy sid # jobs) [0] s) (job_task E cfg (JDestroy sid)) s (Suc (length jobs))"
    using first_start [of "JDestroy sid # jobs"] by simp
  from first_step [OF this [unfolded destroy_job] get] have
    "first_at (run_jobs E cfg (JDestroy sid # jobs) [0, 0] s) (act (reg_Ports E sid) (\<lambda>ps. act (machines_LoadAndDelete sid)
          (destroy_rest E cfg sid (scanSandbox r) (case ps of Inl _ \<Rightarrow> [] | Inr ports \<Rightarrow> ports)))) s1 (Suc (length jobs))" by simp
  from first_step [OF this ports] have
    "first_at (run_jobs E cfg (JDestroy sid # jobs) [0, 0, 0] s) (act (machines_LoadAndDelete sid)
          (destroy_rest E cfg sid (scanSandbox r) ps)) s2 (Suc (length jobs))" by simp
  from first_step [OF this s3] have
    "first_at (run_jobs E cfg (JDestroy sid # jobs) [0, 0, 0, 0] s) (destroy_rest E cfg sid (scanSandbox r) ps v) s3 (Suc (length jobs))"
    by simp
  moreover have "reg_db s3 = reg_db s" "machines s3 = (machines s)(sid := None)"
    using s3 by (auto simp: machines_LoadAndDelete_def s1_def s2_def)
  ultimately show ?thesis by blast
qed

text \<open>What the rest of a deletion does, wherever the others have brought the state.\<close>

definition cut_off :: "string \<Rightarrow> string \<Rightarrow> server \<Rightarrow> job_result \<Rightarrow> server \<Rightarrow> bool" where
  "cut_off sid tap u x t \<longleftrightarrow> (\<exists>resp. x = Responded resp) \<and> \<not> tap_up tap (calls t) \<and>
     filter (\<lambda>x. c_id x \<noteq> sid) (sandboxes (reg_db t)) = filter (\<lambda>x. c_id x \<noteq> sid) (sandboxes (reg_db u)) \<and>
     machines t = machines u"

lemma destroy_rest_cuts:
  "wp (run_task (destroy_rest E cfg sid sb ps v)) (cut_off sid (sb_tap_device sb) u) u"
  unfolding destroy_rest_def run_act wp_bind
proof (rule host_wp [OF stop_host_only])
  fix a and w :: server
  assume w: "reg_db w = reg_db u" "machines w = machines u"
  have "wp (release E cfg sb ps) (\<lambda>_ t. \<not> tap_up (sb_tap_device sb) (calls t) \<and> reg_db t = reg_db w \<and> machines t = machines w) w"
    by (intro wp_conj release_frame release_tap_down)
  then show "wp (release E cfg sb ps) (\<lambda>_. wp (reg_Destroy E sid) (\<lambda>x. wp (run_task (Done (Responded (case x of
      Inl e \<Rightarrow> (500, BError (ErrRegistry e)) | Inr _ \<Rightarrow> (204, BEmpty))))) (cut_off sid (sb_tap_device sb) u))) w"
  proof (rule wp_conseq)
    fix b and y :: server
    assume y: "\<not> tap_up (sb_tap_device sb) (calls y) \<and> reg_db y = reg_db w \<and> machines y = machines w"
    obtain e d where d: "Destroy (db_faults E (calls y) (OpDestroy sid)) sid (reg_db y) = (e, d)" by fastforce
    have "filter (\<lambda>x. c_id x \<noteq> sid) (sandboxes d) = filter (\<lambda>x. c_id x \<noteq> sid) (sandboxes (reg_db y))"
      using d by (auto elim!: Destroy_cases simp: delete_sandbox_def delete_ports_of_def)
    then show "wp (reg_Destroy E sid) (\<lambda>x. wp (run_task (Done (Responded (case x of
        Inl e \<Rightarrow> (500, BError (ErrRegistry e)) | Inr _ \<Rightarrow> (204, BEmpty))))) (cut_off sid (sb_tap_device sb) u)) y"
      using d y w by (simp add: reg_Destroy_def wp tap_up_snoc tap_call_def cut_off_def)
  qed
qed

text \<open>
  C27: A destruction that has read its sandbox and taken its machine, and then waits for the
  guest to shut down, deletes the tap it has read about whatever happened meanwhile: also
  when the sandbox was destroyed by someone else and the tap belongs to another sandbox by
  then, which stays on record as running without a tap.
\<close>
theorem late_destroy_cuts_successor:
  assumes "db_reliable E" "find_sandbox sid (reg_db s) = Some r"
    and "0 \<notin> set mid" "run_jobs E cfg (JDestroy sid # jobs) ([0, 0, 0, 0] @ mid) s = (p, u)"
  shows "\<exists>k q t. run_jobs E cfg (JDestroy sid # jobs) ([0, 0, 0, 0] @ mid @ replicate k 0) s = (q, t) \<and>
    (\<exists>resp. gos q ! 0 = Ended (Responded resp)) \<and> (\<forall>i. i \<noteq> 0 \<longrightarrow> gos q ! i = gos p ! i) \<and>
    \<not> tap_up (c_tap_device r) (calls t) \<and>
    filter (\<lambda>x. c_id x \<noteq> sid) (sandboxes (reg_db t)) = filter (\<lambda>x. c_id x \<noteq> sid) (sandboxes (reg_db u)) \<and>
    machines t = machines u"
proof -
  obtain ps where "Ports no_faults sid (reg_db s) = Inr ps" by (simp add: Ports_def)
  from destroy_started [OF assms(1,2) this] obtain v w where
    at: "first_at (run_jobs E cfg (JDestroy sid # jobs) [0, 0, 0, 0] s) (destroy_rest E cfg sid (scanSandbox r) ps v) w (Suc (length jobs))"
    by blast
  obtain x t where run: "run_state (run_task (destroy_rest E cfg sid (scanSandbox r) ps v)) u = (x, t)" by fastforce
  have "cut_off sid (c_tap_device r) u x t"
    using wp_run [OF run destroy_rest_cuts] by (simp add: scanSandbox_def)
  with first_resume [OF at assms(3,4) run] show ?thesis unfolding cut_off_def by blast
qed

text \<open>The tap a creation answers with.\<close>

lemma bring_up_tap:
  "wp (bring_up E cfg sid sb m rt err n) (\<lambda>r t. \<forall>sb'. snd r = BSandbox sb' \<longrightarrow> sb_tap_device sb' = sb_tap_device sb) s"
  unfolding bring_up_def by (auto simp: wp started_def split: sum.split intro!: wp_any)

definition took_tap :: "server_config \<Rightarrow> registry_db \<Rightarrow> response \<Rightarrow> server \<Rightarrow> bool" where
  "took_tap cfg db r t \<longleftrightarrow> (\<forall>sb. snd r = BSandbox sb \<longrightarrow> pickFreeTap (u_taps (db_used db)) (RegPools cfg) = Inr (sb_tap_device sb))"

lemma create_tap: "wp (handleCreate E cfg rb) (took_tap cfg (reg_db s)) s"
proof -
  have fail: "took_tap cfg db (code, BError e) t" for db code e t
    by (simp add: took_tap_def)
  have rest: "wp (reg_Create E cfg sid path ex) (\<lambda>r. wp (case r of
        Inl e \<Rightarrow> do { _ \<leftarrow> CleanupRootfs E (Prov cfg) sid; httpError 500 (ErrRegistryCreate e) }
      | Inr sb \<Rightarrow> do {
          r \<leftarrow> CreateTap E (Prov cfg) (sb_tap_device sb);
          (case r of
             Inl e \<Rightarrow> do { _ \<leftarrow> rollbackPreVM E cfg sid sb; httpError 500 (ErrCreateTap e) }
           | Inr _ \<Rightarrow> do {
               mac \<leftarrow> randomMAC E;
               r \<leftarrow> NewMachine E (vm_options cfg path sb mac);
               (case r of
                  Inl e \<Rightarrow> do { _ \<leftarrow> rollbackPreVM E cfg sid sb; httpError 500 (ErrNewMachine e) }
                | Inr (m, rt) \<Rightarrow> bring_up E cfg sid sb m rt ErrStart 60000000000) }) }) (took_tap cfg (reg_db s))) u"
    if u: "reg_db u = reg_db s" for u :: server and sid path ex
  proof -
    obtain res db' where Pair: "Create (RegPools cfg) (db_faults E (calls u @ [Now]) (OpCreate sid))
      (r_num (answer E (calls u) Now)) sid path ex (reg_db s) = (res, db')" by fastforce
    show ?thesis
    proof (cases res)
      case (Inl e)
      then show ?thesis using Pair u unfolding reg_Create_def by (auto simp: wp intro!: wp_any fail)
    next
      case (Inr sb)
      then have pick: "pickFreeTap (u_taps (db_used (reg_db s))) (RegPools cfg) = Inr (sb_tap_device sb)"
        using Pair by (auto elim!: Create_cases simp: new_sandbox_def)
      have up: "wp (bring_up E cfg sid sb m rt err n) (took_tap cfg (reg_db s)) v" for m rt err n v
        by (rule wp_conseq [OF bring_up_tap]) (simp add: took_tap_def pick)
      show ?thesis
        using Inr Pair u unfolding reg_Create_def
        by (auto simp: wp split: sum.split prod.split intro!: host_wps wp_any [where m = "rollbackPreVM _ _ _ _"] fail up)
    qed
  qed
  show ?thesis
    unfolding handleCreate_def wp Let_def
    by (auto simp: wp split: sum.split intro!: host_wps fail rest [unfolded wp])
qed

lemma length_jobs: "length (gos (fst (run_jobs E cfg jobs sched s))) = length jobs"
  unfolding run_jobs_def by simp (simp add: spawn_def)

text \<open>Running a queued job of a pool to its end.\<close>

lemma job_runs:
  assumes "run_jobs E cfg jobs sched s = (p, u)" "i < length jobs" "gos p ! i = Queued t" "under_way p < length jobs"
    and "run_state (run_task t) u = (x, v)"
  shows "\<exists>n q. run_jobs E cfg jobs (sched @ replicate n i) s = (q, v) \<and> gos q = (gos p)[i := Ended x]"
proof -
  have "length (gos p) = length jobs" using length_jobs [of E cfg jobs sched s] assms(1) by simp
  then have "i < length (gos p)" using assms(2) by simp
  from run_queued [OF this assms(3,4,5)] assms(1) show ?thesis by (fastforce simp: run_jobs_def)
qed

lemma queued_job:
  assumes "run_jobs E cfg jobs sched s = (p, u)" "i \<notin> set sched" "i < length jobs"
  shows "gos p ! i = Queued (job_task E cfg (jobs ! i))"
  using schedule_other [OF assms(2), of "length jobs" "spawn (map (job_task E cfg) jobs)" s] assms(1,3)
  by (simp add: run_jobs_def spawn_def)

text \<open>
  Concretely: while a deletion waits for the guest of \<open>a\<close>, another deletion of \<open>a\<close> completes
  and a creation gets its tap \<open>fc0\<close>. Then the first deletion goes on. The new sandbox is on
  record and tracked, its creation was answered with 201, and its tap is gone.
\<close>

lemma mark_started:
  assumes "first_at ps t u 3" "\<And>i. i \<in> {1, 2} \<Longrightarrow> gos (fst ps) ! i = Queued (ts i)"
  shows "\<exists>p. ps = (p, u) \<and> gos p = [Active t, Queued (ts 1), Queued (ts 2)]"
proof -
  obtain p v where ps: "ps = (p, v)" by fastforce
  then have p: "v = u" "length (gos p) = 3" "gos p ! 0 = Active t" using assms(1) by (auto simp: first_at_def)
  then obtain a b c where "gos p = [a, b, c]" by (auto simp: numeral_3_eq_3 length_Suc_conv)
  with p assms(2) [of 1] assms(2) [of 2] ps show ?thesis by auto
qed

theorem late_destroy_cuts_successor_witness:
  "\<exists>sched q t sb. run_jobs sunny sample_cfg [JDestroy ''a'', JDestroy ''a'', JCreate NoBody] sched server_a = (q, t) \<and>
     gos q ! 2 = Ended (Responded (201, BSandbox sb)) \<and> sb_tap_device sb = ''fc0'' \<and>
     (\<exists>r \<in> set (sandboxes (reg_db t)). c_id r = sb_id sb) \<and> machines t (sb_id sb) \<noteq> None \<and> \<not> tap_up ''fc0'' (calls t)"
proof -
  let ?jobs = "[JDestroy ''a'', JDestroy ''a'', JCreate NoBody]"
  let ?run = "run_jobs sunny sample_cfg ?jobs"
  have a: "find_sandbox ''a'' (reg_db server_a) = Some row_a" "registry_ok (reg_db server_a)" "tracked_ok server_a"
    by (simp_all add: server_a_def find_a db_a_ok tracked_ok_def) (simp add: db_a_def row_a_def)
  obtain ps where "Ports no_faults ''a'' (reg_db server_a) = Inr ps" by (simp add: Ports_def)
  from destroy_started [OF sunny_reliable a(1) this, of sample_cfg "[JDestroy ''a'', JCreate NoBody]"] obtain v u where
    at: "first_at (?run [0, 0, 0, 0] server_a) (destroy_rest sunny sample_cfg ''a'' (scanSandbox row_a) ps v) u 3"
    and same: "reg_db u = reg_db server_a" "machines u = (machines server_a)(''a'' := None)"
    by (auto simp: numeral_3_eq_3)
  have u: "reg_db u = db_a" "machines u = Map.empty" using same by (simp_all add: server_a_def)
  have "gos (fst (?run [0, 0, 0, 0] server_a)) ! i = Queued (job_task sunny sample_cfg (?jobs ! i))" if "i \<in> {1, 2}" for i
    using queued_job [of sunny sample_cfg ?jobs "[0, 0, 0, 0]" server_a _ _ i] that by (auto simp: prod_eq_iff)
  from mark_started [OF at this] obtain p where p: "?run [0, 0, 0, 0] server_a = (p, u)"
    "gos p = [Active (destroy_rest sunny sample_cfg ''a'' (scanSandbox row_a) ps v),
       Queued (job_task sunny sample_cfg (JDestroy ''a'')), Queued (job_task sunny sample_cfg (JCreate NoBody))]"
    by auto
  obtain code b w where del: "run_state (handleDestroy sunny sample_cfg ''a'') u = ((code, b), w)" by (metis prod.exhaust)
  have w: "sandboxes (reg_db w) = []" "sandbox_ports (reg_db w) = []" "snapshots (reg_db w) = []" "machines w = Map.empty"
    using destroy_found [OF _ sunny_cleanup _ del] u by (auto simp: db_a_ok find_a delete_all_def) (simp_all add: db_a_def row_a_def)
  have "run_state (run_task (job_task sunny sample_cfg (JDestroy ''a''))) u = (Responded (code, b), w)"
    using del by (simp add: requests_alone)
  from job_runs [OF p(1) _ _ _ this, of 1] p(2) obtain n q where
    q: "?run ([0, 0, 0, 0] @ replicate n 1) server_a = (q, w)"
    "gos q = [Active (destroy_rest sunny sample_cfg ''a'' (scanSandbox row_a) ps v), Ended (Responded (code, b)),
       Queued (job_task sunny sample_cfg (JCreate NoBody))]"
    by (auto simp: under_way_def is_active_def)
  obtain code' b' t where create: "run_state (handleCreate sunny sample_cfg NoBody) w = ((code', b'), t)" by (metis prod.exhaust)
  have db: "reg_db w = empty_db" using w by (simp add: empty_db_def)
  have "code' = 201"
    by (rule handleCreate_succeeds [OF sunny_well _ _ _ _ _ _ _ _ _ create, where n = 0 and lo = "0xAC10000A" and hi = "0xAC10000B"])
      (simp_all add: db empty_db_ok timeout_of_def sample_cfg_def ip_range_sample parse_gateway del: ip_range.simps,
        simp_all add: Slots_sample port_slots_sample, simp_all add: empty_db_def find_sandbox_def)
  have "registry_ok (reg_db w)" "tracked_ok w" using db w(4) by (simp_all add: empty_db_ok tracked_ok_def)
  from wp_run [OF create handleCreate_wp [OF sunny_cleanup this], unfolded create_post_def fst_conv snd_conv] \<open>code' = 201\<close>
  obtain sb m where sb: "b' = BSandbox sb" "machines t (sb_id sb) = Some m" "Get no_faults (sb_id sb) (reg_db t) = Inr (whole_seconds sb)"
    "sb_id sb = fresh_id sunny w"
    by auto
  have "took_tap sample_cfg (reg_db w) (code', b') t" by (rule wp_run [OF create create_tap])
  then have tap: "sb_tap_device sb = ''fc0''"
    using sb(1) by (simp add: took_tap_def db sample_cfg_def pick_sample db_used_def empty_db_def)
  have "run_state (run_task (job_task sunny sample_cfg (JCreate NoBody))) w = (Responded (201, BSandbox sb), t)"
    using create sb(1) \<open>code' = 201\<close> by (simp add: requests_alone)
  from job_runs [OF q(1) _ _ _ this, of 2] q(2) obtain k r where
    r: "?run ([0, 0, 0, 0] @ (replicate n 1 @ replicate k 2)) server_a = (r, t)" "gos r ! 2 = Ended (Responded (201, BSandbox sb))"
    by (auto simp: under_way_def is_active_def)
  have other: "(0::nat) \<notin> set (replicate n 1 @ replicate k 2)" by simp
  from late_destroy_cuts_successor [OF sunny_reliable a(1) other r(1)] obtain j f z where
    f: "?run ([0, 0, 0, 0] @ (replicate n 1 @ replicate k 2) @ replicate j 0) server_a = (f, z)"
      "\<forall>i. i \<noteq> 0 \<longrightarrow> gos f ! i = gos r ! i" "\<not> tap_up (c_tap_device row_a) (calls z)" "machines z = machines t"
      "filter (\<lambda>x. c_id x \<noteq> ''a'') (sandboxes (reg_db z)) = filter (\<lambda>x. c_id x \<noteq> ''a'') (sandboxes (reg_db t))"
    by blast
  obtain x where found: "find_sandbox (sb_id sb) (reg_db t) = Some x"
    using sb(3) by (cases "find_sandbox (sb_id sb) (reg_db t)") (simp_all add: Get_no_faults)
  have x: "x \<in> set (sandboxes (reg_db t))" "c_id x = sb_id sb"
    using find_sandbox_SomeD [OF found] by simp_all
  have "sb_id sb \<noteq> ''a''"
    using dec_digits [of "CHR ''a''" "length (calls w)"] sb(4) by (auto simp: fresh_id_def sunny_def is_digit_def)
  then have "x \<in> set (filter (\<lambda>x. c_id x \<noteq> ''a'') (sandboxes (reg_db t)))" using x by simp
  then have "x \<in> set (sandboxes (reg_db z))" unfolding f(5) [symmetric] by simp
  moreover have "gos f ! 2 = Ended (Responded (201, BSandbox sb))" using f(2) r(2) by simp
  moreover have "\<not> tap_up ''fc0'' (calls z)" using f(3) by (simp add: row_a_def)
  moreover have "machines z (sb_id sb) \<noteq> None" using f(4) sb(2) by simp
  ultimately show ?thesis using f(1) tap x(2) by blast
qed

subsection \<open>A port exposed on a sandbox that goes away\<close>

lemma each_commands:
  assumes "\<And>args h. r_ok (answer E h (Cmd args))"
  shows "run_state (each_until_error (run_cmd E) xs) s = (Inr (), s\<lparr>calls := calls s @ map Cmd xs\<rparr>)"
  using assms by (induction xs arbitrary: s) (simp_all add: run_cmd_def call_def)

definition exposed :: "int \<Rightarrow> int \<Rightarrow> job_result" where
  "exposed gp hp = Responded (200, BPort \<lparr>pm_guest_port = gp, pm_host_port = hp\<rparr>)"

text \<open>An exposure that has found its sandbox and reserved a host port, from there on.\<close>

definition expose_rest :: "env \<Rightarrow> string \<Rightarrow> string \<Rightarrow> int \<Rightarrow> int \<Rightarrow> job_result server_task" where
  "expose_rest E sid ip gp hp =
     act (AddPortForwardTo E hp ip gp) (\<lambda>r. case r of
       Inl e \<Rightarrow> act (db_update E (OpDeletePort sid gp) (\<lambda>fl. DeletePort fl sid gp))
                    (\<lambda>_. Done (Responded (500, BError (ErrPortForward e))))
     | Inr _ \<Rightarrow> Done (exposed gp hp))"

lemma expose_job:
  assumes "1 \<le> gp" "gp \<le> 65535" "gp \<noteq> GuestPort (Network (Prov cfg))"
  shows "job_task E cfg (JExpose sid (Decoded gp)) = act (reg_Get E sid) (\<lambda>r. case r of
     Inl e \<Rightarrow> Done (Responded (404, BError (ErrRegistry e)))
   | Inr sb \<Rightarrow> act (reg_Ports E sid) (\<lambda>r. case r of
       Inl e \<Rightarrow> Done (Responded (500, BError (ErrRegistry e)))
     | Inr existing \<Rightarrow> (case find (\<lambda>pm. pm_guest_port pm = gp) existing of
         Some pm \<Rightarrow> Done (Responded (200, BPort pm))
       | None \<Rightarrow> act (db_update E (OpAddPort sid gp) (\<lambda>fl. AddPort (RegPools cfg) fl sid gp)) (\<lambda>r. case r of
           Inl e \<Rightarrow> Done (Responded (500, BError (ErrAllocatePort e)))
         | Inr hp \<Rightarrow> expose_rest E sid (sb_guest_ip sb) gp hp))))"
  using assms by (simp add: expose_task_def expose_rest_def [abs_def] exposed_def t_bind_cases
      cong del: sum.case_cong_weak option.case_cong_weak)

lemma expose_started:
  assumes "registry_ok (reg_db s)" "db_reliable E" "find_sandbox sid (reg_db s) = Some r"
    and gp: "1 \<le> gp" "gp \<le> 65535" "gp \<noteq> GuestPort (Network (Prov cfg))"
    and "find_port (sid, gp) (reg_db s) = None" "pickFreePort (u_ports (db_used (reg_db s))) (RegPools cfg) = Inr hp"
  shows "\<exists>u. first_at (run_jobs E cfg (JExpose sid (Decoded gp) # jobs) [0, 0, 0, 0] s)
    (expose_rest E sid (c_guest_ip r) gp hp) u (Suc (length jobs)) \<and> machines u = machines s \<and>
    reg_db u = (reg_db s)\<lparr>sandbox_ports := sandbox_ports (reg_db s) @ [\<lparr>p_sandbox_id = sid, p_guest_port = gp, p_host_port = hp\<rparr>]\<rparr>"
proof -
  obtain ps where ps: "Ports no_faults sid (reg_db s) = Inr ps" by (simp add: Ports_def)
  have none: "find (\<lambda>pm. pm_guest_port pm = gp) ps = None"
    using existing_mapping [OF assms(1) ps, of gp] assms(7) by simp
  define db where "db = (reg_db s)\<lparr>sandbox_ports := sandbox_ports (reg_db s) @ [\<lparr>p_sandbox_id = sid, p_guest_port = gp, p_host_port = hp\<rparr>]\<rparr>"
  have add: "AddPort (RegPools cfg) no_faults sid gp (reg_db s) = (Inr hp, db)"
    unfolding db_def using assms(3,7,8) by (intro AddPort_fresh) simp_all
  define s1 where "s1 = s\<lparr>calls := calls s @ [DbOp (OpGet sid)]\<rparr>"
  define s2 where "s2 = s1\<lparr>calls := calls s1 @ [DbOp (OpPorts sid)]\<rparr>"
  define s3 where "s3 = s2\<lparr>calls := calls s2 @ [DbOp (OpAddPort sid gp)], reg_db := db\<rparr>"
  have get: "run_state (reg_Get E sid) s = (Inr (scanSandbox r), s1)" and ports: "run_state (reg_Ports E sid) s1 = (Inr ps, s2)"
    and port: "run_state (db_update E (OpAddPort sid gp) (\<lambda>fl. AddPort (RegPools cfg) fl sid gp)) s2 = (Inr hp, s3)"
    using assms(2,3) ps add by (simp_all add: reg_Get_def reg_Ports_def db_query_def db_update_def Get_no_faults s1_def s2_def s3_def)
  let ?jobs = "JExpose sid (Decoded gp) # jobs"
  have "first_at (run_jobs E cfg ?jobs [0] s) (job_task E cfg (JExpose sid (Decoded gp))) s (Suc (length jobs))"
    using first_start [of ?jobs] by simp
  from first_step [OF this [unfolded expose_job [OF gp]] get] ports none have
    "\<exists>k. k (Inr ps) = act (db_update E (OpAddPort sid gp) (\<lambda>fl. AddPort (RegPools cfg) fl sid gp)) (\<lambda>x. case x of
           Inl e \<Rightarrow> Done (Responded (500, BError (ErrAllocatePort e)))
         | Inr hp \<Rightarrow> expose_rest E sid (c_guest_ip r) gp hp) \<and>
      first_at (run_jobs E cfg ?jobs [0, 0] s) (act (reg_Ports E sid) k) s1 (Suc (length jobs))"
    by (intro exI conjI) (auto simp: scanSandbox_def)
  then obtain k where k: "k (Inr ps) = act (db_update E (OpAddPort sid gp) (\<lambda>fl. AddPort (RegPools cfg) fl sid gp)) (\<lambda>x. case x of
           Inl e \<Rightarrow> Done (Responded (500, BError (ErrAllocatePort e)))
         | Inr hp \<Rightarrow> expose_rest E sid (c_guest_ip r) gp hp)"
      "first_at (run_jobs E cfg ?jobs [0, 0] s) (act (reg_Ports E sid) k) s1 (Suc (length jobs))" by blast
  have "first_at (run_jobs E cfg ?jobs [0, 0, 0] s) (k (Inr ps)) s2 (Suc (length jobs))"
    using first_step [OF k(2) ports] by simp
  from first_step [OF this [unfolded k(1)] port]
  have "first_at (run_jobs E cfg ?jobs [0, 0, 0, 0] s) (expose_rest E sid (c_guest_ip r) gp hp) s3 (Suc (length jobs))" by simp
  moreover have "machines s3 = machines s" "reg_db s3 = db" by (simp_all add: s1_def s2_def s3_def)
  ultimately show ?thesis unfolding db_def by blast
qed

text \<open>
  An exposure that has reserved its host port, and is then overtaken, adds its forwarding
  rules and answers 200 whatever happened meanwhile: also when the sandbox has been destroyed
  by then, and with it the reservation. The rules are issued after everything else, so nothing
  that has run removes them, and the host port is free to be given out again.
\<close>
theorem late_expose_forwards_anyway:
  assumes "registry_ok (reg_db s)" "db_reliable E" "find_sandbox sid (reg_db s) = Some r"
    and "1 \<le> gp" "gp \<le> 65535" "gp \<noteq> GuestPort (Network (Prov cfg))"
    and "find_port (sid, gp) (reg_db s) = None" "pickFreePort (u_ports (db_used (reg_db s))) (RegPools cfg) = Inr hp"
    and "\<And>h args. r_ok (answer E h (Cmd args))"
    and "0 \<notin> set mid" "run_jobs E cfg (JExpose sid (Decoded gp) # jobs) ([0, 0, 0, 0] @ mid) s = (p, u)"
  shows "\<exists>k q t. run_jobs E cfg (JExpose sid (Decoded gp) # jobs) ([0, 0, 0, 0] @ mid @ replicate k 0) s = (q, t) \<and>
    gos q ! 0 = Ended (exposed gp hp) \<and> (\<forall>i. i \<noteq> 0 \<longrightarrow> gos q ! i = gos p ! i) \<and>
    t = u\<lparr>calls := calls u @ map Cmd (forward_rules ''-A'' hp (c_guest_ip r) gp)\<rparr>"
proof -
  obtain v where at: "first_at (run_jobs E cfg (JExpose sid (Decoded gp) # jobs) [0, 0, 0, 0] s)
      (expose_rest E sid (c_guest_ip r) gp hp) v (Suc (length jobs))"
    using expose_started [OF assms(1-8), of jobs] by blast
  have "run_state (run_task (expose_rest E sid (c_guest_ip r) gp hp)) u =
      (exposed gp hp, u\<lparr>calls := calls u @ map Cmd (forward_rules ''-A'' hp (c_guest_ip r) gp)\<rparr>)"
    by (simp add: expose_rest_def AddPortForwardTo_def each_commands [OF assms(9)])
  from first_resume [OF at assms(10,11) this] show ?thesis by blast
qed

text \<open>Concretely: a deletion of \<open>a\<close> completes while an exposure of its port 8000 is about to add the rules.\<close>

theorem late_expose_forwards_anyway_witness:
  "\<exists>sched q t b cs. run_jobs sunny sample_cfg [JExpose ''a'' (Decoded 8000), JDestroy ''a''] sched server_a = (q, t) \<and>
     gos q ! 0 = Ended (exposed 8000 5201) \<and> gos q ! 1 = Ended (Responded (204, b)) \<and>
     sandboxes (reg_db t) = [] \<and> sandbox_ports (reg_db t) = [] \<and>
     calls t = cs @ map Cmd (forward_rules ''-A'' 5201 (c_guest_ip row_a) 8000)"
proof -
  let ?run = "run_jobs sunny sample_cfg [JExpose ''a'' (Decoded 8000), JDestroy ''a'']"
  have a: "registry_ok (reg_db server_a)" "find_sandbox ''a'' (reg_db server_a) = Some row_a"
    "find_port (''a'', 8000) (reg_db server_a) = None"
    by (simp_all add: server_a_def find_a db_a_ok) (simp add: db_a_def find_port_def)
  have gp: "(1::int) \<le> 8000" "(8000::int) \<le> 65535" "8000 \<noteq> GuestPort (Network (Prov sample_cfg))"
    by (simp_all add: sample_cfg_def)
  have hp: "pickFreePort (u_ports (db_used (reg_db server_a))) (RegPools sample_cfg) = Inr 5201"
    by (simp add: server_a_def db_a_def row_a_def db_used_def sample_cfg_def pick_sample)
  have ok: "r_ok (answer sunny h (Cmd args))" for h args by (simp add: sunny_def)
  from expose_started [OF a(1) sunny_reliable a(2) gp a(3) hp, of "[JDestroy ''a'']"] obtain u where
    at: "first_at (?run [0, 0, 0, 0] server_a) (expose_rest sunny ''a'' (c_guest_ip row_a) 8000 5201) u 2"
    and u: "reg_db u = db_ports" "machines u = machines server_a"
    by (auto simp: numeral_2_eq_2 server_a_def db_ports_def db_a_def)
  obtain p v where p: "?run [0, 0, 0, 0] server_a = (p, v)" by fastforce
  then have v: "v = u" "length (gos p) = 2" "gos p ! 0 = Active (expose_rest sunny ''a'' (c_guest_ip row_a) 8000 5201)"
    using at by (simp_all add: first_at_def)
  have queued: "gos p ! 1 = Queued (job_task sunny sample_cfg (JDestroy ''a''))"
    using queued_job [OF p, of 1] by simp
  have idle: "under_way p < 2"
    using v queued by (auto simp: numeral_2_eq_2 length_Suc_conv under_way_def is_active_def)
  obtain code b w where del: "run_state (handleDestroy sunny sample_cfg ''a'') u = ((code, b), w)" by (metis prod.exhaust)
  have "registry_ok (reg_db u)" "find_sandbox ''a'' (reg_db u) \<noteq> None"
    using u(1) db_ports_ok by (simp_all add: db_ports_def find_sandbox_def db_a_def row_a_def)
  from destroy_found [OF this(1) sunny_cleanup this(2) del]
  have w: "code = 204" "sandboxes (reg_db w) = []" "sandbox_ports (reg_db w) = []"
    by (simp_all add: u(1) delete_all_def) (simp_all add: db_ports_def db_a_def row_a_def)
  have run: "run_state (run_task (job_task sunny sample_cfg (JDestroy ''a''))) u = (Responded (204, b), w)"
    using del w(1) by (simp add: requests_alone)
  from job_runs [OF p [unfolded v(1)] _ queued _ run] idle obtain n q where
    q: "?run ([0, 0, 0, 0] @ replicate n 1) server_a = (q, w)" "gos q = (gos p)[1 := Ended (Responded (204, b))]"
    by auto
  have other: "(0::nat) \<notin> set (replicate n 1)" by simp
  from late_expose_forwards_anyway [OF a(1) sunny_reliable a(2) gp a(3) hp ok other q(1)] obtain k f z where
    f: "?run ([0, 0, 0, 0] @ replicate n 1 @ replicate k 0) server_a = (f, z)" "gos f ! 0 = Ended (exposed 8000 5201)"
      "\<forall>i. i \<noteq> 0 \<longrightarrow> gos f ! i = gos q ! i"
      "z = w\<lparr>calls := calls w @ map Cmd (forward_rules ''-A'' 5201 (c_guest_ip row_a) 8000)\<rparr>"
    by blast
  have "gos f ! 1 = Ended (Responded (204, b))" using f(3) q(2) v(2) by simp
  moreover have "sandboxes (reg_db z) = []" "sandbox_ports (reg_db z) = []"
    "calls z = calls w @ map Cmd (forward_rules ''-A'' 5201 (c_guest_ip row_a) 8000)"
    using f(4) w by simp_all
  ultimately show ?thesis using f(1,2) by blast
qed

subsection \<open>The reaper's list\<close>

lemma reap_started:
  assumes "db_faults E (calls s) OpExpired = no_faults"
  shows "\<exists>u. first_at (run_jobs E cfg (JReap now # jobs) [0, 0] s)
    (t_bind (reap_rest E cfg (collectSandboxes (filter (expired_row now) (sandboxes (reg_db s))))) (\<lambda>_. Done Ticked)) u (Suc (length jobs)) \<and>
    reg_db u = reg_db s \<and> machines u = machines s"
proof -
  let ?jobs = "JReap now # jobs"
  define s1 where "s1 = s\<lparr>calls := calls s @ [DbOp OpExpired]\<rparr>"
  have "first_at (run_jobs E cfg ?jobs [0] s) (job_task E cfg (JReap now)) s (Suc (length jobs))"
    using first_start [of ?jobs] by simp
  then have at: "first_at (run_jobs E cfg ?jobs [0] s) (act (db_query E OpExpired (\<lambda>fl. Expired fl now))
      (\<lambda>r. t_bind (case r of Inl e \<Rightarrow> Done () | Inr expired \<Rightarrow> reap_rest E cfg expired) (\<lambda>_. Done Ticked))) s (Suc (length jobs))"
    by (simp add: reap_task_def)
  have "run_state (db_query E OpExpired (\<lambda>fl. Expired fl now)) s =
      (Inr (collectSandboxes (filter (expired_row now) (sandboxes (reg_db s)))), s1)"
    by (simp add: db_query_def assms Expired_def s1_def)
  from first_step [OF at this] show ?thesis by (auto simp: s1_def)
qed

text \<open>
  The reaper destroys by the list it has read at its tick: whatever is done to a deadline
  between the reading and the destruction, every sandbox that was expired at the reading is
  destroyed, also one whose deadline has been moved into the future by then.
\<close>
theorem late_reap_overrules_timeout:
  assumes "cleanup_ok E" "db_faults E (calls s) OpExpired = no_faults"
    and "0 \<notin> set mid" "run_jobs E cfg (JReap now # jobs) ([0, 0] @ mid) s = (p, u)" "registry_ok (reg_db u)"
  shows "\<exists>k q t. run_jobs E cfg (JReap now # jobs) ([0, 0] @ mid @ replicate k 0) s = (q, t) \<and>
    gos q ! 0 = Ended Ticked \<and> (\<forall>i. i \<noteq> 0 \<longrightarrow> gos q ! i = gos p ! i) \<and>
    reg_db t = delete_all (c_id ` {r \<in> set (sandboxes (reg_db s)). expired_row now r}) (reg_db u)"
proof -
  let ?xs = "collectSandboxes (filter (expired_row now) (sandboxes (reg_db s)))"
  obtain v where at: "first_at (run_jobs E cfg (JReap now # jobs) [0, 0] s)
      (t_bind (reap_rest E cfg ?xs) (\<lambda>_. Done Ticked)) v (Suc (length jobs))"
    using reap_started [OF assms(2)] by blast
  obtain x t where run: "run_state (run_task (t_bind (reap_rest E cfg ?xs) (\<lambda>_. Done Ticked))) u = (x, t)" by fastforce
  then have each: "x = Ticked" "run_state (each (\<lambda>sb. destroy E cfg (sb_id sb)) ?xs) u = ((), t)"
    by (auto simp: reap_rest_alone split: prod.splits)
  have "sb_id ` set ?xs = c_id ` {r \<in> set (sandboxes (reg_db s)). expired_row now r}"
    by (simp add: collectSandboxes_def image_image scanSandbox_def)
  with wp_run [OF each(2) each_destroy_wp [OF assms(1,5)]]
  have "reg_db t = delete_all (c_id ` {r \<in> set (sandboxes (reg_db s)). expired_row now r}) (reg_db u)" by simp
  with first_resume [OF at assms(3,4) run] each(1) show ?thesis by blast
qed

text \<open>
  Concretely: while the reaper holds its list, a request without limit on \<open>a\<close> is answered
  with 200; then the reaper goes on and \<open>a\<close> is gone.
\<close>

theorem late_reap_overrules_timeout_witness:
  "\<exists>sched q t sb. run_jobs sunny sample_cfg [JReap 62000000000, JSetTimeout ''a'' (Decoded 0)] sched server_a = (q, t) \<and>
     gos q ! 0 = Ended Ticked \<and> gos q ! 1 = Ended (Responded (200, BSandbox sb)) \<and>
     sb_id sb = ''a'' \<and> sb_expires_at sb = None \<and> sandboxes (reg_db t) = []"
proof -
  let ?run = "run_jobs sunny sample_cfg [JReap 62000000000, JSetTimeout ''a'' (Decoded 0)]"
  let ?reap = "t_bind (reap_rest sunny sample_cfg (collectSandboxes (filter (expired_row 62000000000) (sandboxes (reg_db server_a)))))
    (\<lambda>_. Done Ticked)"
  have past: "expired_row 62000000000 row_a" by (simp add: expired_row_def row_a_def unixOrNil_def unix_def)
  have faults: "db_faults sunny (calls server_a) OpExpired = no_faults" by (simp add: sunny_def)
  from reap_started [OF faults, of sample_cfg 62000000000 "[JSetTimeout ''a'' (Decoded 0)]"] obtain u where
    at: "first_at (?run [0, 0] server_a) ?reap u 2" and u: "reg_db u = db_a"
    by (auto simp: numeral_2_eq_2 server_a_def)
  obtain p v where p: "?run [0, 0] server_a = (p, v)" by fastforce
  then have v: "v = u" "length (gos p) = 2" "gos p ! 0 = Active ?reap"
    using at by (simp_all add: first_at_def)
  have queued: "gos p ! 1 = Queued (job_task sunny sample_cfg (JSetTimeout ''a'' (Decoded 0)))"
    using queued_job [OF p, of 1] by simp
  have idle: "under_way p < 2"
    using v queued by (auto simp: numeral_2_eq_2 length_Suc_conv under_way_def is_active_def)
  let ?row = "row_a\<lparr>c_expires_at := None\<rparr>"
  have set_expiry: "SetExpiry no_faults ''a'' None db_a = (Inr (), db_a\<lparr>sandboxes := [?row]\<rparr>)"
    by (simp add: SetExpiry_def find_a update_sandbox_def) (simp add: db_a_def row_a_def unixOrNil_def)
  have get: "Get no_faults ''a'' (db_a\<lparr>sandboxes := [?row]\<rparr>) = Inr (scanSandbox ?row)"
    by (simp add: Get_no_faults find_sandbox_def) (simp add: row_a_def)
  obtain w where w: "run_state (handleSetTimeout sunny ''a'' (Decoded 0)) u = ((200, BSandbox (scanSandbox ?row)), w)"
      "reg_db w = db_a\<lparr>sandboxes := [?row]\<rparr>"
    using set_expiry get u by (simp add: handleSetTimeout_def timeout_of_def expires_at_def db_update_def reg_Get_def db_query_def)
  have run: "run_state (run_task (job_task sunny sample_cfg (JSetTimeout ''a'' (Decoded 0)))) u =
      (Responded (200, BSandbox (scanSandbox ?row)), w)"
    using w(1) by (simp add: requests_alone)
  from job_runs [OF p [unfolded v(1)] _ queued _ run] idle obtain n q where
    q: "?run ([0, 0] @ replicate n 1) server_a = (q, w)" "gos q = (gos p)[1 := Ended (Responded (200, BSandbox (scanSandbox ?row)))]"
    by auto
  have other: "(0::nat) \<notin> set (replicate n 1)" by simp
  have ok: "registry_ok (reg_db w)" using update_ok [OF db_a_ok disjI2, OF set_expiry] w(2) by simp
  from late_reap_overrules_timeout [OF sunny_cleanup faults other q(1) ok] obtain k f z where
    f: "?run ([0, 0] @ replicate n 1 @ replicate k 0) server_a = (f, z)" "gos f ! 0 = Ended Ticked"
      "\<forall>i. i \<noteq> 0 \<longrightarrow> gos f ! i = gos q ! i"
      "reg_db z = delete_all (c_id ` {r \<in> set (sandboxes (reg_db server_a)). expired_row 62000000000 r}) (reg_db w)"
    by blast
  have "gos f ! 1 = Ended (Responded (200, BSandbox (scanSandbox ?row)))" using f(3) q(2) v(2) by simp
  moreover have "sandboxes (reg_db z) = []"
    using f(4) past w(2) by (simp add: server_a_def db_a_def delete_all_def)
  moreover have "sb_id (scanSandbox ?row) = ''a''" "sb_expires_at (scanSandbox ?row) = None"
    by (simp_all add: scanSandbox_def row_a_def)
  ultimately show ?thesis using f(1,2) by blast
qed

end
