(* ===== verification/Thaw.thy ===== *)
theory Thaw
  imports Vm
begin

text \<open>
  \<open>cmd/sandboxd/thaw.go\<close>: the agent's loop that adopts a clone's identity. It is run here
  against the document \<open>StartClone\<close> puts into the metadata service. The loop of the code
  does not end; a round is \<open>thaw_round\<close> and the lemmas are about any number of rounds.
\<close>

definition mmdsAddr :: string where "mmdsAddr = ''169.254.169.254''"
definition mmdsIface :: string where "mmdsIface = ''eth0''"

record cloneIdentity =
  id_IP :: string
  id_MAC :: string
  id_GW :: string
  id_Prefix :: string
  id_Gen :: string

definition no_identity :: cloneIdentity where
  "no_identity = \<lparr>id_IP = [], id_MAC = [], id_GW = [], id_Prefix = [], id_Gen = []\<rparr>"

text \<open>
  Decoding into a structure of strings: the fields are matched without regard to case, a
  later one replaces an earlier one, and values of other types are passed over.
\<close>

fun json_string :: "json \<Rightarrow> string option" where
  "json_string (JStr v) = Some v"
| "json_string _ = None"

definition field :: "string \<Rightarrow> (string \<times> json) list \<Rightarrow> string" where
  "field name kvs =
     fold (\<lambda>(k, v) acc. if ToLower k = name then (case json_string v of None \<Rightarrow> acc | Some x \<Rightarrow> x) else acc) kvs []"

fun decode_identity :: "json option \<Rightarrow> cloneIdentity" where
  "decode_identity (Some (JObj kvs)) =
     \<lparr>id_IP = field ''ip'' kvs, id_MAC = field ''mac'' kvs, id_GW = field ''gw'' kvs,
      id_Prefix = field ''prefix'' kvs, id_Gen = field ''gen'' kvs\<rparr>"
| "decode_identity _ = no_identity"

text \<open>\<open>doc\<close> is the body of the answer when it is JSON.\<close>

definition fetchIdentity :: "env \<Rightarrow> (host_call list \<Rightarrow> json option) \<Rightarrow> ('z, (host_error, cloneIdentity) result) action" where
  "fetchIdentity E doc = do {
     tok \<leftarrow> call E MmdsToken;
     if \<not> r_ok tok then return (Inl (ApiError ''/latest/api/token'' []))
     else do {
       resp \<leftarrow> call E (MmdsGet (r_out tok));
       if \<not> r_ok resp then return (Inl (ApiError ''/'' []))
       else if r_num resp \<noteq> 200 then return (Inr no_identity)
       else do {
         body \<leftarrow> call E (ReadAll mmdsAddr);
         cs \<leftarrow> State (\<lambda>s. (calls s, s));
         return (if r_ok body then Inr (decode_identity (doc cs)) else Inl (ApiError ''/'' []))
       }
     }
   }"

definition mmds_route :: "string list" where
  "mmds_route = [''ip'', ''route'', ''add'', mmdsAddr @ ''/32'', ''dev'', mmdsIface]"

definition ensureMMDSRoute :: "env \<Rightarrow> ('z, unit) action" where
  "ensureMMDSRoute E = do { _ \<leftarrow> call E (Cmd mmds_route); return () }"

definition identity_steps :: "cloneIdentity \<Rightarrow> string list list" where
  "identity_steps i =
     (let prefix = (if id_Prefix i = [] then ''24'' else id_Prefix i) in
      [[''ip'', ''link'', ''set'', mmdsIface, ''down''],
       [''ip'', ''addr'', ''flush'', ''dev'', mmdsIface],
       [''ip'', ''link'', ''set'', mmdsIface, ''address'', id_MAC i],
       [''ip'', ''link'', ''set'', mmdsIface, ''up''],
       [''ip'', ''addr'', ''add'', id_IP i @ ''/'' @ prefix, ''dev'', mmdsIface],
       [''ip'', ''route'', ''replace'', ''default'', ''via'', id_GW i]])"

definition applyIdentity :: "env \<Rightarrow> cloneIdentity \<Rightarrow> ('z, (host_error, unit) result) action" where
  "applyIdentity E i = do {
     r \<leftarrow> each_until_error (run_cmd E) (identity_steps i);
     (case r of
        Inl e \<Rightarrow> return (Inl e)
      | Inr _ \<Rightarrow> do { _ \<leftarrow> ensureMMDSRoute E; return (Inr ()) })
   }"

definition thaw_round :: "env \<Rightarrow> (host_call list \<Rightarrow> json option) \<Rightarrow> string \<Rightarrow> ('z, string) action" where
  "thaw_round E doc lastGen = do {
     _ \<leftarrow> ensureMMDSRoute E;
     r \<leftarrow> fetchIdentity E doc;
     gen \<leftarrow> (case r of
        Inl e \<Rightarrow> return lastGen
      | Inr i \<Rightarrow>
          if id_Gen i \<noteq> [] \<and> id_Gen i \<noteq> lastGen
          then do {
            r \<leftarrow> applyIdentity E i;
            return (case r of Inl e \<Rightarrow> lastGen | Inr _ \<Rightarrow> id_Gen i)
          }
          else return lastGen);
     _ \<leftarrow> call E (SleepNs 200000000);
     return gen
   }"

fun runThawAgent :: "nat \<Rightarrow> env \<Rightarrow> (host_call list \<Rightarrow> json option) \<Rightarrow> string \<Rightarrow> ('z, string) action" where
  "runThawAgent 0 E doc lastGen = return lastGen"
| "runThawAgent (Suc n) E doc lastGen = do {
     gen \<leftarrow> thaw_round E doc lastGen;
     runThawAgent n E doc gen
   }"

subsection \<open>What a round does\<close>

text \<open>The commands that change the interface, as opposed to the route to the metadata service.\<close>

definition reconfigures :: "host_call \<Rightarrow> bool" where
  "reconfigures c \<longleftrightarrow> (case c of Cmd args \<Rightarrow> args \<noteq> mmds_route | _ \<Rightarrow> False)"

abbreviation reconfigurations :: "'z host_scheme \<Rightarrow> string list list" where
  "reconfigurations s \<equiv> map (\<lambda>c. case c of Cmd args \<Rightarrow> args | _ \<Rightarrow> []) (filter reconfigures (calls s))"

lemma identity_fields:
  "decode_identity (Some (mmds_body c)) =
     \<lparr>id_IP = CloneIP c, id_MAC = CloneMac c, id_GW = CloneGateway c, id_Prefix = itoa (Prefix c), id_Gen = Gen c\<rparr>"
  by (simp add: mmds_body_def field_def ToLower_def to_lower_def)

lemma steps_reconfigure: "args \<in> set (identity_steps i) \<Longrightarrow> reconfigures (Cmd args)"
  by (auto simp: identity_steps_def Let_def reconfigures_def mmds_route_def mmdsIface_def)

definition guest_well :: "env \<Rightarrow> bool" where
  "guest_well E \<longleftrightarrow> (\<forall>h c. r_ok (answer E h c)) \<and> (\<forall>h tok. r_num (answer E h (MmdsGet tok)) = 200)"

lemma guest_wellD [simp]:
  "guest_well E \<Longrightarrow> r_ok (answer E h c)" "guest_well E \<Longrightarrow> r_num (answer E h (MmdsGet tok)) = 200"
  by (simp_all add: guest_well_def)

lemma run_steps:
  assumes "guest_well E"
  shows "run_state (each_until_error (run_cmd E) xs) s = (Inr (), s\<lparr>calls := calls s @ map Cmd xs\<rparr>)"
  by (induction xs arbitrary: s) (simp_all add: run_cmd_def assms)

lemma thaw_round_well:
  assumes "guest_well E" "\<And>cs. decode_identity (doc cs) = i" "id_Gen i \<noteq> []"
    and "run_state (thaw_round E doc lastGen) s = (gen, t)"
  shows "gen = id_Gen i \<and> reconfigurations t = reconfigurations s @ (if id_Gen i = lastGen then [] else identity_steps i)"
proof -
  have cmds: "map (\<lambda>c. case c of Cmd args \<Rightarrow> args | _ \<Rightarrow> []) (filter reconfigures (map Cmd (identity_steps i))) = identity_steps i"
  proof -
    have "filter reconfigures (map Cmd (identity_steps i)) = map Cmd (identity_steps i)"
      by (auto simp: filter_id_conv steps_reconfigure)
    then show ?thesis by (simp add: comp_def)
  qed
  have route: "\<not> reconfigures (Cmd mmds_route)" by (simp add: reconfigures_def)
  show ?thesis
    using assms(4) cmds
    by (auto simp: thaw_round_def ensureMMDSRoute_def fetchIdentity_def applyIdentity_def assms(1-3) run_steps [OF assms(1)]
        route reconfigures_def [of MmdsToken] reconfigures_def [of "MmdsGet _"] reconfigures_def [of "ReadAll _"]
        reconfigures_def [of "SleepNs _"] split: if_splits)
qed

lemma thaw_settled:
  assumes "guest_well E" "\<And>cs. decode_identity (doc cs) = i" "id_Gen i \<noteq> []"
    and "run_state (runThawAgent n E doc (id_Gen i)) s = (gen, t)"
  shows "gen = id_Gen i \<and> reconfigurations t = reconfigurations s"
  using assms(4)
proof (induction n arbitrary: s)
  case (Suc n)
  obtain g u where u: "run_state (thaw_round E doc (id_Gen i)) s = (g, u)" by (metis prod.exhaust)
  note round = thaw_round_well [OF assms(1-3) u]
  with Suc.prems u have "run_state (runThawAgent n E doc (id_Gen i)) u = (gen, t)" by simp
  from Suc.IH [OF this] round show ?case by simp
qed simp


definition guest :: env where
  "guest = \<lparr>temp_dir = ''/tmp'', answer = (\<lambda>h c. \<lparr>r_ok = True, r_out = [], r_num = 200, r_ns = 0\<rparr>),
     db_faults = (\<lambda>_ _. no_faults)\<rparr>"

definition clone_a :: clone_params where
  "clone_a = \<lparr>MemPath = ''/s/m'', StatePath = ''/s/s'', CloneRootfsPath = ''/r/c.ext4'', CloneTap = ''fc1'',
     CloneIP = ''172.16.0.11'', CloneMac = ''02:00:00:00:00:01'', CloneGateway = ''172.16.0.1'', Prefix = 24, Gen = ''g1''\<rparr>"


text \<open>A sandbox that is no clone is left alone: without a document no round changes the interface.\<close>

lemma thaw_idle:
  assumes "\<And>cs. id_Gen (decode_identity (doc cs)) = []"
  shows "reconfigurations (snd (run_state (runThawAgent n E doc lastGen) s)) = reconfigurations s \<and>
    fst (run_state (runThawAgent n E doc lastGen) s) = lastGen"
proof (induction n arbitrary: s)
  case (Suc n)
  have "fst (run_state (thaw_round E doc lastGen) s) = lastGen \<and>
      reconfigurations (snd (run_state (thaw_round E doc lastGen) s)) = reconfigurations s"
    by (simp add: thaw_round_def ensureMMDSRoute_def fetchIdentity_def reconfigures_def assms no_identity_def Let_def)
  then show ?case using Suc by (simp split: prod.split) (metis fst_conv snd_conv)
qed simp

end
