(* ===== verification/Utf8.thy ===== *)
theory Utf8
  imports Prelude
begin

text \<open>
  What a Go string goes through when \<open>encoding/json\<close> writes it and reads it back. A string
  is a list of bytes, a \<open>char\<close> being one byte; the encoder keeps valid UTF-8 and replaces
  every byte that starts no valid sequence by U+FFFD (\<open>unicode/utf8\<close>, \<open>DecodeRune\<close>).
\<close>

definition byte :: "char \<Rightarrow> nat" where
  "byte c = of_char c"

definition in_range :: "nat \<Rightarrow> nat \<Rightarrow> char \<Rightarrow> bool" where
  "in_range lo hi c \<longleftrightarrow> lo \<le> byte c \<and> byte c \<le> hi"

abbreviation cont :: "char \<Rightarrow> bool" where
  "cont \<equiv> in_range 0x80 0xBF"

text \<open>The length of the sequence at the front of a non-empty string, 0 if it is not valid.\<close>

fun rune2 :: "char \<Rightarrow> char \<Rightarrow> bool" where
  "rune2 a b \<longleftrightarrow> in_range 0xC2 0xDF a \<and> cont b"

fun rune3 :: "char \<Rightarrow> char \<Rightarrow> char \<Rightarrow> bool" where
  "rune3 a b c \<longleftrightarrow> cont c \<and>
     (byte a = 0xE0 \<and> in_range 0xA0 0xBF b \<or> in_range 0xE1 0xEC a \<and> cont b \<or>
      byte a = 0xED \<and> in_range 0x80 0x9F b \<or> in_range 0xEE 0xEF a \<and> cont b)"

fun rune4 :: "char \<Rightarrow> char \<Rightarrow> char \<Rightarrow> char \<Rightarrow> bool" where
  "rune4 a b c d \<longleftrightarrow> cont c \<and> cont d \<and>
     (byte a = 0xF0 \<and> in_range 0x90 0xBF b \<or> in_range 0xF1 0xF3 a \<and> cont b \<or>
      byte a = 0xF4 \<and> in_range 0x80 0x8F b)"

declare rune2.simps [simp del] rune3.simps [simp del] rune4.simps [simp del]

definition rune_len :: "string \<Rightarrow> nat" where
  "rune_len s =
     (case s of [] \<Rightarrow> 0 | a # s1 \<Rightarrow> if byte a < 0x80 then 1
      else (case s1 of [] \<Rightarrow> 0 | b # s2 \<Rightarrow> if rune2 a b then 2
      else (case s2 of [] \<Rightarrow> 0 | c # s3 \<Rightarrow> if rune3 a b c then 3
      else (case s3 of [] \<Rightarrow> 0 | d # s4 \<Rightarrow> if rune4 a b c d then 4 else 0))))"

definition replacement :: string where
  "replacement = [char_of (0xEF::nat), char_of (0xBF::nat), char_of (0xBD::nat)]"

function coerce :: "string \<Rightarrow> string" where
  "coerce [] = []"
| "coerce (c # cs) =
     (let n = rune_len (c # cs) in
      if n = 0 then replacement @ coerce cs
      else take n (c # cs) @ coerce (drop n (c # cs)))"
  by pat_completeness auto
termination
  by (relation "measure length") auto

function valid_utf8 :: "string \<Rightarrow> bool" where
  "valid_utf8 [] = True"
| "valid_utf8 (c # cs) =
     (let n = rune_len (c # cs) in if n = 0 then False else valid_utf8 (drop n (c # cs)))"
  by pat_completeness auto
termination
  by (relation "measure length") auto

declare coerce.simps(2) [simp del] valid_utf8.simps(2) [simp del]

lemma rune_len_le: "rune_len s \<le> length s"
  by (simp add: rune_len_def split: list.split)

lemma rune_len_append: "0 < rune_len xs \<Longrightarrow> rune_len (xs @ ys) = rune_len xs"
  by (cases xs; cases "tl xs"; cases "tl (tl xs)"; cases "tl (tl (tl xs))")
    (simp_all add: rune_len_def split: if_splits)

lemma front_append:
  assumes "0 < rune_len xs"
  shows "rune_len (xs @ ys) = rune_len xs" "take (rune_len xs) (xs @ ys) = take (rune_len xs) xs"
    "drop (rune_len xs) (xs @ ys) = drop (rune_len xs) xs @ ys"
  using rune_len_append [OF assms] rune_len_le [of xs] by simp_all

lemma valid_ConsD:
  "valid_utf8 (c # cs) \<Longrightarrow> 0 < rune_len (c # cs) \<and> valid_utf8 (drop (rune_len (c # cs)) (c # cs))"
  by (simp add: valid_utf8.simps(2) Let_def split: if_splits)

lemma coerce_append:
  "valid_utf8 xs \<Longrightarrow> coerce (xs @ ys) = xs @ coerce ys"
proof (induction xs rule: valid_utf8.induct)
  case (2 c cs)
  let ?s = "c # cs" let ?n = "rune_len ?s"
  from valid_ConsD [OF 2(2)] have n: "0 < ?n" "valid_utf8 (drop ?n ?s)" by simp_all
  have "coerce (?s @ ys) = take ?n ?s @ coerce (drop ?n ?s @ ys)"
    using n(1) front_append [OF n(1), of ys] coerce.simps(2) [of c "cs @ ys"] by (simp add: Let_def)
  also have "\<dots> = take ?n ?s @ drop ?n ?s @ coerce ys"
    using 2(1) [OF refl _ n(2)] n(1) by simp
  finally show ?case by (metis append.assoc append_take_drop_id)
qed simp

lemma coerce_valid: "valid_utf8 xs \<Longrightarrow> coerce xs = xs"
  using coerce_append [of xs "[]"] by simp

lemma valid_append: "valid_utf8 xs \<Longrightarrow> valid_utf8 ys \<Longrightarrow> valid_utf8 (xs @ ys)"
proof (induction xs rule: valid_utf8.induct)
  case (2 c cs)
  let ?s = "c # cs" let ?n = "rune_len ?s"
  from valid_ConsD [OF 2(2)] have n: "0 < ?n" "valid_utf8 (drop ?n ?s)" by simp_all
  then have "valid_utf8 (drop ?n ?s @ ys)" using 2(1) [OF refl _ n(2) 2(3)] by simp
  then show ?case
    using n(1) front_append [OF n(1), of ys] valid_utf8.simps(2) [of c "cs @ ys"] by (simp add: Let_def)
qed simp

lemma valid_concat: "list_all valid_utf8 xss \<Longrightarrow> valid_utf8 (concat xss)"
  by (induction xss) (auto intro: valid_append)

lemma coerce_concat: "list_all valid_utf8 xss \<Longrightarrow> concat (map coerce xss) = concat xss"
  by (induction xss) (auto simp: coerce_valid)

lemma valid_ascii: "list_all (\<lambda>c. byte c < 0x80) s \<Longrightarrow> valid_utf8 s"
  by (induction s) (auto simp: valid_utf8.simps(2) rune_len_def)

end
