(* ===== verification/Agent.thy ===== *)
theory Agent
  imports Utf8 Provisioner Clock "HOL-Library.Word"
begin

text \<open>
  \<open>cmd/sandboxd/main.go\<close> with the types of \<open>internal/agentapi\<close>: the agent inside a guest.
  Running commands and returning their output whole or as a stream of events, reading and
  writing files, listing directories. Bytes are characters. How the process of a command
  behaves is an argument: the chunks its output arrives in, its exit and its time.
\<close>

subsection \<open>The protocol\<close>

definition agent_Port :: int where "agent_Port = 8090"

definition DefaultTimeout :: int where "DefaultTimeout = 60000000000"

definition MaxOutputBytes :: nat where "MaxOutputBytes = 2097152"

record exec_request =
  er_Cmd :: string
  er_Cwd :: string
  er_Env :: "(string \<times> string) list"  \<comment> \<open>the map of the request, in the order it is visited\<close>
  er_TimeoutSec :: int

record exec_result =
  ex_Stdout :: string
  ex_Stderr :: string
  ex_ExitCode :: int
  ex_TimedOut :: bool
  ex_DurationMS :: int

datatype event_type = EventStdout | EventStderr | EventExit | EventOther string

record exec_event =
  ev_Type :: event_type
  ev_Data :: string
  ev_ExitCode :: int
  ev_TimedOut :: bool
  ev_DurationMS :: int

definition output_event :: "event_type \<Rightarrow> string \<Rightarrow> exec_event" where
  "output_event typ data = \<lparr>ev_Type = typ, ev_Data = data, ev_ExitCode = 0, ev_TimedOut = False, ev_DurationMS = 0\<rparr>"

text \<open>What a client decodes from the JSON of an event or a result.\<close>

definition wire_event :: "exec_event \<Rightarrow> exec_event" where
  "wire_event ev = ev\<lparr>ev_Data := coerce (ev_Data ev)\<rparr>"

definition wire_result :: "exec_result \<Rightarrow> exec_result" where
  "wire_result res = res\<lparr>ex_Stdout := coerce (ex_Stdout res), ex_Stderr := coerce (ex_Stderr res)\<rparr>"

subsection \<open>Bounded output\<close>

record cappedBuffer =
  cb_b :: string
  cb_dropped :: int

definition empty_buffer :: cappedBuffer where
  "empty_buffer = \<lparr>cb_b = [], cb_dropped = 0\<rparr>"

definition cb_Write :: "string \<Rightarrow> cappedBuffer \<Rightarrow> cappedBuffer" where
  "cb_Write p c =
     (let room = int MaxOutputBytes - int (length (cb_b c)) in
      if room > 0 then
        let room = (if int (length p) < room then int (length p) else room) in
        c\<lparr>cb_b := cb_b c @ take (nat room) p, cb_dropped := cb_dropped c + (int (length p) - room)\<rparr>
      else c\<lparr>cb_dropped := cb_dropped c + int (length p)\<rparr>)"

definition newline :: char where "newline = char_of (10::nat)"

definition cb_String :: "cappedBuffer \<Rightarrow> string" where
  "cb_String c =
     (if cb_dropped c > 0
      then cb_b c @ [newline] @ ''... ['' @ itoa (cb_dropped c) @ '' bytes truncated]''
      else cb_b c)"

subsection \<open>Commands\<close>

definition execTimeout :: "exec_request \<Rightarrow> int" where
  "execTimeout req = (if er_TimeoutSec req > 0 then seconds (er_TimeoutSec req) else DefaultTimeout)"

definition defaultCwd :: string where "defaultCwd = ''/home/sandbox/app''"

definition workingDir :: "env \<Rightarrow> string \<Rightarrow> ('z, string) action" where
  "workingDir E requested =
     (if requested \<noteq> [] then return requested
      else do {
        r \<leftarrow> call E (Stat defaultCwd);
        return (if r_ok r then defaultCwd else ''/'')
      })"

text \<open>The command: its arguments, directory, environment, the group it runs in and what a timeout kills.\<close>

record exec_cmd =
  ec_args :: "string list"
  ec_dir :: string
  ec_env :: "string list"
  ec_setpgid :: bool
  ec_cancel_group :: bool  \<comment> \<open>cancelling sends SIGKILL to the whole process group\<close>
  ec_timeout :: int

definition buildCmd :: "env \<Rightarrow> string list \<Rightarrow> exec_request \<Rightarrow> ('z, exec_cmd) action" where
  "buildCmd E environ req = do {
     dir \<leftarrow> workingDir E (er_Cwd req);
     return \<lparr>ec_args = [''/bin/bash'', ''-lc'', er_Cmd req], ec_dir = dir,
       ec_env = environ @ map (\<lambda>(k, v). k @ ''='' @ v) (er_Env req),
       ec_setpgid = True, ec_cancel_group = True, ec_timeout = execTimeout req\<rparr>
   }"

text \<open>How the process of a command ended.\<close>

record proc_outcome =
  po_pipes :: bool  \<comment> \<open>the output pipes could be made\<close>
  po_started :: bool  \<comment> \<open>\<open>cmd.Start\<close> succeeded\<close>
  po_state :: bool  \<comment> \<open>\<open>cmd.ProcessState\<close> is set in the end\<close>
  po_error :: bool
  po_exit :: int
  po_stdout :: "string list"
  po_stderr :: "string list"
  po_deadline :: bool
  po_ms :: int

datatype agent_error = ErrBody | ErrNoCmd | ErrNoPath | ErrNoFlusher | ErrPipe | ErrStartCommand | ErrIsDir string | ErrFile

datatype agent_body =
    AError agent_error
  | AResult exec_result
  | AStream "exec_event list"
  | AData string
  | AWritten string int

type_synonym agent_response = "nat \<times> agent_body"

definition exit_code :: "proc_outcome \<Rightarrow> int \<Rightarrow> int" where
  "exit_code po missing = (if \<not> po_error po then 0 else if po_state po then po_exit po else missing)"

definition exec_output :: "proc_outcome \<Rightarrow> exec_result" where
  "exec_output po =
     \<lparr>ex_Stdout = cb_String (fold cb_Write (po_stdout po) empty_buffer),
      ex_Stderr = cb_String (fold cb_Write (po_stderr po) empty_buffer),
      ex_ExitCode = exit_code po 0, ex_TimedOut = po_deadline po, ex_DurationMS = po_ms po\<rparr>"

definition handleExec :: "env \<Rightarrow> string list \<Rightarrow> (exec_cmd \<Rightarrow> proc_outcome) \<Rightarrow> exec_request request_body
    \<Rightarrow> ('z, agent_response) action" where
  "handleExec E environ proc rb =
     (case rb of
        Decoded req \<Rightarrow>
          if er_Cmd req = [] then return (400, AError ErrNoCmd)
          else do {
            cmd \<leftarrow> buildCmd E environ req;
            (let po = proc cmd in
             if po_error po \<and> \<not> po_state po then return (500, AError ErrStartCommand)
             else return (200, AResult (exec_output po)))
          }
      | _ \<Rightarrow> return (400, AError ErrBody))"

subsection \<open>Streaming\<close>

text \<open>
  Two readers emit the chunks of the two pipes under one lock; \<open>sched\<close> says whose turn it
  is (standard output on \<open>True\<close>), and a reader goes on alone when the other has finished.
\<close>

fun interleave :: "bool list \<Rightarrow> 'a list \<Rightarrow> 'a list \<Rightarrow> 'a list" where
  "interleave sched [] ys = ys"
| "interleave sched xs [] = xs"
| "interleave [] xs ys = xs @ ys"
| "interleave (b # sched) (x # xs) (y # ys) =
     (if b then x # interleave sched xs (y # ys) else y # interleave sched (x # xs) ys)"

definition chunk_events :: "event_type \<Rightarrow> string list \<Rightarrow> exec_event list" where
  "chunk_events typ chunks = map (output_event typ) (filter (\<lambda>c. c \<noteq> []) chunks)"

definition exit_event :: "proc_outcome \<Rightarrow> exec_event" where
  "exit_event po = \<lparr>ev_Type = EventExit, ev_Data = [], ev_ExitCode = exit_code po (- 1),
     ev_TimedOut = po_deadline po, ev_DurationMS = po_ms po\<rparr>"

definition stream_events :: "bool list \<Rightarrow> proc_outcome \<Rightarrow> exec_event list" where
  "stream_events sched po =
     interleave sched (chunk_events EventStdout (po_stdout po)) (chunk_events EventStderr (po_stderr po)) @ [exit_event po]"

definition handleExecStream :: "env \<Rightarrow> string list \<Rightarrow> (exec_cmd \<Rightarrow> proc_outcome) \<Rightarrow> bool \<Rightarrow> bool list
    \<Rightarrow> exec_request request_body \<Rightarrow> ('z, agent_response) action" where
  "handleExecStream E environ proc can_flush sched rb =
     (case rb of
        Decoded req \<Rightarrow>
          if er_Cmd req = [] then return (400, AError ErrNoCmd)
          else if \<not> can_flush then return (500, AError ErrNoFlusher)
          else do {
            cmd \<leftarrow> buildCmd E environ req;
            (let po = proc cmd in
             if \<not> po_pipes po then return (500, AError ErrPipe)
             else if \<not> po_started po then return (500, AError ErrStartCommand)
             else return (200, AStream (stream_events sched po)))
          }
      | _ \<Rightarrow> return (400, AError ErrBody))"

subsection \<open>Files\<close>

text \<open>Why a file call failed.\<close>

definition ErrNotExist :: int where "ErrNotExist = 1"
definition ErrPermission :: int where "ErrPermission = 2"

definition statusForFSError :: "reply \<Rightarrow> nat" where
  "statusForFSError r = (if r_num r = ErrNotExist then 404 else if r_num r = ErrPermission then 403 else 500)"

definition handleReadFile :: "env \<Rightarrow> string \<Rightarrow> ('z, agent_response) action" where
  "handleReadFile E path =
     (if path = [] then return (400, AError ErrNoPath)
      else do {
        f \<leftarrow> call E (OpenRead path);
        if \<not> r_ok f then return (statusForFSError f, AError ErrFile)
        else do {
          st \<leftarrow> call E (IsDir path);
          if \<not> r_ok st then return (500, AError ErrFile)
          else if r_num st = 1 then return (400, AError (ErrIsDir path))
          else do { data \<leftarrow> call E (ReadAll path); return (200, AData (r_out data)) }
        }
      })"

definition handleWriteFile :: "env \<Rightarrow> string \<Rightarrow> string \<Rightarrow> ('z, agent_response) action" where
  "handleWriteFile E path body =
     (if path = [] then return (400, AError ErrNoPath)
      else do {
        d \<leftarrow> call E (MkdirAll (Dir path));
        if \<not> r_ok d then return (500, AError ErrFile)
        else do {
          f \<leftarrow> call E (OpenWrite path);
          if \<not> r_ok f then return (statusForFSError f, AError ErrFile)
          else do {
            n \<leftarrow> call E (CopyTo path body);
            c \<leftarrow> call E (CloseFile path);
            if \<not> r_ok n \<or> \<not> r_ok c then return (500, AError ErrFile)
            else return (201, AWritten path (r_num n))
          }
        }
      })"

record dir_entry =
  de_Name :: string
  de_Size :: int
  de_Mode :: string
  de_IsDir :: bool
  de_MTime :: int

text \<open>
  A directory is read by \<open>read_dir\<close>: a failure or the entries, of which those that have gone
  in the meantime have no info and are left out.
\<close>

definition handleListDir :: "(string \<Rightarrow> (reply, dir_entry option list) result) \<Rightarrow> string
    \<Rightarrow> nat \<times> (agent_error, dir_entry list) result" where
  "handleListDir read_dir path =
     (case read_dir (if path = [] then defaultCwd else path) of
        Inl r \<Rightarrow> (statusForFSError r, Inl ErrFile)
      | Inr entries \<Rightarrow> (200, Inr (List.map_filter (\<lambda>e. e) entries)))"

subsection \<open>Terminal sizes\<close>

text \<open>\<open>strconv.Atoi\<close>: an optional sign and digits, within 64 bits.\<close>

definition Atoi :: "string \<Rightarrow> int option" where
  "Atoi s =
     (let (neg, ds) = (case s of [] \<Rightarrow> (False, []) | c # cs \<Rightarrow>
            if c = CHR ''-'' then (True, cs) else if c = CHR ''+'' then (False, cs) else (False, c # cs));
          v = (if neg then - int (undec ds) else int (undec ds))
      in if ds = [] \<or> \<not> list_all is_digit ds \<or> v < - (2 ^ 63) \<or> v \<ge> 2 ^ 63 then None else Some v)"

definition parseDim :: "string \<Rightarrow> 16 word \<Rightarrow> 16 word" where
  "parseDim s def =
     (case Atoi s of None \<Rightarrow> def | Some n \<Rightarrow> if n > 0 \<and> n < 65536 then word_of_int n else def)"

end
