(* ===== verification/Agent_Props.thy ===== *)
theory Agent_Props
  imports Agent
begin

text \<open>
  Captured output is a prefix of what the command wrote, whatever the chunks; the stream of
  events keeps the order of each pipe under every schedule of the two readers; a terminal
  size survives printing and parsing.
\<close>

subsection \<open>Bounded output\<close>

text \<open>The buffer against the whole output: it keeps a prefix and counts the rest.\<close>

definition captures :: "string \<Rightarrow> cappedBuffer \<Rightarrow> bool" where
  "captures full c \<longleftrightarrow> cb_b c = take MaxOutputBytes full \<and>
     cb_dropped c = int (length full) - int (length (cb_b c))"

lemma captures_empty: "captures [] empty_buffer"
  by (simp add: captures_def empty_buffer_def)

lemma captures_Write: "captures full c \<Longrightarrow> captures (full @ p) (cb_Write p c)"
  by (auto simp: captures_def cb_Write_def Let_def nat_diff_distrib' min_def)

interpretation buffer: simulation cb_Write "\<lambda>p full. full @ p" "\<lambda>_. True" captures
  by unfold_locales (rule captures_Write)

lemma fold_append: "fold (\<lambda>p full. full @ p) ps full = full @ concat ps"
  by (induction ps arbitrary: full) auto

lemma captures_chunks: "captures (concat chunks) (fold cb_Write chunks empty_buffer)"
  using buffer.sim_fold [OF captures_empty, of chunks] by (simp add: fold_append)

definition captured :: "string \<Rightarrow> string" where
  "captured full =
     (if length full \<le> MaxOutputBytes then full
      else take MaxOutputBytes full @ [newline] @ ''... ['' @
        itoa (int (length full) - int MaxOutputBytes) @ '' bytes truncated]'')"

lemma captured_text: "cb_String (fold cb_Write chunks empty_buffer) = captured (concat chunks)"
  using captures_chunks [of chunks]
  by (auto simp: captures_def captured_def cb_String_def)

text \<open>
  C34: However a command's output is cut into chunks, the captured text is the whole output up
  to 2 MiB, and beyond that its first 2 MiB followed by a note with the exact number of
  bytes left out.
\<close>
theorem captured_output:
  "cb_String (fold cb_Write chunks empty_buffer) = captured (concat chunks)"
  by (rule captured_text)

subsection \<open>Interleaving\<close>

lemma interleave_Nil2 [simp]: "interleave sched xs [] = xs"
  by (cases xs) auto

lemma set_interleave: "set (interleave sched xs ys) = set xs \<union> set ys"
  by (induction sched xs ys rule: interleave.induct) auto

lemma filter_interleave:
  assumes "list_all P xs" "list_all (\<lambda>y. \<not> P y) ys"
  shows "filter P (interleave sched xs ys) = xs" "filter (\<lambda>z. \<not> P z) (interleave sched xs ys) = ys"
proof -
  have "filter P (interleave sched xs ys) = xs \<and> filter (\<lambda>z. \<not> P z) (interleave sched xs ys) = ys"
    using assms
    by (induction sched xs ys rule: interleave.induct) (auto simp: list_all_iff filter_id_conv filter_empty_conv)
  then show "filter P (interleave sched xs ys) = xs" "filter (\<lambda>z. \<not> P z) (interleave sched xs ys) = ys"
    by simp_all
qed

text \<open>Every shuffle of the two readers is some schedule.\<close>

lemma interleave_complete: "zs \<in> shuffles xs ys \<Longrightarrow> \<exists>sched. interleave sched xs ys = zs"
proof (induction xs ys arbitrary: zs rule: shuffles.induct)
  case (3 x xs y ys)
  then consider zs' where "zs = x # zs'" "zs' \<in> shuffles xs (y # ys)" | zs' where "zs = y # zs'" "zs' \<in> shuffles (x # xs) ys"
    by auto
  then show ?case
  proof cases
    case 1
    with 3(1) obtain sched where "interleave sched xs (y # ys) = zs'" by blast
    with 1 have "interleave (True # sched) (x # xs) (y # ys) = zs" by simp
    then show ?thesis by blast
  next
    case 2
    with 3(2) obtain sched where "interleave sched (x # xs) ys = zs'" by blast
    with 2 have "interleave (False # sched) (x # xs) (y # ys) = zs" by simp
    then show ?thesis by blast
  qed
qed auto

lemma concat_nonempty: "concat (filter (\<lambda>c. c \<noteq> []) cs) = concat cs"
  by (induction cs) auto

subsection \<open>Terminal sizes\<close>

lemma Atoi_itoa:
  assumes "0 \<le> n" "n < 2 ^ 63"
  shows "Atoi (itoa n) = Some n"
proof -
  obtain c cs where dec: "dec (nat n) = c # cs" by (cases "dec (nat n)") auto
  have digits: "list_all is_digit (c # cs)" using dec_digits [of _ "nat n"] by (auto simp: list_all_iff dec)
  then have "c \<noteq> CHR ''-''" "c \<noteq> CHR ''+''" by (auto simp: is_digit_def)
  moreover have "undec (c # cs) = nat n" using undec_dec [of "nat n"] by (simp add: dec)
  ultimately show ?thesis
    using assms digits by (simp add: Atoi_def itoa_def dec)
qed

text \<open>A size the client prints into the query is the size the agent starts the terminal with.\<close>

lemma parseDim_roundtrip: "0 < w \<Longrightarrow> parseDim (itoa (uint w)) def = w"
  using Atoi_itoa [of "uint w"] uint_lt2p [of w]
  by (simp add: parseDim_def word_less_def)

subsection \<open>The time budget of a command\<close>

text \<open>
  The agent accepts any positive timeout; from 9223372037 seconds on (up to 18446744073) the
  budget is negative, so the command is not started at all.
\<close>

lemma execTimeout_overflow:
  "9223372037 \<le> er_TimeoutSec req \<Longrightarrow> er_TimeoutSec req \<le> 18446744073 \<Longrightarrow> execTimeout req < 0"
  using seconds_wrap by (simp add: execTimeout_def)

lemma execTimeout_exact:
  "0 < er_TimeoutSec req \<Longrightarrow> er_TimeoutSec req \<le> 9223372036 \<Longrightarrow> execTimeout req = er_TimeoutSec req * 1000000000"
  by (simp add: execTimeout_def seconds_def wrap64_id)

end
