(* ===== verification/Client.thy ===== *)
theory Client
  imports Agent_Props
begin

text \<open>
  \<open>internal/client/client.go\<close>: how the client reads responses, collects a stream of events
  and names files in its requests. A response is what \<open>http.Client.Do\<close> returns: an error or a
  status, the text of the status and a body.
\<close>

datatype 'a http_response = DialError | Response nat string 'a

text \<open>The body of an error, if it decodes to an object with an \<open>error\<close> field, and a body that decodes or not.\<close>

datatype 'a http_body = ErrorBody string | GoodBody 'a | BadBody

datatype client_error = CDial | CServer string | CDecode | CReadStream | CNoExit

subsection \<open>Plain requests\<close>

definition server_error_text :: "string \<Rightarrow> 'a http_body \<Rightarrow> string" where
  "server_error_text status b = (case b of ErrorBody e \<Rightarrow> if e = [] then status else e | _ \<Rightarrow> status)"

text \<open>\<open>do\<close> with an \<open>out\<close> argument, of which \<open>zero\<close> is the value left when there is no content.\<close>

definition client_do :: "'a \<Rightarrow> 'a http_body http_response \<Rightarrow> (client_error, 'a) result" where
  "client_do zero resp =
     (case resp of
        DialError \<Rightarrow> Inl CDial
      | Response code status b \<Rightarrow>
          if code \<ge> 400 then Inl (CServer (server_error_text status b))
          else if code = 204 then Inr zero
          else (case b of GoodBody x \<Rightarrow> Inr x | _ \<Rightarrow> Inl CDecode))"

definition client_doRaw :: "'a http_body http_response \<Rightarrow> (client_error, 'a http_body) result" where
  "client_doRaw resp =
     (case resp of
        DialError \<Rightarrow> Inl CDial
      | Response code status b \<Rightarrow> if code \<ge> 400 then Inl (CServer (server_error_text status b)) else Inr b)"

text \<open>The header that authenticates a request.\<close>

definition client_authorization :: "string \<Rightarrow> string option" where
  "client_authorization token = (if token \<noteq> [] then Some (''Bearer '' @ token) else None)"

subsection \<open>Streams of events\<close>

text \<open>
  The body of a stream as the scanner sees it: lines that are blank, do not decode or carry an
  event, and whether the scanner ends in an error.
\<close>

datatype stream_line = BlankLine | BadLine | EventLine exec_event

type_synonym stream_body = "stream_line list \<times> bool"

definition zero_result :: exec_result where
  "zero_result = \<lparr>ex_Stdout = [], ex_Stderr = [], ex_ExitCode = 0, ex_TimedOut = False, ex_DurationMS = 0\<rparr>"

record collector =
  co_stdout :: string
  co_stderr :: string
  co_res :: exec_result
  co_sawExit :: bool

definition empty_collector :: collector where
  "empty_collector = \<lparr>co_stdout = [], co_stderr = [], co_res = zero_result, co_sawExit = False\<rparr>"

definition collect :: "exec_event \<Rightarrow> collector \<Rightarrow> collector" where
  "collect ev c =
     (case ev_Type ev of
        EventStdout \<Rightarrow> c\<lparr>co_stdout := co_stdout c @ ev_Data ev\<rparr>
      | EventStderr \<Rightarrow> c\<lparr>co_stderr := co_stderr c @ ev_Data ev\<rparr>
      | EventExit \<Rightarrow> c\<lparr>co_res := (co_res c)\<lparr>ex_ExitCode := ev_ExitCode ev, ex_TimedOut := ev_TimedOut ev,
            ex_DurationMS := ev_DurationMS ev\<rparr>, co_sawExit := True\<rparr>
      | EventOther _ \<Rightarrow> c)"

text \<open>The loop: the collector, and whether a line failed to decode, which ends it.\<close>

fun scan_stream :: "stream_line list \<Rightarrow> collector \<Rightarrow> collector \<times> bool" where
  "scan_stream [] c = (c, False)"
| "scan_stream (BlankLine # ls) c = scan_stream ls c"
| "scan_stream (BadLine # ls) c = (c, True)"
| "scan_stream (EventLine ev # ls) c = scan_stream ls (collect ev c)"

definition ExecStream :: "stream_body http_body http_response \<Rightarrow> exec_result \<times> client_error option" where
  "ExecStream resp =
     (case client_doRaw resp of
        Inl e \<Rightarrow> (zero_result, Some e)
      | Inr b \<Rightarrow>
          (let (lines, scan_err) = (case b of GoodBody x \<Rightarrow> x | _ \<Rightarrow> ([], False));
               (c, bad) = scan_stream lines empty_collector
           in if bad then (co_res c, Some CDecode)
              else let res = (co_res c)\<lparr>ex_Stdout := co_stdout c, ex_Stderr := co_stderr c\<rparr> in
                if scan_err then (res, Some CReadStream)
                else if \<not> co_sawExit c then (res, Some CNoExit)
                else (res, None)))"

subsection \<open>Files\<close>

text \<open>\<open>url.QueryEscape\<close> and its inverse.\<close>

definition unreserved :: "char \<Rightarrow> bool" where
  "unreserved c \<longleftrightarrow> is_digit c \<or> in_range 65 90 c \<or> in_range 97 122 c \<or> c \<in> set ''-_.~''"

definition upper_hex :: "nat \<Rightarrow> char" where
  "upper_hex d = (if d < 10 then char_of (48 + d) else char_of (55 + d))"

definition escape_char :: "char \<Rightarrow> string" where
  "escape_char c =
     (if unreserved c then [c]
      else if c = CHR '' '' then ''+''
      else [CHR ''%'', upper_hex (byte c div 16), upper_hex (byte c mod 16)])"

definition QueryEscape :: "string \<Rightarrow> string" where
  "QueryEscape s = concat (map escape_char s)"

definition unhex :: "char \<Rightarrow> nat option" where
  "unhex c =
     (if is_digit c then Some (byte c - 48)
      else if in_range 97 102 c then Some (byte c - 87)
      else if in_range 65 70 c then Some (byte c - 55)
      else None)"

fun QueryUnescape :: "string \<Rightarrow> string option" where
  "QueryUnescape [] = Some []"
| "QueryUnescape (c # cs) =
     (if c = CHR ''%'' then
        (case cs of
           a # b # ds \<Rightarrow>
             (case (unhex a, unhex b, QueryUnescape ds) of
                (Some x, Some y, Some s) \<Rightarrow> Some (char_of (x * 16 + y) # s)
              | _ \<Rightarrow> None)
         | _ \<Rightarrow> None)
      else map_option (\<lambda>s. (if c = CHR ''+'' then CHR '' '' else c) # s) (QueryUnescape cs))"

definition filePath :: "string \<Rightarrow> string \<Rightarrow> string \<Rightarrow> string" where
  "filePath sid endpoint path =
     ''/sandboxes/'' @ sid @ ''/'' @ endpoint @ ''?'' @ (if path \<noteq> [] then ''path='' @ QueryEscape path else [])"

text \<open>The query \<open>DialShell\<close> sends: the sizes that are set, sorted by name.\<close>

definition shell_query :: "16 word \<Rightarrow> 16 word \<Rightarrow> (string \<times> string) list" where
  "shell_query cols rows =
     (if cols > 0 then [(''cols'', itoa (uint cols))] else []) @
     (if rows > 0 then [(''rows'', itoa (uint rows))] else [])"

end
