(* ===== verification/Client_Props.thy ===== *)
theory Client_Props
  imports Client
begin

text \<open>
  The client against the agent: a collected stream is what the pipes carried, streaming and
  plain execution agree where neither truncates nor cuts a character, paths and sizes
  arrive as sent.
\<close>

subsection \<open>Collecting a stream\<close>

definition stream_of :: "exec_event list \<Rightarrow> stream_body" where
  "stream_of evs = (map (EventLine \<circ> wire_event) evs, False)"

definition data_of :: "event_type \<Rightarrow> exec_event list \<Rightarrow> string" where
  "data_of typ evs = concat (map (coerce \<circ> ev_Data) (filter (\<lambda>ev. ev_Type ev = typ) evs))"

lemma scan_output:
  assumes "\<forall>ev \<in> set evs. ev_Type ev = EventStdout \<or> ev_Type ev = EventStderr"
  shows "scan_stream (map (EventLine \<circ> wire_event) evs @ ls) c =
    scan_stream ls (c\<lparr>co_stdout := co_stdout c @ data_of EventStdout evs,
                      co_stderr := co_stderr c @ data_of EventStderr evs\<rparr>)"
  using assms
  by (induction evs arbitrary: c) (auto simp: data_of_def collect_def wire_event_def)

lemma data_chunks: "concat (map (coerce \<circ> ev_Data) (chunk_events typ chunks)) = concat (map coerce chunks)"
  by (induction chunks) (auto simp: chunk_events_def output_event_def)

lemma chunk_type: "ev \<in> set (chunk_events typ chunks) \<Longrightarrow> ev_Type ev = typ"
  by (auto simp: chunk_events_def output_event_def)

lemma stream_data:
  "data_of EventStdout (interleave sched (chunk_events EventStdout outs) (chunk_events EventStderr errs)) = concat (map coerce outs)"
  "data_of EventStderr (interleave sched (chunk_events EventStdout outs) (chunk_events EventStderr errs)) = concat (map coerce errs)"
proof -
  let ?xs = "chunk_events EventStdout outs" and ?ys = "chunk_events EventStderr errs"
  let ?P = "\<lambda>ev. ev_Type ev = EventStdout"
  have P: "list_all ?P ?xs" "list_all (\<lambda>y. \<not> ?P y) ?ys"
    by (auto simp: list_all_iff dest: chunk_type)
  have "filter (\<lambda>ev. ev_Type ev = EventStderr) (interleave sched ?xs ?ys) =
      filter (\<lambda>ev. \<not> ?P ev) (interleave sched ?xs ?ys)"
    by (rule filter_cong) (auto simp: set_interleave dest: chunk_type)
  with filter_interleave [OF P, of sched]
  show "data_of EventStdout (interleave sched ?xs ?ys) = concat (map coerce outs)"
    "data_of EventStderr (interleave sched ?xs ?ys) = concat (map coerce errs)"
    by (simp_all add: data_of_def data_chunks)
qed

lemma stream_collect:
  "ExecStream (Response 200 status (GoodBody (stream_of (stream_events sched po)))) =
     (\<lparr>ex_Stdout = concat (map coerce (po_stdout po)), ex_Stderr = concat (map coerce (po_stderr po)),
       ex_ExitCode = exit_code po (- 1), ex_TimedOut = po_deadline po, ex_DurationMS = po_ms po\<rparr>, None)"
proof -
  let ?evs = "interleave sched (chunk_events EventStdout (po_stdout po)) (chunk_events EventStderr (po_stderr po))"
  have "\<forall>ev \<in> set ?evs. ev_Type ev = EventStdout \<or> ev_Type ev = EventStderr"
    by (auto simp: set_interleave dest: chunk_type)
  from scan_output [OF this, of "[EventLine (wire_event (exit_event po))]" empty_collector]
  show ?thesis
    by (simp add: ExecStream_def client_doRaw_def stream_of_def stream_events_def stream_data empty_collector_def
        collect_def wire_event_def exit_event_def zero_result_def)
qed

text \<open>
  Whatever the schedule of the two readers, a client that collects the stream gets each
  pipe's output complete and in order (as JSON carries it), the exit code, the timeout flag
  and the duration, and no error.
\<close>
theorem stream_collects_output:
  "ExecStream (Response 200 status (GoodBody (stream_of (stream_events sched po)))) =
     (\<lparr>ex_Stdout = concat (map coerce (po_stdout po)), ex_Stderr = concat (map coerce (po_stderr po)),
       ex_ExitCode = exit_code po (- 1), ex_TimedOut = po_deadline po, ex_DurationMS = po_ms po\<rparr>, None)"
  by (rule stream_collect)

subsection \<open>Streaming and plain execution\<close>

definition agrees :: "proc_outcome \<Rightarrow> bool" where
  "agrees po \<longleftrightarrow> list_all valid_utf8 (po_stdout po) \<and> list_all valid_utf8 (po_stderr po) \<and>
     length (concat (po_stdout po)) \<le> MaxOutputBytes \<and> length (concat (po_stderr po)) \<le> MaxOutputBytes"

text \<open>
  C33: For a command that runs, whose output is at most 2 MiB per pipe and is not cut inside a
  character, collecting \<open>/exec/stream\<close> gives exactly the result of \<open>/exec\<close>.
\<close>
theorem stream_equals_exec:
  assumes "er_Cmd req \<noteq> []" "po_pipes (proc cmd)" "po_started (proc cmd)" "po_state (proc cmd)" "agrees (proc cmd)"
    and "run_state (buildCmd E environ req) s = (cmd, t)"
  shows "\<exists>res evs. run_state (handleExec E environ proc (Decoded req)) s = ((200, AResult res), t) \<and>
    run_state (handleExecStream E environ proc True sched (Decoded req)) s = ((200, AStream evs), t) \<and>
    ExecStream (Response 200 status (GoodBody (stream_of evs))) = (wire_result res, None)"
proof -
  let ?po = "proc cmd"
  have "wire_result (exec_output ?po) =
     \<lparr>ex_Stdout = concat (map coerce (po_stdout ?po)), ex_Stderr = concat (map coerce (po_stderr ?po)),
       ex_ExitCode = exit_code ?po (- 1), ex_TimedOut = po_deadline ?po, ex_DurationMS = po_ms ?po\<rparr>"
    using assms(4,5)
    by (simp add: wire_result_def exec_output_def captured_text captured_def agrees_def coerce_concat
        coerce_valid valid_concat exit_code_def)
  with stream_collect [of status sched ?po] assms show ?thesis
    by (simp add: handleExec_def handleExecStream_def Let_def)
qed

definition echo_request :: exec_request where
  "echo_request = \<lparr>er_Cmd = ''echo hi'', er_Cwd = ''/tmp'', er_Env = [(''A'', ''1'')], er_TimeoutSec = 0\<rparr>"

definition echo_outcome :: proc_outcome where
  "echo_outcome = \<lparr>po_pipes = True, po_started = True, po_state = True, po_error = False, po_exit = 0,
     po_stdout = [''h'', ''i''], po_stderr = [''!''], po_deadline = False, po_ms = 3\<rparr>"

lemma echo_agrees: "agrees echo_outcome"
  by (simp add: agrees_def echo_outcome_def MaxOutputBytes_def valid_ascii byte_def)

theorem stream_equals_exec_witness:
  "\<exists>cmd evs. run_state (handleExec sunny [] (\<lambda>_. echo_outcome) (Decoded echo_request)) \<lparr>calls = []\<rparr> =
       ((200, AResult (exec_output echo_outcome)), cmd) \<and>
     run_state (handleExecStream sunny [] (\<lambda>_. echo_outcome) True [False] (Decoded echo_request)) \<lparr>calls = []\<rparr> =
       ((200, AStream evs), cmd) \<and>
     ExecStream (Response 200 ''200 OK'' (GoodBody (stream_of evs))) = (wire_result (exec_output echo_outcome), None)"
proof -
  obtain cmd t where cmd: "run_state (buildCmd sunny [] echo_request) \<lparr>calls = []\<rparr> = (cmd, t)"
    by (metis prod.exhaust)
  have "er_Cmd echo_request \<noteq> []" by (simp add: echo_request_def)
  from stream_equals_exec [OF this _ _ _ _ cmd, of "\<lambda>_. echo_outcome" "[False]" "''200 OK''"]
  obtain res evs where "run_state (handleExec sunny [] (\<lambda>_. echo_outcome) (Decoded echo_request)) \<lparr>calls = []\<rparr> = ((200, AResult res), t)"
      "run_state (handleExecStream sunny [] (\<lambda>_. echo_outcome) True [False] (Decoded echo_request)) \<lparr>calls = []\<rparr> = ((200, AStream evs), t)"
      "ExecStream (Response 200 ''200 OK'' (GoodBody (stream_of evs))) = (wire_result res, None)"
    using echo_agrees by (auto simp: echo_outcome_def)
  moreover from this(1) cmd \<open>er_Cmd echo_request \<noteq> []\<close> have "res = exec_output echo_outcome"
    by (simp add: handleExec_def Let_def split: if_splits)
  ultimately show ?thesis by blast
qed

subsection \<open>A character cut in two\<close>

text \<open>A command that writes the two bytes of one character, read in two chunks.\<close>

definition e_acute :: string where
  "e_acute = [char_of (0xC3::nat), char_of (0xA9::nat)]"

definition cut_outcome :: proc_outcome where
  "cut_outcome = \<lparr>po_pipes = True, po_started = True, po_state = True, po_error = False, po_exit = 0,
     po_stdout = [[char_of (0xC3::nat)], [char_of (0xA9::nat)]], po_stderr = [], po_deadline = False, po_ms = 0\<rparr>"

lemma e_acute_valid: "coerce e_acute = e_acute"
  by (simp add: e_acute_def coerce.simps(2) rune_len_def byte_def in_range_def rune2.simps)

text \<open>
  A character whose bytes arrive in two reads does not survive the stream: each half is
  encoded on its own and becomes a replacement character, while \<open>/exec\<close> returns the
  character.
\<close>
theorem stream_breaks_cut_character:
  "ex_Stdout (fst (ExecStream (Response 200 status (GoodBody (stream_of (stream_events sched cut_outcome)))))) =
     replacement @ replacement \<and>
   ex_Stdout (wire_result (exec_output cut_outcome)) = e_acute"
proof -
  have "coerce [char_of (0xC3::nat)] = replacement" "coerce [char_of (0xA9::nat)] = replacement"
    by (simp_all add: coerce.simps(2) rune_len_def byte_def)
  moreover have "concat (po_stdout cut_outcome) = e_acute" by (simp add: cut_outcome_def e_acute_def)
  ultimately show ?thesis
    by (simp add: stream_collect wire_result_def exec_output_def captured_text captured_def e_acute_valid)
      (simp add: cut_outcome_def MaxOutputBytes_def e_acute_def)
qed

subsection \<open>Paths\<close>

lemma unhex_upper: "d < 16 \<Longrightarrow> unhex (upper_hex d) = Some d"
  by (auto simp: unhex_def upper_hex_def is_digit_def in_range_def byte_def)

lemma unreserved_plain: "unreserved c \<Longrightarrow> c \<noteq> CHR ''%'' \<and> c \<noteq> CHR ''+''"
  by (auto simp: unreserved_def is_digit_def in_range_def byte_def)

lemma unescape_char: "QueryUnescape (escape_char c @ s) = map_option ((#) c) (QueryUnescape s)"
proof -
  have hex: "byte c div 16 < 16" "byte c mod 16 < 16" using nat_of_char_less_256 [of c] by (simp_all add: byte_def less_mult_imp_div_less)
  have "char_of (byte c div 16 * 16 + byte c mod 16) = c" by (simp add: byte_def)
  then show ?thesis
    using unhex_upper [OF hex(1)] unhex_upper [OF hex(2)] unreserved_plain [of c]
    by (auto simp: escape_char_def split: option.split)
qed

lemma path_roundtrip: "QueryUnescape (QueryEscape path) = Some path"
proof -
  have "QueryUnescape (QueryEscape path @ []) = Some path"
    by (induction path) (simp_all add: QueryEscape_def unescape_char del: append_Nil2)
  then show ?thesis by simp
qed

lemma shell_query_roundtrip:
  "map_of (shell_query cols rows) ''cols'' = (if cols > 0 then Some (itoa (uint cols)) else None) \<and>
   map_of (shell_query cols rows) ''rows'' = (if rows > 0 then Some (itoa (uint rows)) else None)"
  by (simp add: shell_query_def)

end
