(* ===== verification/Shell.thy ===== *)
theory Shell
  imports Client_Props
begin

text \<open>
  \<open>handleShell\<close> of \<open>cmd/sandboxd/main.go\<close> and the receiving end of \<open>cmd/sandbox/shell.go\<close>:
  an interactive session as a state machine. The goroutine that pumps output, the one that
  reads the client's frames, the one that waits for the shell and the final \<open>select\<close> are
  each a few steps, taken in any order.
\<close>

subsection \<open>Starting the shell\<close>

record shell_start =
  ss_args :: "string list"
  ss_dir :: string
  ss_env :: "string list"
  ss_cols :: "16 word"
  ss_rows :: "16 word"

definition query_get :: "(string \<times> string) list \<Rightarrow> string \<Rightarrow> string" where
  "query_get q k = (case map_of q k of None \<Rightarrow> [] | Some v \<Rightarrow> v)"

definition start_shell :: "env \<Rightarrow> string list \<Rightarrow> (string \<times> string) list \<Rightarrow> ('z, shell_start) action" where
  "start_shell E environ q = do {
     dir \<leftarrow> workingDir E (query_get q ''cwd'');
     return \<lparr>ss_args = [''/bin/bash'', ''-l''], ss_dir = dir, ss_env = environ @ [''TERM=xterm-256color''],
       ss_cols = parseDim (query_get q ''cols'') 80, ss_rows = parseDim (query_get q ''rows'') 24\<rparr>
   }"

text \<open>The window the client asks for is the window the shell starts with, 80 by 24 by default.\<close>

lemma start_shell_window:
  "fst (run_state (start_shell E environ (shell_query cols rows)) s) =
     (fst (run_state (start_shell E environ (shell_query cols rows)) s))
       \<lparr>ss_cols := (if cols > 0 then cols else 80), ss_rows := (if rows > 0 then rows else 24)\<rparr>"
proof -
  have "parseDim [] d = d" for d by (simp add: parseDim_def Atoi_def)
  moreover have "query_get (shell_query cols rows) ''cwd'' = []"
    by (simp add: query_get_def shell_query_def)
  ultimately show ?thesis
    using shell_query_roundtrip [of cols rows]
    by (simp add: start_shell_def query_get_def parseDim_roundtrip workingDir_def)
qed

subsection \<open>The session\<close>

text \<open>A text frame carries a control message if it decodes to one.\<close>

record shell_control =
  sc_Type :: string
  sc_Cols :: "16 word"
  sc_Rows :: "16 word"

datatype frame = Binary string | TextFrame "shell_control option"

definition ShellResize :: string where "ShellResize = ''resize''"
definition ShellExitPrefix :: string where "ShellExitPrefix = ''exit:''"

text \<open>
  \<open>pending\<close> is what the shell has written and the pump has not read yet; \<open>produced\<close> and
  \<open>received\<close> record what went in at either end. The select is entered once and its first
  branch taken is kept in \<open>chosen\<close>.
\<close>

datatype branch = ClientGone | ShellExited

record session =
  pty_in :: string
  winsize :: "16 word \<times> 16 word"
  pending :: "string list"
  sent :: string
  input_open :: bool
  output_done :: bool
  exit_status :: "int option"
  chosen :: "branch option"
  close_reason :: "string option"
  group_killed :: bool
  finished :: bool
  produced :: string
  received :: "frame list"
  write_failed :: bool

definition session_init :: "session \<Rightarrow> bool" where
  "session_init s \<longleftrightarrow> pty_in s = [] \<and> pending s = [] \<and> sent s = [] \<and> input_open s \<and> \<not> output_done s \<and>
     exit_status s = None \<and> chosen s = None \<and> close_reason s = None \<and> \<not> group_killed s \<and> \<not> finished s \<and>
     produced s = [] \<and> received s = [] \<and> \<not> write_failed s"

definition on_frame :: "frame \<Rightarrow> session \<Rightarrow> session" where
  "on_frame f s =
     (case f of
        Binary d \<Rightarrow> s\<lparr>pty_in := pty_in s @ d\<rparr>
      | TextFrame None \<Rightarrow> s
      | TextFrame (Some c) \<Rightarrow> if sc_Type c = ShellResize then s\<lparr>winsize := (sc_Cols c, sc_Rows c)\<rparr> else s)"

inductive session_step :: "session \<Rightarrow> session \<Rightarrow> bool" where
  Produce: "exit_status s = None \<Longrightarrow> d \<noteq> [] \<Longrightarrow>
    session_step s (s\<lparr>pending := pending s @ [d], produced := produced s @ d\<rparr>)"
| Pump: "\<not> output_done s \<Longrightarrow> \<not> finished s \<Longrightarrow> pending s = d # ds \<Longrightarrow>
    session_step s (s\<lparr>pending := ds, sent := sent s @ d\<rparr>)"
| PumpFails: "\<not> output_done s \<Longrightarrow> pending s = d # ds \<Longrightarrow>
    session_step s (s\<lparr>pending := ds, output_done := True, write_failed := True\<rparr>)"
| PumpEnds: "\<not> output_done s \<Longrightarrow> pending s = [] \<Longrightarrow> exit_status s \<noteq> None \<Longrightarrow>
    session_step s (s\<lparr>output_done := True\<rparr>)"
| Frame: "input_open s \<Longrightarrow> \<not> finished s \<Longrightarrow>
    session_step s (on_frame f s\<lparr>received := received s @ [f]\<rparr>)"
| InputEnds: "input_open s \<Longrightarrow> session_step s (s\<lparr>input_open := False\<rparr>)"
| Exit: "exit_status s = None \<Longrightarrow> session_step s (s\<lparr>exit_status := Some code\<rparr>)"
| SelectGone: "chosen s = None \<Longrightarrow> \<not> input_open s \<Longrightarrow>
    session_step s (s\<lparr>chosen := Some ClientGone, group_killed := True, finished := True\<rparr>)"
| SelectExited: "chosen s = None \<Longrightarrow> exit_status s \<noteq> None \<Longrightarrow>
    session_step s (s\<lparr>chosen := Some ShellExited\<rparr>)"
| Close: "chosen s = Some ShellExited \<Longrightarrow> \<not> finished s \<Longrightarrow> output_done s \<Longrightarrow> exit_status s = Some code \<Longrightarrow>
    session_step s (s\<lparr>close_reason := Some (ShellExitPrefix @ itoa code), group_killed := True, finished := True\<rparr>)"

inductive_cases session_stepE: "session_step s t"

text \<open>What the frames amount to for the terminal.\<close>

definition typed :: "frame list \<Rightarrow> string" where
  "typed fs = concat (map (\<lambda>f. case f of Binary d \<Rightarrow> d | TextFrame _ \<Rightarrow> []) fs)"

definition session_inv :: "session \<Rightarrow> bool" where
  "session_inv s \<longleftrightarrow>
     pty_in s = typed (received s) \<and>
     (\<not> write_failed s \<longrightarrow> produced s = sent s @ concat (pending s)) \<and>
     (output_done s \<longrightarrow> write_failed s \<or> pending s = [] \<and> exit_status s \<noteq> None) \<and>
     (finished s \<longrightarrow> group_killed s) \<and>
     (\<forall>r. close_reason s = Some r \<longrightarrow> finished s \<and> output_done s \<and>
        (\<exists>code. exit_status s = Some code \<and> r = ShellExitPrefix @ itoa code))"

lemma session_inv_init: "session_init s \<Longrightarrow> session_inv s"
  by (simp add: session_init_def session_inv_def typed_def)

lemma typed_snoc: "typed (fs @ [f]) = typed fs @ (case f of Binary d \<Rightarrow> d | TextFrame _ \<Rightarrow> [])"
  by (simp add: typed_def)

lemma session_inv_frame:
  "session_inv s \<Longrightarrow> session_inv (on_frame f s\<lparr>received := received s @ [f]\<rparr>)"
  by (cases f) (auto simp: session_inv_def on_frame_def typed_snoc split: option.split)

lemma session_inv_step: "session_inv s \<Longrightarrow> session_step s t \<Longrightarrow> session_inv t"
  by (erule session_stepE; (simp only: session_inv_frame)?) (auto simp: session_inv_def)

interpretation session: inductive_invariant session_init session_step session_inv
  by unfold_locales (fact session_inv_init, fact session_inv_step)

subsection \<open>The exit code at the client\<close>

text \<open>
  \<open>os.Exit\<close> with the number after the prefix; without the prefix the session just ends. The
  error of \<open>Atoi\<close> is dropped: no number counts as 0, one out of range as the nearest in range.
\<close>

definition atoi_value :: "string \<Rightarrow> int" where
  "atoi_value s =
     (case Atoi s of
        Some n \<Rightarrow> n
      | None \<Rightarrow>
          (let neg = (take 1 s = ''-''); ds = (if take 1 s = ''-'' \<or> take 1 s = ''+'' then drop 1 s else s)
           in if ds = [] \<or> \<not> list_all is_digit ds then 0 else if neg then - (2 ^ 63) else 2 ^ 63 - 1))"

definition client_exit :: "string \<Rightarrow> int option" where
  "client_exit reason =
     (if take (length ShellExitPrefix) reason = ShellExitPrefix
      then Some (atoi_value (drop (length ShellExitPrefix) reason))
      else None)"

lemma Atoi_itoa_int:
  assumes "- (2 ^ 63) \<le> n" "n < 2 ^ 63"
  shows "Atoi (itoa n) = Some n"
proof (cases "0 \<le> n")
  case True
  then show ?thesis using assms by (simp add: Atoi_itoa)
next
  case False
  have "list_all is_digit (dec (nat (- n)))" using dec_digits [of _ "nat (- n)"] by (auto simp: list_all_iff)
  with False assms show ?thesis by (simp add: Atoi_def itoa_def)
qed

text \<open>
  In every run of a session, when the agent closes the connection because the shell
  exited, the client's exit code is the shell's, everything the shell wrote has been sent
  unless a write to the client failed, the shell's process group has been killed, and the
  terminal has been given exactly the bytes of the binary frames taken in until then.
\<close>
theorem shell_close_reports_exit:
  assumes "reach session_init session_step s" "close_reason s = Some reason"
    and "\<And>code. exit_status s = Some code \<Longrightarrow> - (2 ^ 63) \<le> code \<and> code < 2 ^ 63"
  shows "client_exit reason = exit_status s \<and> (write_failed s \<or> sent s = produced s) \<and>
    group_killed s \<and> pty_in s = typed (received s)"
proof -
  have inv: "session_inv s" by (rule session.reach_inv [OF assms(1)])
  then obtain code where code: "exit_status s = Some code" "reason = ShellExitPrefix @ itoa code"
    using assms(2) by (auto simp: session_inv_def)
  then have "client_exit reason = exit_status s"
    using assms(3) Atoi_itoa_int by (simp add: client_exit_def atoi_value_def)
  with inv assms(2) show ?thesis by (auto simp: session_inv_def)
qed

definition session0 :: session where
  "session0 = \<lparr>pty_in = [], winsize = (80, 24), pending = [], sent = [], input_open = True, output_done = False,
     exit_status = None, chosen = None, close_reason = None, group_killed = False, finished = False,
     produced = [], received = [], write_failed = False\<rparr>"

definition session1 :: session where
  "session1 = session0\<lparr>exit_status := Some 7, output_done := True, chosen := Some ShellExited,
     close_reason := Some (ShellExitPrefix @ itoa 7), group_killed := True, finished := True\<rparr>"

lemma session1_reach: "reach session_init session_step session1"
proof -
  have "reach session_init session_step session0"
    by (rule reach_init) (simp add: session_init_def session0_def)
  then have "reach session_init session_step (session0\<lparr>exit_status := Some 7\<rparr>)"
    by (rule reach_step) (rule Exit, simp add: session0_def)
  then have "reach session_init session_step (session0\<lparr>exit_status := Some 7, output_done := True\<rparr>)"
    by (rule reach_step) (use PumpEnds [of "session0\<lparr>exit_status := Some 7\<rparr>"] in \<open>simp add: session0_def\<close>)
  then have "reach session_init session_step (session0\<lparr>exit_status := Some 7, output_done := True, chosen := Some ShellExited\<rparr>)"
    by (rule reach_step) (use SelectExited [of "session0\<lparr>exit_status := Some 7, output_done := True\<rparr>"] in \<open>simp add: session0_def\<close>)
  then show ?thesis
    by (rule reach_step)
      (use Close [of "session0\<lparr>exit_status := Some 7, output_done := True, chosen := Some ShellExited\<rparr>" 7]
        in \<open>simp add: session0_def session1_def\<close>)
qed

theorem shell_close_reports_exit_witness:
  "client_exit (ShellExitPrefix @ itoa 7) = Some 7 \<and> sent session1 = produced session1"
  using shell_close_reports_exit [OF session1_reach, of "ShellExitPrefix @ itoa 7"]
  by (simp add: session1_def session0_def)

end
