(* ===== verification/Client_Api.thy ===== *)
theory Client_Api
  imports Api_Props Shell
begin

text \<open>
  The two ends of the API put together: the request each method of \<open>internal/client/client.go\<close>
  sends, how it arrives at the mux of the server, and where the proxies hand it on to the
  mux of the guest agent (\<open>main\<close> of \<open>cmd/sandboxd/main.go\<close>).
\<close>

subsection \<open>The requests of the client\<close>

datatype client_body = NoContent | JsonTimeout int | JsonExec exec_request | JsonPort int | RawBody string

record http_request =
  hq_method :: string
  hq_target :: string  \<comment> \<open>path and query\<close>
  hq_body :: client_body

text \<open>The methods of \<open>Client\<close>, by their arguments.\<close>

datatype client_op =
    ClientCreate int | ClientList | ClientGet string | ClientDestroy string
  | ClientExec string exec_request | ClientExecStream string exec_request
  | ClientExposePort string int | ClientListPorts string
  | ClientReadFile string string | ClientWriteFile string string string | ClientListDir string string
  | ClientShell string "16 word" "16 word"

text \<open>\<open>url.Values.Encode\<close>, the pairs being sorted already.\<close>

definition encode_query :: "(string \<times> string) list \<Rightarrow> string" where
  "encode_query kvs = join_with ''&'' (map (\<lambda>(k, v). QueryEscape k @ ''='' @ QueryEscape v) kvs)"

text \<open>The requests about ports, and those about files.\<close>

definition ports_request :: "string \<Rightarrow> string \<Rightarrow> client_body \<Rightarrow> http_request" where
  [simp]: "ports_request m sid b = \<lparr>hq_method = m, hq_target = ''/sandboxes/'' @ sid @ ''/ports'', hq_body = b\<rparr>"

definition file_request :: "string \<Rightarrow> string \<Rightarrow> string \<Rightarrow> string \<Rightarrow> client_body \<Rightarrow> http_request" where
  [simp]: "file_request m sid endpoint path b = \<lparr>hq_method = m, hq_target = filePath sid endpoint path, hq_body = b\<rparr>"

fun client_request :: "client_op \<Rightarrow> http_request" where
  "client_request (ClientCreate n) =
     \<lparr>hq_method = ''POST'', hq_target = ''/sandboxes'', hq_body = (if n > 0 then JsonTimeout n else NoContent)\<rparr>"
| "client_request ClientList = \<lparr>hq_method = ''GET'', hq_target = ''/sandboxes'', hq_body = NoContent\<rparr>"
| "client_request (ClientGet sid) = \<lparr>hq_method = ''GET'', hq_target = ''/sandboxes/'' @ sid, hq_body = NoContent\<rparr>"
| "client_request (ClientDestroy sid) = \<lparr>hq_method = ''DELETE'', hq_target = ''/sandboxes/'' @ sid, hq_body = NoContent\<rparr>"
| "client_request (ClientExec sid req) =
     \<lparr>hq_method = ''POST'', hq_target = ''/sandboxes/'' @ sid @ ''/exec'', hq_body = JsonExec req\<rparr>"
| "client_request (ClientExecStream sid req) =
     \<lparr>hq_method = ''POST'', hq_target = ''/sandboxes/'' @ sid @ ''/exec/stream'', hq_body = JsonExec req\<rparr>"
| "client_request (ClientExposePort sid gp) = ports_request ''POST'' sid (JsonPort gp)"
| "client_request (ClientListPorts sid) = ports_request ''GET'' sid NoContent"
| "client_request (ClientReadFile sid path) = file_request ''GET'' sid ''files'' path NoContent"
| "client_request (ClientWriteFile sid path data) = file_request ''PUT'' sid ''files'' path (RawBody data)"
| "client_request (ClientListDir sid path) = file_request ''GET'' sid ''dir'' path NoContent"
| "client_request (ClientShell sid cols rows) =
     (let enc = encode_query (shell_query cols rows) in
      \<lparr>hq_method = ''GET'', hq_target = ''/sandboxes/'' @ sid @ ''/shell'' @ (if enc \<noteq> [] then ''?'' @ enc else []),
       hq_body = NoContent\<rparr>)"

subsection \<open>Arriving at a mux\<close>

definition cut :: "char \<Rightarrow> string \<Rightarrow> string \<times> string" where
  "cut c s = (takeWhile (\<lambda>x. x \<noteq> c) s, drop 1 (dropWhile (\<lambda>x. x \<noteq> c) s))"

text \<open>
  The path of a target in segments and its query. Escapes in a path are not resolved: the
  paths the client and the proxies build have none.
\<close>

definition split_target :: "string \<Rightarrow> string list \<times> string" where
  "split_target t = (case cut CHR ''?'' (fst (cut CHR ''#'' t)) of (p, q) \<Rightarrow> (tl (split_at slash p), q))"

text \<open>\<open>url.ParseQuery\<close>; malformed parts are passed over.\<close>

definition ParseQuery :: "string \<Rightarrow> (string \<times> string) list" where
  "ParseQuery q = List.map_filter
     (\<lambda>p. if p = [] \<or> CHR '';'' \<in> set p then None
          else (case cut CHR ''='' p of (k, v) \<Rightarrow>
            (case (QueryUnescape k, QueryUnescape v) of (Some k, Some v) \<Rightarrow> Some (k, v) | _ \<Rightarrow> None)))
     (split_at CHR ''&'' q)"

text \<open>
  What the structures of the handlers decode from a body. The text of a JSON body and what
  the decoders make of raw bytes are arguments.
\<close>

type_synonym body_views = "int request_body \<times> int request_body \<times> (int \<times> int) request_body"

definition views_of :: "(string \<Rightarrow> body_views) \<Rightarrow> client_body \<Rightarrow> body_views" where
  "views_of raw b = (case b of
     NoContent \<Rightarrow> (NoBody, NoBody, NoBody)
   | JsonTimeout n \<Rightarrow> (Decoded n, Decoded 0, Decoded (0, n))
   | JsonExec req \<Rightarrow> (Decoded (er_TimeoutSec req), Decoded 0, Decoded (0, er_TimeoutSec req))
   | JsonPort gp \<Rightarrow> (Decoded 0, Decoded gp, Decoded (0, 0))
   | RawBody s \<Rightarrow> raw s)"

definition body_text :: "(client_body \<Rightarrow> string) \<Rightarrow> client_body \<Rightarrow> string" where
  "body_text marshal b = (case b of NoContent \<Rightarrow> [] | RawBody s \<Rightarrow> s | _ \<Rightarrow> marshal b)"

definition arrives :: "(string \<Rightarrow> body_views) \<Rightarrow> (client_body \<Rightarrow> string) \<Rightarrow> http_request \<Rightarrow> api_request" where
  "arrives raw marshal rq =
     (case (split_target (hq_target rq), views_of raw (hq_body rq)) of ((path, query), (vt, vp, vf)) \<Rightarrow>
        \<lparr>rq_method = hq_method rq, rq_path = path, rq_query = query, rq_content_type = [],
         rq_raw = body_text marshal (hq_body rq), rq_timeout = vt, rq_port = vp, rq_fanout = vf\<rparr>)"

subsection \<open>The guest agent's mux\<close>

datatype agent_handler = AHealth | AExec | AExecStream | AReadFile | AWriteFile | AListDir | AShell

definition agent_routes :: "((string \<times> string list) \<times> agent_handler) list" where
  "agent_routes =
     [((''GET'', [''health'']), AHealth),
      ((''POST'', [''exec'']), AExec),
      ((''POST'', [''exec'', ''stream'']), AExecStream),
      ((''GET'', [''files'']), AReadFile),
      ((''PUT'', [''files'']), AWriteFile),
      ((''GET'', [''dir'']), AListDir),
      ((''GET'', [''shell'']), AShell)]"

text \<open>The target of a URL: what follows the authority.\<close>

definition url_target :: "string \<Rightarrow> string" where
  "url_target url = dropWhile (\<lambda>c. c \<noteq> slash) (drop (length ''http://'') url)"

definition agent_receives :: "agent_request \<Rightarrow> (agent_handler \<times> (string \<times> string) list) option" where
  "agent_receives ar =
     (case split_target (url_target (ar_url ar)) of (path, query) \<Rightarrow>
        map_option (\<lambda>h. (h, ParseQuery query)) (map_of agent_routes (ar_method ar, path)))"

subsection \<open>Queries\<close>

lemma split_at_plain: "c \<notin> set w \<Longrightarrow> split_at c w = [w]"
  by (induction w) auto

lemma split_at_cons: "c \<notin> set w \<Longrightarrow> split_at c (w @ c # s) = w # split_at c s"
  by (induction w) auto

lemma split_join: "ws \<noteq> [] \<Longrightarrow> \<forall>w \<in> set ws. c \<notin> set w \<Longrightarrow> split_at c (join_with [c] ws) = ws"
  by (induction "[c]" ws rule: join_with.induct) (auto simp: split_at_plain split_at_cons)

lemma cut_at: "c \<notin> set k \<Longrightarrow> cut c (k @ c # v) = (k, v)"
  by (simp add: cut_def takeWhile_append dropWhile_append takeWhile_eq_all_conv dropWhile_eq_Nil_conv)

lemma cut_none: "c \<notin> set s \<Longrightarrow> cut c s = (s, [])"
proof -
  assume "c \<notin> set s"
  then have "dropWhile (\<lambda>x. x \<noteq> c) s = []" "takeWhile (\<lambda>x. x \<noteq> c) s = s"
    by (auto simp: dropWhile_eq_Nil_conv takeWhile_eq_all_conv)
  then show ?thesis by (simp only: cut_def drop_Nil)
qed

lemma hex_char: "d < 16 \<Longrightarrow> is_digit (upper_hex d) \<or> in_range 65 90 (upper_hex d)"
  by (auto simp: upper_hex_def is_digit_def in_range_def byte_def)

lemma escaped_chars: "x \<in> set (QueryEscape s) \<Longrightarrow> unreserved x \<or> x = CHR ''+'' \<or> x = CHR ''%''"
proof -
  assume "x \<in> set (QueryEscape s)"
  then obtain c where "x \<in> set (escape_char c)" by (auto simp: QueryEscape_def)
  moreover have "byte c div 16 < 16" "byte c mod 16 < 16"
    using nat_of_char_less_256 [of c] by (simp_all add: byte_def less_mult_imp_div_less)
  ultimately show ?thesis
    using hex_char [of "byte c div 16"] hex_char [of "byte c mod 16"]
    by (auto simp: escape_char_def unreserved_def split: if_splits)
qed

lemma not_unreserved:
  "\<not> unreserved CHR ''&''" "\<not> unreserved CHR ''=''" "\<not> unreserved CHR '';''" "\<not> unreserved CHR ''#''"
  "\<not> unreserved CHR ''?''" "\<not> unreserved CHR ''/''"
  by code_simp+

lemma escaped_free:
  "CHR ''&'' \<notin> set (QueryEscape s)" "CHR ''='' \<notin> set (QueryEscape s)" "CHR '';'' \<notin> set (QueryEscape s)"
  "CHR ''#'' \<notin> set (QueryEscape s)" "CHR ''?'' \<notin> set (QueryEscape s)" "CHR ''/'' \<notin> set (QueryEscape s)"
  using escaped_chars [of _ s] not_unreserved by force+

lemma parse_pair:
  "(let p = QueryEscape k @ CHR ''='' # QueryEscape v in
    if p = [] \<or> CHR '';'' \<in> set p then None
    else (case cut CHR ''='' p of (k, v) \<Rightarrow>
      (case (QueryUnescape k, QueryUnescape v) of (Some k, Some v) \<Rightarrow> Some (k, v) | _ \<Rightarrow> None))) = Some (k, v)"
  by (simp add: cut_at escaped_free path_roundtrip)

lemma query_parsed: "ParseQuery (encode_query kvs) = kvs"
proof (cases "kvs = []")
  case True
  then show ?thesis by (simp add: encode_query_def ParseQuery_def List.map_filter_def)
next
  case False
  let ?f = "\<lambda>(k, v). QueryEscape k @ ''='' @ QueryEscape v"
  have "split_at CHR ''&'' (encode_query kvs) = map ?f kvs"
    unfolding encode_query_def using False by (intro split_join) (auto simp: escaped_free)
  moreover have "List.map_filter (\<lambda>p. if p = [] \<or> CHR '';'' \<in> set p then None
          else (case cut CHR ''='' p of (k, v) \<Rightarrow>
            (case (QueryUnescape k, QueryUnescape v) of (Some k, Some v) \<Rightarrow> Some (k, v) | _ \<Rightarrow> None))) (map ?f xs) = xs" for xs
    using parse_pair [unfolded Let_def] by (induction xs) (simp_all add: List.map_filter_def split_beta)
  ultimately show ?thesis by (simp add: ParseQuery_def)
qed

text \<open>
  Whatever the names and values of a query, what the client encodes is what the server
  and the agent parse back.
\<close>
theorem query_roundtrip: "ParseQuery (encode_query kvs) = kvs"
  by (rule query_parsed)

subsection \<open>Every method reaches its handler\<close>

text \<open>Identifiers of sandboxes are UUIDs.\<close>

definition id_char :: "char \<Rightarrow> bool" where
  "id_char c \<longleftrightarrow> is_digit c \<or> in_range 65 90 c \<or> in_range 97 122 c \<or> c = CHR ''-''"

definition sandbox_id :: "string \<Rightarrow> bool" where
  "sandbox_id sid \<longleftrightarrow> sid \<noteq> [] \<and> list_all id_char sid"

fun op_sandbox :: "client_op \<Rightarrow> string option" where
  "op_sandbox (ClientCreate _) = None"
| "op_sandbox ClientList = None"
| "op_sandbox (ClientGet sid) = Some sid"
| "op_sandbox (ClientDestroy sid) = Some sid"
| "op_sandbox (ClientExec sid _) = Some sid"
| "op_sandbox (ClientExecStream sid _) = Some sid"
| "op_sandbox (ClientExposePort sid _) = Some sid"
| "op_sandbox (ClientListPorts sid) = Some sid"
| "op_sandbox (ClientReadFile sid _) = Some sid"
| "op_sandbox (ClientWriteFile sid _ _) = Some sid"
| "op_sandbox (ClientListDir sid _) = Some sid"
| "op_sandbox (ClientShell sid _ _) = Some sid"

text \<open>The handler each method is meant for.\<close>

fun op_handler :: "client_op \<Rightarrow> handler" where
  "op_handler (ClientCreate _) = HCreate"
| "op_handler ClientList = HList"
| "op_handler (ClientGet _) = HGet"
| "op_handler (ClientDestroy _) = HDestroy"
| "op_handler (ClientExec _ _) = HAgent ''exec''"
| "op_handler (ClientExecStream _ _) = HAgent ''exec/stream''"
| "op_handler (ClientExposePort _ _) = HExposePort"
| "op_handler (ClientListPorts _) = HListPorts"
| "op_handler (ClientReadFile _ _) = HAgent ''files''"
| "op_handler (ClientWriteFile _ _ _) = HAgent ''files''"
| "op_handler (ClientListDir _ _) = HAgent ''dir''"
| "op_handler (ClientShell _ _ _) = HShell"

definition op_query :: "client_op \<Rightarrow> (string \<times> string) list" where
  "op_query op = (let file = (\<lambda>path. if path \<noteq> [] then [(''path'', path)] else []) in
     case op of
       ClientReadFile _ path \<Rightarrow> file path
     | ClientWriteFile _ path _ \<Rightarrow> file path
     | ClientListDir _ path \<Rightarrow> file path
     | ClientShell _ cols rows \<Rightarrow> shell_query cols rows
     | _ \<Rightarrow> [])"

lemma id_free:
  assumes "sandbox_id sid"
  shows "CHR ''/'' \<notin> set sid" "CHR ''?'' \<notin> set sid" "CHR ''#'' \<notin> set sid" "sid \<noteq> []"
proof -
  have "\<not> id_char CHR ''/''" "\<not> id_char CHR ''?''" "\<not> id_char CHR ''#''" by code_simp+
  with assms show "CHR ''/'' \<notin> set sid" "CHR ''?'' \<notin> set sid" "CHR ''#'' \<notin> set sid" "sid \<noteq> []"
    by (auto simp: sandbox_id_def list_all_iff)
qed

text \<open>A target of the client: a path with the characters of identifiers and literals, then a query.\<close>

lemma split_target_path:
  assumes "CHR ''?'' \<notin> set p" "CHR ''#'' \<notin> set p"
  shows "split_target p = (tl (split_at CHR ''/'' p), [])"
  using assms by (simp add: split_target_def cut_none slash_def)

lemma split_target_query:
  assumes "CHR ''?'' \<notin> set p" "CHR ''#'' \<notin> set p" "CHR ''#'' \<notin> set q"
  shows "split_target (p @ CHR ''?'' # q) = (tl (split_at CHR ''/'' p), q)"
  using assms by (simp add: split_target_def cut_none cut_at slash_def)

lemma encoded_free: "CHR ''#'' \<notin> set (encode_query kvs)"
proof -
  have "CHR ''#'' \<notin> set (join_with ''&'' ws)" if "\<forall>w \<in> set ws. CHR ''#'' \<notin> set w" for ws
    using that by (induction "''&''" ws rule: join_with.induct) auto
  then show ?thesis by (auto simp: encode_query_def escaped_free)
qed

lemma filePath_query: "filePath sid endpoint path =
  (''/sandboxes/'' @ sid @ CHR ''/'' # endpoint) @ CHR ''?'' # encode_query (if path \<noteq> [] then [(''path'', path)] else [])"
proof -
  have "QueryEscape ''path'' = ''path''" by code_simp
  then show ?thesis by (simp add: filePath_def encode_query_def)
qed

lemma sandbox_path:
  assumes "sandbox_id sid"
  shows "split_at CHR ''/'' (''/sandboxes/'' @ sid) = [[], ''sandboxes'', sid]"
    and "split_at CHR ''/'' (''/sandboxes/'' @ sid @ CHR ''/'' # r) = [] # ''sandboxes'' # sid # split_at CHR ''/'' r"
  using id_free [OF assms] by (simp_all add: split_at_plain split_at_cons)

lemma file_target:
  assumes "sandbox_id sid" "endpoint = ''files'' \<or> endpoint = ''dir''"
  shows "split_target (filePath sid endpoint path) =
    ([''sandboxes'', sid, endpoint], encode_query (if path \<noteq> [] then [(''path'', path)] else []))"
proof -
  have "CHR ''?'' \<notin> set (''/sandboxes/'' @ sid @ CHR ''/'' # endpoint)" "CHR ''#'' \<notin> set (''/sandboxes/'' @ sid @ CHR ''/'' # endpoint)"
    using assms(2) id_free [OF assms(1)] by auto
  note target = split_target_query [OF this encoded_free]
  have "split_at CHR ''/'' endpoint = [endpoint]" using assms(2) by (auto intro: split_at_plain)
  then show ?thesis unfolding filePath_query target sandbox_path(2) [OF assms(1)] by simp
qed

text \<open>How a request of the client arrives: its segments and its query.\<close>

definition op_path :: "client_op \<Rightarrow> string list" where
  "op_path op = ''sandboxes'' # (case op_sandbox op of None \<Rightarrow> [] | Some sid \<Rightarrow> [sid]) @
     (case op_handler op of HAgent e \<Rightarrow> split_at CHR ''/'' e | HShell \<Rightarrow> [''shell''] | HExposePort \<Rightarrow> [''ports'']
      | HListPorts \<Rightarrow> [''ports''] | _ \<Rightarrow> [])"

lemma client_target:
  assumes "\<And>sid. op_sandbox op = Some sid \<Longrightarrow> sandbox_id sid"
  shows "split_target (hq_target (client_request op)) = (op_path op, encode_query (op_query op))"
proof -
  have empty: "encode_query [] = []" by (simp add: encode_query_def)
  note target = split_target_path file_target sandbox_path id_free
    split_at_plain split_at_cons op_path_def op_query_def empty
  show ?thesis
  proof (cases op)
    case (ClientShell sid cols rows)
    with assms have id: "sandbox_id sid" by simp
    have "split_target ((''/sandboxes/'' @ sid @ ''/shell'') @ (if enc \<noteq> [] then ''?'' @ enc else [])) = ([''sandboxes'', sid, ''shell''], enc)"
      if "CHR ''#'' \<notin> set enc" for enc
      using id_free [OF id] that sandbox_path(2) [OF id, of "''shell''"]
        split_target_path [of "''/sandboxes/'' @ sid @ ''/shell''"] split_target_query [of "''/sandboxes/'' @ sid @ ''/shell''" enc]
      by (cases "enc = []") simp_all
    with ClientShell show ?thesis by (simp add: Let_def op_path_def op_query_def encoded_free)
  qed (use assms in \<open>simp_all add: target\<close>)
qed

lemma route_of_path:
  assumes "rq_path rq = op_path op" "rq_method rq = hq_method (client_request op)"
    and "\<And>sid. op_sandbox op = Some sid \<Longrightarrow> sid \<noteq> []"
  shows "route_request rq = Some (op_handler op, case op_sandbox op of None \<Rightarrow> [] | Some sid \<Rightarrow> sid)"
  using assms
  by (cases op) (simp_all add: route_request_def api_routes_def match_route_def List.map_filter_def op_path_def Let_def)

lemma client_reached:
  assumes "\<And>sid. op_sandbox op = Some sid \<Longrightarrow> sandbox_id sid"
  shows "route_request (arrives raw marshal (client_request op)) =
      Some (op_handler op, case op_sandbox op of None \<Rightarrow> [] | Some sid \<Rightarrow> sid) \<and>
    ParseQuery (rq_query (arrives raw marshal (client_request op))) = op_query op"
proof -
  let ?rq = "arrives raw marshal (client_request op)"
  have "rq_path ?rq = op_path op" "rq_query ?rq = encode_query (op_query op)" "rq_method ?rq = hq_method (client_request op)"
    using client_target [OF assms] by (simp_all add: arrives_def split: prod.split)
  with assms id_free(4) show ?thesis
    using route_of_path [of ?rq op] by (auto simp: query_parsed)
qed

text \<open>
  Every method of the client sends a request that the server's mux gives to the handler
  the method is meant for, with the identifier the caller named, and with the query it was
  called with.
\<close>
theorem client_reaches_handler:
  assumes "\<And>sid. op_sandbox op = Some sid \<Longrightarrow> sandbox_id sid"
  shows "route_request (arrives raw marshal (client_request op)) =
      Some (op_handler op, case op_sandbox op of None \<Rightarrow> [] | Some sid \<Rightarrow> sid) \<and>
    ParseQuery (rq_query (arrives raw marshal (client_request op))) = op_query op"
  by (rule client_reached [OF assms])

theorem client_reaches_handler_witness:
  "route_request (arrives (\<lambda>_. (NoBody, NoBody, NoBody)) (\<lambda>_. []) (client_request (ClientReadFile ''a1'' ''/etc/a b&c''))) =
     Some (HAgent ''files'', ''a1'')"
proof -
  have "sandbox_id ''a1''" by code_simp
  then show ?thesis
    using client_reaches_handler [of "ClientReadFile ''a1'' ''/etc/a b&c''"] by simp
qed

end
