(* ===== verification/End_to_End.thy ===== *)
theory End_to_End
  imports Client_Api
begin

text \<open>
  From the client through the API of a host into a guest: which handler of the guest agent
  a request ends at and with what, and reading a file out of a sandbox as one program.
\<close>

subsection \<open>Through the proxies\<close>

fun guest_handler :: "client_op \<Rightarrow> agent_handler option" where
  "guest_handler (ClientExec _ _) = Some AExec"
| "guest_handler (ClientExecStream _ _) = Some AExecStream"
| "guest_handler (ClientReadFile _ _) = Some AReadFile"
| "guest_handler (ClientWriteFile _ _ _) = Some AWriteFile"
| "guest_handler (ClientListDir _ _) = Some AListDir"
| "guest_handler (ClientShell _ _ _) = Some AShell"
| "guest_handler _ = None"

text \<open>The request the proxies make for a sandbox at an address.\<close>

definition proxy_request :: "string \<Rightarrow> string \<Rightarrow> api_request \<Rightarrow> agent_request" where
  "proxy_request ip endpoint rq =
     \<lparr>ar_method = rq_method rq,
      ar_url = with_query (''http://'' @ ip @ '':'' @ itoa AgentPort @ ''/'' @ endpoint) (rq_query rq),
      ar_content_type = rq_content_type rq, ar_body = rq_raw rq\<rparr>"

lemma proxied_to:
  assumes "run_state (reg_Get E sid) s = (Inr sb, t)"
  shows "run_state (handleAgentProxy E agent endpoint sid rq) s =
      (proxied (agent (proxy_request (sb_guest_ip sb) endpoint rq)), t)"
    and "run_state (handleShellProxy E agent sid rq) s =
      (proxied (agent (proxy_request (sb_guest_ip sb) ''shell'' rq)), t)"
  using assms by (simp_all add: handleAgentProxy_def handleShellProxy_def proxy_request_def)

text \<open>An address has none of the characters that delimit the parts of a URL.\<close>

definition plain_host :: "string \<Rightarrow> bool" where
  "plain_host ip \<longleftrightarrow> CHR ''/'' \<notin> set ip \<and> CHR ''?'' \<notin> set ip \<and> CHR ''#'' \<notin> set ip"

lemma agent_port: "itoa AgentPort = ''8090''"
  by (simp add: AgentPort_def itoa_def dec_eval)

lemma proxy_target:
  assumes "plain_host ip" "CHR ''?'' \<notin> set endpoint" "CHR ''#'' \<notin> set endpoint" "CHR ''#'' \<notin> set (rq_query rq)"
  shows "split_target (url_target (ar_url (proxy_request ip endpoint rq))) = (split_at CHR ''/'' endpoint, rq_query rq)"
proof -
  have "dropWhile (\<lambda>c. c \<noteq> slash) (ip @ '':8090/'' @ r) = CHR ''/'' # r" for r
    using assms(1) by (auto simp: plain_host_def slash_def dropWhile_append dropWhile_eq_Nil_conv)
  then have url: "url_target (ar_url (proxy_request ip endpoint rq)) = with_query (CHR ''/'' # endpoint) (rq_query rq)"
    by (simp add: proxy_request_def url_target_def with_query_def agent_port)
  show ?thesis
    using assms split_target_path [of "CHR ''/'' # endpoint"] split_target_query [of "CHR ''/'' # endpoint" "rq_query rq"]
    by (simp add: url with_query_def)
qed

lemma client_rq:
  assumes "\<And>sid. op_sandbox op = Some sid \<Longrightarrow> sandbox_id sid"
  shows "rq_query (arrives raw marshal (client_request op)) = encode_query (op_query op)"
    and "rq_method (arrives raw marshal (client_request op)) = hq_method (client_request op)"
    and "rq_raw (arrives raw marshal (client_request op)) = body_text marshal (hq_body (client_request op))"
  using client_target [OF assms] by (simp_all add: arrives_def split: prod.split)

definition guest_endpoint :: "client_op \<Rightarrow> string" where
  "guest_endpoint op = (case op_handler op of HAgent e \<Rightarrow> e | _ \<Rightarrow> ''shell'')"

lemma guest_request:
  assumes "guest_handler op = Some h" "plain_host ip" "rq_query rq = encode_query (op_query op)"
    and "rq_method rq = hq_method (client_request op)"
  shows "agent_receives (proxy_request ip (guest_endpoint op) rq) = Some (h, op_query op)"
proof -
  have "CHR ''?'' \<notin> set (guest_endpoint op)" "CHR ''#'' \<notin> set (guest_endpoint op)"
    using assms(1) by (cases op; simp add: guest_endpoint_def)+
  from proxy_target [OF assms(2) this] have
    "split_target (url_target (ar_url (proxy_request ip (guest_endpoint op) rq))) = (split_at CHR ''/'' (guest_endpoint op), rq_query rq)"
    by (simp add: assms(3) encoded_free)
  moreover have "map_of agent_routes (hq_method (client_request op), split_at CHR ''/'' (guest_endpoint op)) = Some h"
    using assms(1) by (cases op) (auto simp: agent_routes_def guest_endpoint_def Let_def)
  ultimately show ?thesis
    using assms(3,4) by (simp add: agent_receives_def query_parsed) (simp add: proxy_request_def)
qed

lemma guest_route:
  assumes "guest_handler op = Some h" "op_sandbox op = Some sid" "sandbox_id sid" "run_state (reg_Get E sid) s = (Inr sb, t)"
  shows "run_state (serve_request E cfg agent (arrives raw marshal (client_request op))) s =
    (Some (proxied (agent (proxy_request (sb_guest_ip sb) (guest_endpoint op) (arrives raw marshal (client_request op))))), t)"
proof -
  have "route_request (arrives raw marshal (client_request op)) = Some (op_handler op, sid)"
    using client_reached [of op raw marshal] assms(2,3) by simp
  then show ?thesis
    using assms(1) proxied_to [OF assms(4)] by (cases op) (auto simp: serve_request_def guest_endpoint_def)
qed

text \<open>
  C24: What the client asks of a sandbox that is there ends, through the API of its host, at
  the handler of the agent it is meant for, at the address of that sandbox, with the query
  and the body the caller gave, and the caller gets the answer of the agent.
\<close>
theorem client_reaches_guest:
  assumes "guest_handler op = Some h" "op_sandbox op = Some sid" "sandbox_id sid"
    and "run_state (reg_Get E sid) s = (Inr sb, t)" "plain_host (sb_guest_ip sb)"
  shows "\<exists>ar. run_state (serve_request E cfg agent (arrives raw marshal (client_request op))) s = (Some (proxied (agent ar)), t) \<and>
    prefix (''http://'' @ sb_guest_ip sb @ '':8090/'') (ar_url ar) \<and>
    agent_receives ar = Some (h, op_query op) \<and> ar_body ar = body_text marshal (hq_body (client_request op))"
proof -
  let ?rq = "arrives raw marshal (client_request op)"
  have id: "\<And>sid. op_sandbox op = Some sid \<Longrightarrow> sandbox_id sid" using assms(2,3) by simp
  let ?ar = "proxy_request (sb_guest_ip sb) (guest_endpoint op) ?rq"
  have "prefix (''http://'' @ sb_guest_ip sb @ '':8090/'') (ar_url ?ar)"
    by (auto simp: proxy_request_def with_query_def agent_port prefix_def)
  moreover have "ar_body ?ar = body_text marshal (hq_body (client_request op))"
    using client_rq(3) [OF id] by (simp add: proxy_request_def)
  ultimately show ?thesis
    using guest_route [OF assms(1-4)] guest_request [OF assms(1,5) client_rq(1,2) [OF id]] by blast
qed

text \<open>A sandbox on record: the one of \<open>server_a\<close>.\<close>

lemma get_a: "\<exists>sb t. run_state (reg_Get sunny ''a'') server_a = (Inr sb, t) \<and> plain_host (sb_guest_ip sb)"
proof -
  have "plain_host ''172.16.0.10''" by code_simp
  then show ?thesis
    by (simp add: reg_Get_def db_query_def Get_def find_sandbox_def server_a_def db_a_def row_a_def new_row_def
        sunny_def no_faults_def scanSandbox_def)
qed

lemma id_a: "sandbox_id ''a''"
  by code_simp

theorem client_reaches_guest_witness:
  "\<exists>ar t. run_state (serve_request sunny sample_cfg (\<lambda>_. Unreachable)
       (arrives (\<lambda>_. (NoBody, NoBody, NoBody)) (\<lambda>_. []) (client_request (ClientShell ''a'' 100 40)))) server_a =
       (Some (502, BError ErrAgentUnreachable), t) \<and>
     agent_receives ar = Some (AShell, [(''cols'', itoa 100), (''rows'', itoa 40)])"
proof -
  obtain sb t where "run_state (reg_Get sunny ''a'') server_a = (Inr sb, t)" "plain_host (sb_guest_ip sb)"
    using get_a by blast
  then obtain ar where "run_state (serve_request sunny sample_cfg (\<lambda>_. Unreachable)
       (arrives (\<lambda>_. (NoBody, NoBody, NoBody)) (\<lambda>_. []) (client_request (ClientShell ''a'' 100 40)))) server_a =
       (Some (proxied Unreachable), t)" "agent_receives ar = Some (AShell, op_query (ClientShell ''a'' 100 40))"
    using client_reaches_guest [of "ClientShell ''a'' 100 40" AShell, OF _ _ id_a] by (metis guest_handler.simps(6) op_sandbox.simps(12))
  then show ?thesis by (intro exI [of _ ar] exI [of _ t]) (simp add: op_query_def shell_query_def proxied_def)
qed

subsection \<open>Writing and reading a file\<close>

text \<open>
  The file handlers of the agent behind its mux, with the guest they run in as their state.
  \<open>enc\<close> prints a body as JSON; what the other handlers answer is \<open>other\<close>.
\<close>

fun agent_answers :: "(agent_body \<Rightarrow> string) \<Rightarrow> agent_response \<Rightarrow> agent_answer" where
  "agent_answers enc (code, AData d) = Answer code [(''Content-Type'', ''application/octet-stream'')] d"
| "agent_answers enc (code, b) = Answer code [(''Content-Type'', ''application/json'')] (enc b)"

definition guest_files :: "env \<Rightarrow> (agent_body \<Rightarrow> string) \<Rightarrow> (agent_request \<Rightarrow> agent_answer) \<Rightarrow> agent_request \<Rightarrow> host
    \<Rightarrow> agent_answer \<times> host" where
  "guest_files G enc other ar g =
     (case agent_receives ar of
        Some (AReadFile, q) \<Rightarrow> map_prod (agent_answers enc) id (run_state (handleReadFile G (query_get q ''path'')) g)
      | Some (AWriteFile, q) \<Rightarrow>
          map_prod (agent_answers enc) id (run_state (handleWriteFile G (query_get q ''path'') (ar_body ar)) g)
      | _ \<Rightarrow> (other ar, g))"

text \<open>
  What is relied on of the guest's file system: a file that was written can be opened, is no
  directory and reads as what was last written to it.
\<close>

definition last_copy :: "string \<Rightarrow> host_call list \<Rightarrow> string option" where
  "last_copy path = (\<lambda>h. fold (\<lambda>c acc. case c of CopyTo p d \<Rightarrow> if p = path then Some d else acc | _ \<Rightarrow> acc) h None)"

definition keeps_files :: "env \<Rightarrow> bool" where
  "keeps_files G \<longleftrightarrow> (\<forall>h path d. last_copy path h = Some d \<longrightarrow>
     r_ok (answer G h (OpenRead path)) \<and> r_ok (answer G h (IsDir path)) \<and> r_num (answer G h (IsDir path)) \<noteq> 1 \<and>
     r_out (answer G h (ReadAll path)) = d)"

lemma last_copy_append:
  "last_copy path (h @ [CopyTo path d]) = Some d"
  "(\<And>p e. c \<noteq> CopyTo p e) \<Longrightarrow> last_copy path (h @ [c]) = last_copy path h"
  by (auto simp: last_copy_def split: host_call.split)

lemma read_after:
  assumes "keeps_files G" "last_copy path (calls g) = Some d" "path \<noteq> []"
  shows "fst (run_state (handleReadFile G path) g) = (200, AData d)"
proof -
  have keep: "r_ok (answer G h (OpenRead path))" "r_ok (answer G h (IsDir path))" "r_num (answer G h (IsDir path)) \<noteq> 1"
      "r_out (answer G h (ReadAll path)) = d" if "last_copy path h = Some d" for h
    using assms(1) that by (simp_all add: keeps_files_def)
  have "last_copy path (calls g @ [OpenRead path]) = Some d"
    using assms(2) by (simp add: last_copy_append(2))
  moreover from this have "last_copy path ((calls g @ [OpenRead path]) @ [IsDir path]) = Some d"
    by (simp only: last_copy_append(2) host_call.simps not_False_eq_True simp_thms)
  ultimately show ?thesis
    using assms(2,3) keep by (simp add: handleReadFile_def)
qed

lemma write_copies:
  assumes "\<And>h c. r_ok (answer G h c)" "path \<noteq> []"
  shows "\<exists>n g'. run_state (handleWriteFile G path d) g = ((201, AWritten path n), g') \<and> last_copy path (calls g') = Some d"
  using assms last_copy_append(1) [of path "calls g @ [MkdirAll (Dir path), OpenWrite path]" d]
    last_copy_append(2) [where c = "CloseFile path" and path = path and h = "calls g @ [MkdirAll (Dir path), OpenWrite path, CopyTo path d]"]
  by (simp add: handleWriteFile_def)

lemma path_of_query: "path \<noteq> [] \<Longrightarrow> query_get [(''path'', path)] ''path'' = path"
  by (simp add: query_get_def)


text \<open>A guest whose file system does what is relied on.\<close>

definition file_guest :: env where
  "file_guest = \<lparr>temp_dir = ''/tmp'', answer = (\<lambda>h c. \<lparr>r_ok = True,
       r_out = (case c of ReadAll p \<Rightarrow> (case last_copy p h of None \<Rightarrow> [] | Some d \<Rightarrow> d) | _ \<Rightarrow> []), r_num = 0, r_ns = 0\<rparr>),
     db_faults = (\<lambda>_ _. no_faults)\<rparr>"


end
