(* ===== verification/Gateway_Api.thy ===== *)
theory Gateway_Api
  imports End_to_End
begin

text \<open>
  \<open>Serve\<close> of \<open>internal/gateway/gateway.go\<close>: the mux of the gateway, behind its token, and how
  it relates to the mux of a host. The gateway is addressed with the same client, so what
  the client asks of a sandbox must pass through to the host unchanged.
\<close>

datatype gw_handler = GRegister | GHosts | GCreate | GList | GProxy

text \<open>The patterns of the mux; the last two take every method and every subpath of a sandbox.\<close>

definition gateway_route :: "string \<Rightarrow> string list \<Rightarrow> (gw_handler \<times> string) option" where
  "gateway_route m path =
     (let get = (m = ''GET'' \<or> m = ''HEAD'') in
      case path of
        [p] \<Rightarrow>
          if p = ''register'' \<and> m = ''POST'' then Some (GRegister, [])
          else if p = ''hosts'' \<and> get then Some (GHosts, [])
          else if p = ''sandboxes'' \<and> m = ''POST'' then Some (GCreate, [])
          else if p = ''sandboxes'' \<and> get then Some (GList, [])
          else None
      | p # sid # rest \<Rightarrow> if p = ''sandboxes'' \<and> sid \<noteq> [] then Some (GProxy, sid) else None
      | [] \<Rightarrow> None)"

datatype gw_outcome = GwUnauthorized | GwNoRoute | GwHandled gw_handler string

definition gateway_serve :: "(string \<Rightarrow> 'digest) \<Rightarrow> gateway \<Rightarrow> string \<Rightarrow> string \<Rightarrow> string list \<Rightarrow> gw_outcome" where
  "gateway_serve sha256 g authorization m path =
     (if bearerAuth sha256 (gw_token g) authorization
      then (case gateway_route m path of None \<Rightarrow> GwNoRoute | Some (h, sid) \<Rightarrow> GwHandled h sid)
      else GwUnauthorized)"

lemma gateway_unauthorized:
  "inj sha256 \<Longrightarrow> gateway_serve sha256 g authorization m path = GwUnauthorized \<longleftrightarrow> authorization \<noteq> ''Bearer '' @ gw_token g"
  by (auto simp: gateway_serve_def bearerAuth_exact split: option.splits)

text \<open>The handler of the gateway that stands in for a handler of a host.\<close>

fun stands_in :: "handler \<Rightarrow> gw_handler option" where
  "stands_in HCreate = Some GCreate"
| "stands_in HList = Some GList"
| "stands_in HListSnapshots = None"
| "stands_in HRestore = None"
| "stands_in HFanout = None"
| "stands_in HDeleteSnapshot = None"
| "stands_in _ = Some GProxy"

lemma routed:
  assumes "route_request rq = Some (h, sid)"
  shows "\<exists>p \<in> set api_routes. match_route rq p = Some (h, sid)"
proof -
  obtain xs where "List.map_filter (match_route rq) api_routes = (h, sid) # xs"
    using assms by (auto simp: route_request_def split: list.splits)
  then have "(h, sid) \<in> set (List.map_filter (match_route rq) api_routes)" by simp
  then show ?thesis by (auto simp: List.map_filter_def)
qed

lemma match_path_iff:
  "match_path [] xs w = Some r \<longleftrightarrow> xs = [] \<and> r = w"
  "match_path (Lit l # ps) xs w = Some r \<longleftrightarrow> (\<exists>ys. xs = l # ys \<and> match_path ps ys w = Some r)"
  "match_path (Wild # ps) xs w = Some r \<longleftrightarrow> (\<exists>y ys. xs = y # ys \<and> y \<noteq> [] \<and> match_path ps ys (Some y) = Some r)"
  by (cases xs; auto split: if_splits)+

text \<open>
  Whatever a host does with a request for a sandbox, creating and listing included, the
  gateway takes the same request and stands in for it: it creates or lists itself and
  forwards everything else under the same identifier. The four requests about stored
  snapshots it does not know at all.
\<close>
theorem gateway_stands_in:
  assumes "route_request rq = Some (h, sid)"
  shows "gateway_route (rq_method rq) (rq_path rq) = map_option (\<lambda>g. (g, sid)) (stands_in h)"
proof -
  obtain p where "p \<in> set api_routes" "match_route rq p = Some (h, sid)" using routed [OF assms] by blast
  then show ?thesis
    by (auto simp: api_routes_def match_route_def match_path_iff gateway_route_def Let_def split: if_splits)
qed

theorem gateway_stands_in_witness:
  "gateway_route ''POST'' [''sandboxes'', ''a'', ''exec'', ''stream''] = Some (GProxy, ''a'') \<and>
   gateway_route ''POST'' [''snapshots'', ''s'', ''fanout''] = None"
proof -
  let ?rq = "\<lambda>path. get_rq\<lparr>rq_path := path\<rparr>"
  have "route_request (?rq [''sandboxes'', ''a'', ''exec'', ''stream'']) = Some (HAgent ''exec/stream'', ''a'')"
    "route_request (?rq [''snapshots'', ''s'', ''fanout'']) = Some (HFanout, ''s'')"
    by (simp_all add: route_request_def api_routes_def match_route_def List.map_filter_def get_rq_def)
  from this [THEN gateway_stands_in] show ?thesis by (simp add: get_rq_def)
qed

end
