(* ===== verification/Config.thy ===== *)
theory Config
  imports Api_Props
begin

text \<open>
  \<open>internal/config/config.go\<close> and \<open>cmd/sandbox/serve.go\<close>: decoding the configuration file,
  filling in defaults, overriding by flags, and starting the server from the result. The
  text of the file as JSON is the argument \<open>parse\<close>.
\<close>

subsection \<open>The configuration\<close>

record config =
  cf_SocketPath :: string
  cf_ListenAddr :: string
  cf_APIToken :: string
  cf_GatewayURL :: string
  cf_GatewayToken :: string
  cf_AdvertiseAddr :: string
  cf_HostID :: string
  cf_DBPath :: string
  cf_RootfsBase :: string
  cf_RootfsDir :: string
  cf_SnapshotDir :: string
  cf_Bridge :: string
  cf_GatewayIP :: string
  cf_Nameservers :: string
  cf_GuestPort :: int
  cf_Pools :: pools
  cf_FirecrackerBin :: string
  cf_KernelImage :: string
  cf_KernelArgs :: string
  cf_Vcpus :: int
  cf_MemMIB :: int

definition zero_pools :: pools where
  "zero_pools = \<lparr>TapPrefix = [], TapMax = 0, GuestIPMin = [], GuestIPMax = [], PortMin = 0, PortMax = 0\<rparr>"

definition zero_config :: config where
  "zero_config = \<lparr>cf_SocketPath = [], cf_ListenAddr = [], cf_APIToken = [], cf_GatewayURL = [], cf_GatewayToken = [],
     cf_AdvertiseAddr = [], cf_HostID = [], cf_DBPath = [], cf_RootfsBase = [], cf_RootfsDir = [], cf_SnapshotDir = [],
     cf_Bridge = [], cf_GatewayIP = [], cf_Nameservers = [], cf_GuestPort = 0, cf_Pools = zero_pools,
     cf_FirecrackerBin = [], cf_KernelImage = [], cf_KernelArgs = [], cf_Vcpus = 0, cf_MemMIB = 0\<rparr>"

definition text_or :: "string \<Rightarrow> string \<Rightarrow> string" where
  "text_or d x = (if x = [] then d else x)"

definition int_or :: "int \<Rightarrow> int \<Rightarrow> int" where
  "int_or d x = (if x = 0 then d else x)"

definition pool_defaults :: "pools \<Rightarrow> pools" where
  "pool_defaults p =
     \<lparr>TapPrefix = text_or ''fc'' (TapPrefix p), TapMax = int_or 64 (TapMax p),
      GuestIPMin = text_or ''172.16.0.10'' (GuestIPMin p), GuestIPMax = text_or ''172.16.0.73'' (GuestIPMax p),
      PortMin = int_or 5200 (PortMin p), PortMax = int_or 5263 (PortMax p)\<rparr>"

definition Defaults :: "config \<Rightarrow> config" where
  "Defaults c = c
     \<lparr>cf_SocketPath := text_or ''/run/sandbox.sock'' (cf_SocketPath c),
      cf_DBPath := text_or ''/var/lib/sandbox/registry.db'' (cf_DBPath c),
      cf_RootfsBase := text_or ''/opt/fc/devbox-rootfs.ext4'' (cf_RootfsBase c),
      cf_RootfsDir := text_or ''/var/lib/sandbox/rootfs'' (cf_RootfsDir c),
      cf_SnapshotDir := text_or ''/var/lib/sandbox/snapshots'' (cf_SnapshotDir c),
      cf_Bridge := text_or ''br-fc'' (cf_Bridge c),
      cf_GatewayIP := text_or ''172.16.0.1'' (cf_GatewayIP c),
      cf_Nameservers := text_or ''8.8.8.8'' (cf_Nameservers c),
      cf_GuestPort := int_or 3000 (cf_GuestPort c),
      cf_KernelArgs := text_or ''reboot=k panic=1 pci=off root=/dev/vda rw console=ttyS0'' (cf_KernelArgs c),
      cf_Vcpus := int_or 2 (cf_Vcpus c),
      cf_MemMIB := int_or 1024 (cf_MemMIB c),
      cf_FirecrackerBin := text_or ''/usr/local/bin/firecracker'' (cf_FirecrackerBin c),
      cf_KernelImage := text_or ''/opt/fc/vmlinux'' (cf_KernelImage c),
      cf_Pools := pool_defaults (cf_Pools c)\<rparr>"

subsection \<open>Decoding\<close>

text \<open>
  Names match without regard to (ASCII) case, \<open>null\<close> leaves a field alone, a value of
  another type, an integer outside 64 bits or an unknown name is an error.
\<close>

fun decode_text :: "json \<Rightarrow> string \<Rightarrow> string option" where
  "decode_text (JStr v) x = Some v"
| "decode_text JNull x = Some x"
| "decode_text _ x = None"

fun decode_int :: "json \<Rightarrow> int \<Rightarrow> int option" where
  "decode_int (JNum n) x = (if - (2 ^ 63) \<le> n \<and> n < 2 ^ 63 then Some n else None)"
| "decode_int JNull x = Some x"
| "decode_int _ x = None"

fun decode_fields :: "(string \<Rightarrow> (json \<Rightarrow> 'r \<Rightarrow> 'r option) option) \<Rightarrow> (string \<times> json) list \<Rightarrow> 'r \<Rightarrow> 'r option" where
  "decode_fields f [] x = Some x"
| "decode_fields f ((k, v) # kvs) x =
     (case f (ToLower k) of
        None \<Rightarrow> None
      | Some g \<Rightarrow> (case g v x of None \<Rightarrow> None | Some y \<Rightarrow> decode_fields f kvs y))"

fun decode_object :: "(string \<Rightarrow> (json \<Rightarrow> 'r \<Rightarrow> 'r option) option) \<Rightarrow> json \<Rightarrow> 'r \<Rightarrow> 'r option" where
  "decode_object f (JObj kvs) x = decode_fields f kvs x"
| "decode_object f JNull x = Some x"
| "decode_object f _ x = None"

definition pool_fields :: "(string \<times> (json \<Rightarrow> pools \<Rightarrow> pools option)) list" where
  "pool_fields =
     [(''tapprefix'', \<lambda>v p. map_option (\<lambda>x. p\<lparr>TapPrefix := x\<rparr>) (decode_text v (TapPrefix p))),
      (''tapmax'', \<lambda>v p. map_option (\<lambda>x. p\<lparr>TapMax := x\<rparr>) (decode_int v (TapMax p))),
      (''guestipmin'', \<lambda>v p. map_option (\<lambda>x. p\<lparr>GuestIPMin := x\<rparr>) (decode_text v (GuestIPMin p))),
      (''guestipmax'', \<lambda>v p. map_option (\<lambda>x. p\<lparr>GuestIPMax := x\<rparr>) (decode_text v (GuestIPMax p))),
      (''portmin'', \<lambda>v p. map_option (\<lambda>x. p\<lparr>PortMin := x\<rparr>) (decode_int v (PortMin p))),
      (''portmax'', \<lambda>v p. map_option (\<lambda>x. p\<lparr>PortMax := x\<rparr>) (decode_int v (PortMax p)))]"

definition config_fields :: "(string \<times> (json \<Rightarrow> config \<Rightarrow> config option)) list" where
  "config_fields =
     [(''socket_path'', \<lambda>v c. map_option (\<lambda>x. c\<lparr>cf_SocketPath := x\<rparr>) (decode_text v (cf_SocketPath c))),
      (''listen_addr'', \<lambda>v c. map_option (\<lambda>x. c\<lparr>cf_ListenAddr := x\<rparr>) (decode_text v (cf_ListenAddr c))),
      (''api_token'', \<lambda>v c. map_option (\<lambda>x. c\<lparr>cf_APIToken := x\<rparr>) (decode_text v (cf_APIToken c))),
      (''gateway_url'', \<lambda>v c. map_option (\<lambda>x. c\<lparr>cf_GatewayURL := x\<rparr>) (decode_text v (cf_GatewayURL c))),
      (''gateway_token'', \<lambda>v c. map_option (\<lambda>x. c\<lparr>cf_GatewayToken := x\<rparr>) (decode_text v (cf_GatewayToken c))),
      (''advertise_addr'', \<lambda>v c. map_option (\<lambda>x. c\<lparr>cf_AdvertiseAddr := x\<rparr>) (decode_text v (cf_AdvertiseAddr c))),
      (''host_id'', \<lambda>v c. map_option (\<lambda>x. c\<lparr>cf_HostID := x\<rparr>) (decode_text v (cf_HostID c))),
      (''db_path'', \<lambda>v c. map_option (\<lambda>x. c\<lparr>cf_DBPath := x\<rparr>) (decode_text v (cf_DBPath c))),
      (''rootfs_base'', \<lambda>v c. map_option (\<lambda>x. c\<lparr>cf_RootfsBase := x\<rparr>) (decode_text v (cf_RootfsBase c))),
      (''rootfs_dir'', \<lambda>v c. map_option (\<lambda>x. c\<lparr>cf_RootfsDir := x\<rparr>) (decode_text v (cf_RootfsDir c))),
      (''snapshot_dir'', \<lambda>v c. map_option (\<lambda>x. c\<lparr>cf_SnapshotDir := x\<rparr>) (decode_text v (cf_SnapshotDir c))),
      (''bridge'', \<lambda>v c. map_option (\<lambda>x. c\<lparr>cf_Bridge := x\<rparr>) (decode_text v (cf_Bridge c))),
      (''gateway_ip'', \<lambda>v c. map_option (\<lambda>x. c\<lparr>cf_GatewayIP := x\<rparr>) (decode_text v (cf_GatewayIP c))),
      (''nameservers'', \<lambda>v c. map_option (\<lambda>x. c\<lparr>cf_Nameservers := x\<rparr>) (decode_text v (cf_Nameservers c))),
      (''guest_port'', \<lambda>v c. map_option (\<lambda>x. c\<lparr>cf_GuestPort := x\<rparr>) (decode_int v (cf_GuestPort c))),
      (''pools'', \<lambda>v c. map_option (\<lambda>x. c\<lparr>cf_Pools := x\<rparr>) (decode_object (map_of pool_fields) v (cf_Pools c))),
      (''firecracker_bin'', \<lambda>v c. map_option (\<lambda>x. c\<lparr>cf_FirecrackerBin := x\<rparr>) (decode_text v (cf_FirecrackerBin c))),
      (''kernel_image'', \<lambda>v c. map_option (\<lambda>x. c\<lparr>cf_KernelImage := x\<rparr>) (decode_text v (cf_KernelImage c))),
      (''kernel_args'', \<lambda>v c. map_option (\<lambda>x. c\<lparr>cf_KernelArgs := x\<rparr>) (decode_text v (cf_KernelArgs c))),
      (''vcpus'', \<lambda>v c. map_option (\<lambda>x. c\<lparr>cf_Vcpus := x\<rparr>) (decode_int v (cf_Vcpus c))),
      (''mem_mib'', \<lambda>v c. map_option (\<lambda>x. c\<lparr>cf_MemMIB := x\<rparr>) (decode_int v (cf_MemMIB c)))]"

datatype load_error = LoadRead string | LoadDecode string

definition Load :: "env \<Rightarrow> (string \<Rightarrow> json option) \<Rightarrow> string \<Rightarrow> ('z, (load_error, config) result) action" where
  "Load E parse path = do {
     b \<leftarrow> call E (ReadFile path);
     return (if \<not> r_ok b then Inl (LoadRead path)
       else (case parse (r_out b) of
          None \<Rightarrow> Inl (LoadDecode path)
        | Some j \<Rightarrow> (case decode_object (map_of config_fields) j zero_config of
             None \<Rightarrow> Inl (LoadDecode path)
           | Some c \<Rightarrow> Inr (Defaults c))))
   }"

subsection \<open>Starting the server\<close>

record serve_flags =
  fl_config :: string
  fl_listen :: string
  fl_token :: string
  fl_gateway :: string
  fl_gateway_token :: string
  fl_advertise :: string
  fl_host_id :: string

definition override :: "serve_flags \<Rightarrow> config \<Rightarrow> config" where
  "override f c = c
     \<lparr>cf_ListenAddr := text_or (cf_ListenAddr c) (fl_listen f),
      cf_APIToken := text_or (cf_APIToken c) (fl_token f),
      cf_GatewayURL := text_or (cf_GatewayURL c) (fl_gateway f),
      cf_GatewayToken := text_or (cf_GatewayToken c) (fl_gateway_token f),
      cf_AdvertiseAddr := text_or (cf_AdvertiseAddr c) (fl_advertise f),
      cf_HostID := text_or (cf_HostID c) (fl_host_id f)\<rparr>"

definition provisioner_of :: "config \<Rightarrow> provisioner" where
  "provisioner_of c =
     \<lparr>Network = \<lparr>Bridge = cf_Bridge c, GatewayCIDR = cf_GatewayIP c @ ''/24'', GuestPort = cf_GuestPort c\<rparr>,
      RootfsBase = cf_RootfsBase c, RootfsDir = cf_RootfsDir c, SnapshotDir = cf_SnapshotDir c\<rparr>"

definition template_of :: "config \<Rightarrow> run_options" where
  "template_of c =
     \<lparr>FirecrackerBin = cf_FirecrackerBin c, SocketPath = [], KernelImage = cf_KernelImage c, RootfsPath = [],
      KernelArgs = cf_KernelArgs c, Vcpus = cf_Vcpus c, MemMIB = cf_MemMIB c, LogDir = [], TapDevice = [],
      MacAddress = [], GuestCIDR = [], GatewayIP = [], Nameservers = cf_Nameservers c\<rparr>"

definition server_config_of :: "config \<Rightarrow> server_config" where
  "server_config_of c =
     \<lparr>ServerSocketPath = cf_SocketPath c, Prov = provisioner_of c, ServerGatewayIP = cf_GatewayIP c,
      VMTemplate = template_of c, RegPools = cf_Pools c, ListenAddr = cf_ListenAddr c, APIToken = cf_APIToken c,
      GatewayURL = cf_GatewayURL c, GatewayToken = cf_GatewayToken c, AdvertiseAddr = cf_AdvertiseAddr c,
      HostID = cf_HostID c\<rparr>"

datatype run_error = RunLoad load_error | RunNeedsListen | RunOpenRegistry | RunNetwork host_error | RunServe serve_error

definition runServe :: "env \<Rightarrow> (string \<Rightarrow> json option) \<Rightarrow> serve_flags \<Rightarrow> (agent_request \<Rightarrow> agent_answer) \<Rightarrow> server_event list
    \<Rightarrow> (run_error, unit) result server_action" where
  "runServe E parse f agent evs = do {
     r \<leftarrow> Load E parse (fl_config f);
     (case r of
        Inl e \<Rightarrow> return (Inl (RunLoad e))
      | Inr c \<Rightarrow>
          let c = override f c in
          if cf_GatewayURL c \<noteq> [] \<and> cf_ListenAddr c = [] then return (Inl RunNeedsListen)
          else do {
            db \<leftarrow> call E (OpenDb (cf_DBPath c));
            if \<not> r_ok db then return (Inl RunOpenRegistry)
            else do {
              n \<leftarrow> EnsureNetwork E (provisioner_of c);
              (case n of
                 Inl e \<Rightarrow> return (Inl (RunNetwork e))
               | Inr _ \<Rightarrow> do {
                   l \<leftarrow> server_life E (server_config_of c) agent evs;
                   return (case l of Inl e \<Rightarrow> Inl (RunServe e) | Inr _ \<Rightarrow> Inr ())
                 })
            }
          })
   }"

end
