(* ===== verification/Config_Props.thy ===== *)
theory Config_Props
  imports Config
begin

text \<open>
  What a configuration guarantees: defaults fill in only what is absent, a misspelt name is
  refused, a gateway without a listener is refused before anything is touched, and the
  default configuration is one a host can run with.
\<close>

subsection \<open>Defaults\<close>

lemma text_or_simps [simp]: "text_or d [] = d" "x \<noteq> [] \<Longrightarrow> text_or d x = x" "d \<noteq> [] \<Longrightarrow> text_or d x \<noteq> []"
  by (simp_all add: text_or_def)

lemma int_or_simps [simp]: "int_or d 0 = d" "x \<noteq> 0 \<Longrightarrow> int_or d x = x" "d \<noteq> 0 \<Longrightarrow> int_or d x \<noteq> 0"
  by (simp_all add: int_or_def)

lemma Defaults_idem: "Defaults (Defaults c) = Defaults c"
  by (simp add: Defaults_def pool_defaults_def)

text \<open>A configuration with nothing absent that the server needs.\<close>

definition complete :: "config \<Rightarrow> bool" where
  "complete c \<longleftrightarrow> cf_SocketPath c \<noteq> [] \<and> cf_DBPath c \<noteq> [] \<and> cf_RootfsBase c \<noteq> [] \<and> cf_RootfsDir c \<noteq> [] \<and>
     cf_SnapshotDir c \<noteq> [] \<and> cf_Bridge c \<noteq> [] \<and> cf_GatewayIP c \<noteq> [] \<and> cf_Nameservers c \<noteq> [] \<and> cf_GuestPort c \<noteq> 0 \<and>
     cf_KernelArgs c \<noteq> [] \<and> cf_Vcpus c \<noteq> 0 \<and> cf_MemMIB c \<noteq> 0 \<and> cf_FirecrackerBin c \<noteq> [] \<and> cf_KernelImage c \<noteq> [] \<and>
     pool_defaults (cf_Pools c) = cf_Pools c"

lemma Defaults_complete: "complete (Defaults c)"
  by (simp add: complete_def Defaults_def pool_defaults_def)

lemma Defaults_id: "complete c \<Longrightarrow> Defaults c = c"
  by (simp add: complete_def Defaults_def)

subsection \<open>Decoding\<close>

lemma decode_unknown:
  assumes "\<exists>(k, v) \<in> set kvs. f (ToLower k) = None"
  shows "decode_fields f kvs x = None"
  using assms by (induction f kvs x rule: decode_fields.induct) (auto split: option.splits)

lemma decode_object_known: "decode_object f (JObj kvs) x = Some y \<Longrightarrow> (k, v) \<in> set kvs \<Longrightarrow> f (ToLower k) \<noteq> None"
  using decode_unknown [of kvs f x] by force

lemma Load_cases:
  "run_state (Load E parse path) s = (r, t) \<Longrightarrow> t = s\<lparr>calls := calls s @ [ReadFile path]\<rparr> \<and>
     (\<forall>c. r = Inr c \<longrightarrow> (\<exists>j c0. r_ok (answer E (calls s) (ReadFile path)) \<and>
        parse (r_out (answer E (calls s) (ReadFile path))) = Some j \<and>
        decode_object (map_of config_fields) j zero_config = Some c0 \<and> c = Defaults c0))"
  by (auto simp: Load_def split: option.splits if_splits)

text \<open>
  C39: A configuration file that loads has no name the program does not know, and everything
  the server needs is set; filling in defaults again changes nothing.
\<close>
theorem Load_complete:
  assumes "run_state (Load E parse path) s = (Inr c, t)"
    and "parse (r_out (answer E (calls s) (ReadFile path))) = Some (JObj kvs)"
  shows "complete c \<and> Defaults c = c \<and> (\<forall>(k, v) \<in> set kvs. ToLower k \<in> fst ` set config_fields)"
proof -
  obtain c0 where c0: "decode_object (map_of config_fields) (JObj kvs) zero_config = Some c0" "c = Defaults c0"
    using Load_cases [OF assms(1)] assms(2) by auto
  have "ToLower k \<in> fst ` set config_fields" if "(k, v) \<in> set kvs" for k v
    using decode_object_known [OF c0(1) that] by (simp add: map_of_eq_None_iff)
  then show ?thesis
    using c0(2) Defaults_complete Defaults_id by auto
qed

definition no_flags :: "string \<Rightarrow> serve_flags" where
  "no_flags path = \<lparr>fl_config = path, fl_listen = [], fl_token = [], fl_gateway = [], fl_gateway_token = [],
     fl_advertise = [], fl_host_id = []\<rparr>"

lemma no_override: "override (no_flags path) c = c"
  by (simp add: override_def no_flags_def)

theorem Load_complete_witness:
  "\<exists>c t. run_state (Load sunny (\<lambda>_. Some (JObj [(''Vcpus'', JNum 4), (''pools'', JObj [(''TapMax'', JNum 8)])])) ''c.json'') server0 =
       (Inr c, t) \<and> complete c \<and> cf_Vcpus c = 4 \<and> TapMax (cf_Pools c) = 8 \<and> PortMin (cf_Pools c) = 5200"
proof -
  let ?p = "\<lambda>_. Some (JObj [(''Vcpus'', JNum 4), (''pools'', JObj [(''TapMax'', JNum 8)])])"
  let ?c = "Defaults (zero_config\<lparr>cf_Vcpus := 4, cf_Pools := zero_pools\<lparr>TapMax := 8\<rparr>\<rparr>)"
  have "ToLower ''Vcpus'' = ''vcpus''" "ToLower ''pools'' = ''pools''" "ToLower ''TapMax'' = ''tapmax''" by code_simp+
  then have run: "run_state (Load sunny ?p ''c.json'') server0 = (Inr ?c, server0\<lparr>calls := calls server0 @ [ReadFile ''c.json'']\<rparr>)"
    by (simp add: Load_def sunny_def config_fields_def pool_fields_def zero_config_def)
  from Load_complete [OF this refl] run show ?thesis
    by (auto simp: Defaults_def pool_defaults_def zero_pools_def)
qed

subsection \<open>Refused before anything is touched\<close>

text \<open>
  A server that is to register with a gateway but has no TCP address to be dialled back
  on is refused: only the configuration file has been read, no command was issued and the
  registry was not opened.
\<close>
theorem runServe_gateway_needs_listen:
  assumes "run_state (Load E parse (fl_config f)) s = (Inr c, u)"
    and "fl_gateway f \<noteq> [] \<or> cf_GatewayURL c \<noteq> []" "fl_listen f = []" "cf_ListenAddr c = []"
  shows "run_state (runServe E parse f agent evs) s =
    (Inl RunNeedsListen, s\<lparr>calls := calls s @ [ReadFile (fl_config f)]\<rparr>)"
  using assms Load_cases [OF assms(1)]
  by (auto simp: runServe_def override_def text_or_def)

lemma load_empty:
  assumes "r_ok (answer E (calls s) (ReadFile path))" "\<And>txt. parse txt = Some (JObj [])"
  shows "run_state (Load E parse path) s = (Inr (Defaults zero_config), s\<lparr>calls := calls s @ [ReadFile path]\<rparr>)"
  using assms by (simp add: Load_def)

theorem runServe_gateway_needs_listen_witness:
  "run_state (runServe sunny (\<lambda>_. Some (JObj [])) ((no_flags ''c.json'')\<lparr>fl_gateway := ''http://gw:9090''\<rparr>) (\<lambda>_. Unreachable) []) server0 =
     (Inl RunNeedsListen, server0\<lparr>calls := [ReadFile ''c.json'']\<rparr>)"
proof -
  have "r_ok (answer sunny (calls server0) (ReadFile ''c.json''))" by (simp add: sunny_def)
  from load_empty [OF this, of "\<lambda>_. Some (JObj [])"]
  have "run_state (Load sunny (\<lambda>_. Some (JObj [])) (fl_config ((no_flags ''c.json'')\<lparr>fl_gateway := ''http://gw:9090''\<rparr>))) server0 =
      (Inr (Defaults zero_config), server0\<lparr>calls := calls server0 @ [ReadFile ''c.json'']\<rparr>)"
    by (simp add: no_flags_def)
  from runServe_gateway_needs_listen [OF this] show ?thesis
    by (simp add: no_flags_def Defaults_def zero_config_def server0_def)
qed

subsection \<open>The default configuration\<close>

definition default_cfg :: server_config where
  "default_cfg = server_config_of (Defaults zero_config)"

lemma default_pools: "RegPools default_cfg = \<lparr>TapPrefix = ''fc'', TapMax = 64, GuestIPMin = ''172.16.0.10'',
    GuestIPMax = ''172.16.0.73'', PortMin = 5200, PortMax = 5263\<rparr>"
  by (simp add: default_cfg_def server_config_of_def Defaults_def pool_defaults_def zero_config_def zero_pools_def)

lemma default_range: "ip_range (RegPools default_cfg) = Some (0xAC10000A, 0xAC100049)"
proof -
  have "ipToUint32 ''172.16.0.73'' = Inr 0xAC100049"
    by (simp add: ipToUint32_def ParseIP_def To4_def is_digit_def digit_val_def nth_append)
  then show ?thesis by (simp add: default_pools)
qed

lemma default_capacity: "Slots (RegPools default_cfg) = 64" "length (port_slots (RegPools default_cfg)) = 64"
  using Slots_range [OF default_range] by (simp_all add: default_pools tap_slots_def port_slots_def)

lemma default_fields:
  "ListenAddr default_cfg = []" "ParseIP (ServerGatewayIP default_cfg) \<noteq> None"
  "subnet_of (GatewayCIDR (Network (provisioner_of (Defaults zero_config)))) \<noteq> None"
proof -
  show "ListenAddr default_cfg = []" "ParseIP (ServerGatewayIP default_cfg) \<noteq> None"
    using parse_gateway by (auto simp: default_cfg_def server_config_of_def Defaults_def zero_config_def)
  obtain ip where ip: "ParseIP ''172.16.0.1'' = Some ip" using parse_gateway by blast
  have "split_at slash ''172.16.0.1/24'' = [''172.16.0.1'', ''24'']" "dtoi 0 0 ''24'' = Some (24, [])"
    by (simp_all add: slash_def is_digit_def digit_val_def)
  then have "subnet_of ''172.16.0.1/24'' \<noteq> None"
    by (simp add: subnet_of_def ParseCIDR_def ip)
  then show "subnet_of (GatewayCIDR (Network (provisioner_of (Defaults zero_config)))) \<noteq> None"
    by (simp add: provisioner_of_def Defaults_def zero_config_def)
qed

text \<open>A host with a default route, as \<open>ip route\<close> reports it.\<close>

definition has_default_route :: "env \<Rightarrow> bool" where
  "has_default_route E \<longleftrightarrow>
     (\<forall>h. after_dev (Fields (r_out (answer E h (Cmd [''ip'', ''route'', ''show'', ''default''])))) \<noteq> None)"

lemma iptables_well: "all_well E \<Longrightarrow> gives (ensureIptablesRule E rule) (\<lambda>r. r = Inr ())"
  by (simp add: gives_def ensureIptablesRule_def wp)

lemma each_ok:
  assumes "\<And>x. gives (f x) (\<lambda>r. r = Inr ())"
  shows "gives (each_until_error f xs) (\<lambda>r. r = Inr ())"
proof (induction xs)
  case (Cons x xs)
  have "wp (each_until_error f (x # xs)) (\<lambda>r t. r = Inr () \<and> reg_db t = reg_db s \<and> machines t = machines s) s" for s
    unfolding each_until_error.simps wp
    by (rule gives_wp [OF assms], simp, rule wp_conseq [OF Cons.IH [unfolded gives_def, rule_format]]) auto
  then show ?case by (simp add: gives_def)
qed (simp add: gives_def wp)

lemma run_cmd_well: "all_well E \<Longrightarrow> gives (run_cmd E args) (\<lambda>r. r = Inr ())"
  by (simp add: gives_def steps_well)

lemma EnsureNetwork_well:
  assumes "all_well E" "has_default_route E" "subnet_of (GatewayCIDR (Network p)) \<noteq> None"
  shows "gives (EnsureNetwork E p) (\<lambda>r. r = Inr ())"
proof -
  obtain subnet where subnet: "subnet_of (GatewayCIDR (Network p)) = Some subnet" using assms(3) by blast
  have route: "gives (defaultInterface E) (\<lambda>r. \<exists>i. r = Inr i)"
    using assms(1,2) by (auto simp: gives_def defaultInterface_def wp has_default_route_def split: option.split)
  have bridge: "gives (ensureBridge E n) (\<lambda>r. r = Inr ())" for n
    using assms(1) by (simp add: gives_def ensureBridge_def wp)
  show ?thesis
    unfolding gives_def EnsureNetwork_def Let_def subnet option.case wp
    by (intro allI, rule gives_wp [OF bridge], simp,
        rule gives_wp [OF each_ok [OF run_cmd_well [OF assms(1)]]], simp,
        rule gives_wp [OF route], clarsimp,
        rule gives_wp [OF each_ok [OF iptables_well [OF assms(1)]]], simp)
qed

lemma reconcile_cleared:
  assumes "all_well E" "registry_ok (reg_db s)"
  shows "wp (reconcile E cfg)
    (\<lambda>_ t. reg_db t = (reg_db s)\<lparr>sandboxes := [], sandbox_ports := []\<rparr> \<and> machines t = machines s) s"
  by (rule wpI) (simp add: reconcile_clear [OF assms(2) all_well_cleanup [OF assms(1)]] assms(1))

lemma start_well:
  assumes "all_well E" "registry_ok (reg_db s)" "ListenAddr cfg = []"
  shows "wp (serve_start E cfg)
    (\<lambda>r t. r = Inr False \<and> reg_db t = (reg_db s)\<lparr>sandboxes := [], sandbox_ports := []\<rparr> \<and> machines t = machines s) s"
  unfolding serve_start_def wp
  by (rule wp_conseq [OF reconcile_cleared [OF assms(1,2)]]) (simp add: assms(1,3))

lemma boot_well:
  assumes "all_well E" "has_default_route E" "registry_ok (reg_db s)" "\<And>txt. parse txt = Some (JObj [])"
  shows "wp (runServe E parse (no_flags path) agent [])
    (\<lambda>r t. r = Inr () \<and> reg_db t = (reg_db s)\<lparr>sandboxes := [], sandbox_ports := []\<rparr> \<and> machines t = machines s) s"
proof -
  let ?post = "\<lambda>t :: server. reg_db t = (reg_db s)\<lparr>sandboxes := [], sandbox_ports := []\<rparr> \<and> machines t = machines s"
  have life: "wp (server_life E default_cfg agent []) (\<lambda>r t. r = Inr () \<and> ?post t) u"
    if "reg_db u = reg_db s" "machines u = machines s" for u
    unfolding server_life_def wp
    by (rule wp_conseq [OF start_well [of E u default_cfg]]) (use assms(1,3) that default_fields(1) in \<open>auto simp: wp\<close>)
  have loaded: "run_state (Load E parse path) s = (Inr (Defaults zero_config), s\<lparr>calls := calls s @ [ReadFile path]\<rparr>)"
    by (rule load_empty) (use assms(1,4) in simp_all)
  have fl: "fl_config (no_flags path) = path" by (simp add: no_flags_def)
  have wp_eq: "run_state m u = (a, v) \<Longrightarrow> wp m Q u = Q a v" for m :: "'a server_action" and Q u a v
    by (simp add: wp_def)
  have no_gateway: "cf_GatewayURL (Defaults zero_config) = []" by (simp add: Defaults_def zero_config_def)
  show ?thesis
    unfolding runServe_def Let_def fl wp wp_eq [OF loaded]
    by (simp add: no_override wp assms(1) default_cfg_def [symmetric] no_gateway,
        rule gives_wp [OF EnsureNetwork_well [OF assms(1,2) default_fields(3)]],
        simp, rule wp_conseq [OF life]) auto
qed

text \<open>
  C22: A host with a default route whose configuration file is an empty object and on which
  no call fails starts: the network is set up, what the previous run left behind is cleared,
  the capacity is 64, and the first sandbox asked for, with any accepted timeout, is created.
\<close>
theorem default_boot_creates:
  assumes "all_well E" "has_default_route E" "registry_ok (reg_db s)" "\<And>txt. parse txt = Some (JObj [])"
    and "timeout_of rb = Inr n"
  shows "\<exists>t b u. run_state (runServe E parse (no_flags path) agent []) s = (Inr (), t) \<and>
    sandboxes (reg_db t) = [] \<and> Slots (RegPools default_cfg) = 64 \<and>
    run_state (handleCreate E default_cfg rb) t = ((201, b), u)"
proof -
  obtain r t where run: "run_state (runServe E parse (no_flags path) agent []) s = (r, t)" by (metis prod.exhaust)
  from wp_run [OF run boot_well [OF assms(1-4)]]
  have t: "r = Inr ()" "reg_db t = (reg_db s)\<lparr>sandboxes := [], sandbox_ports := []\<rparr>" by simp_all
  have ok: "registry_ok (reg_db t)" using assms(3) t(2) by (simp add: registry_ok_def code_ok_def schema_ok_def)
  obtain code b u where create: "run_state (handleCreate E default_cfg rb) t = ((code, b), u)" by (metis prod.exhaust)
  have "code = 201"
    using wp_run [OF create create_well [OF assms(1) ok assms(5) default_range]] default_capacity default_fields(2)
    by (simp add: t(2) find_sandbox_def)
  with run create t default_capacity show ?thesis by simp
qed

text \<open>The host of the witness: all calls succeed and \<open>ip route\<close> prints a default route.\<close>

definition routed :: env where
  "routed = sunny\<lparr>answer := (\<lambda>h c. (answer sunny h c)
     \<lparr>r_out := (if c = Cmd [''ip'', ''route'', ''show'', ''default''] then ''default via 10.0.0.1 dev eth0 '' else dec (length h))\<rparr>)\<rparr>"

theorem default_boot_creates_witness:
  "\<exists>t b u. run_state (runServe routed (\<lambda>_. Some (JObj [])) (no_flags ''c.json'') (\<lambda>_. Unreachable) []) server_a = (Inr (), t) \<and>
    sandboxes (reg_db t) = [] \<and> run_state (handleCreate routed default_cfg (Decoded 60)) t = ((201, b), u)"
proof -
  have "all_well routed"
    using sunny_well unfolding all_well_def by (simp add: routed_def db_reliable_def)
  moreover have "after_dev (Fields ''default via 10.0.0.1 dev eth0 '') = Some ''eth0''" by code_simp
  then have "has_default_route routed"
    by (simp add: has_default_route_def routed_def)
  moreover have "registry_ok (reg_db server_a)" by (simp add: server_a_def db_a_ok)
  ultimately show ?thesis
    using default_boot_creates [of routed server_a "\<lambda>_. Some (JObj [])" "Decoded 60" 60 "''c.json''" "\<lambda>_. Unreachable"]
    by (simp add: timeout_of_def) blast
qed

end
