(* ===== verification/Cli.thy ===== *)
theory Cli
  imports Gateway_Api Config_Props
begin

text \<open>
  \<open>cmd/sandbox\<close>: the commands with logic of their own. Choosing whom the client talks to
  (\<open>helpers.go\<close>), \<open>exec\<close>, \<open>stop-server\<close>, \<open>gateway\<close>, \<open>install-agent\<close> and \<open>doctor\<close>. What a
  command prints is left out except where it is the result.
\<close>

subsection \<open>Whom the client talks to\<close>

definition TrimPrefix :: "string \<Rightarrow> string \<Rightarrow> string" where
  "TrimPrefix p s = (if prefix p s then drop (length p) s else s)"

definition TrimSuffix :: "string \<Rightarrow> string \<Rightarrow> string" where
  "TrimSuffix p s = (if suffix p s then take (length s - length p) s else s)"

definition stripScheme :: "string \<Rightarrow> string" where
  "stripScheme s = TrimSuffix ''/'' (TrimPrefix ''https://'' (TrimPrefix ''http://'' s))"

text \<open>A client: over a Unix socket, or to a base URL with a token.\<close>

datatype client_target = UnixSocket string | BaseURL string string

definition NewHTTP :: "string \<Rightarrow> string \<Rightarrow> client_target" where
  "NewHTTP addr token = BaseURL (''http://'' @ addr) token"

record client_flags =
  cl_config :: string
  cl_socket :: string
  cl_gateway :: string
  cl_gateway_token :: string

definition dialClient :: "env \<Rightarrow> (string \<Rightarrow> json option) \<Rightarrow> client_flags
    \<Rightarrow> ('z, (load_error, config \<times> client_target) result) action" where
  "dialClient E parse f = do {
     r \<leftarrow> Load E parse (cl_config f);
     return (case r of
       Inl e \<Rightarrow> Inl e
     | Inr cfg \<Rightarrow>
         if cl_gateway f \<noteq> [] then
           Inr (cfg, NewHTTP (stripScheme (cl_gateway f)) (text_or (cf_GatewayToken cfg) (cl_gateway_token f)))
         else Inr (cfg, UnixSocket (text_or (cf_SocketPath cfg) (cl_socket f))))
   }"

lemma strip_https:
  assumes "a \<noteq> []" "last a \<noteq> CHR ''/''"
  shows "stripScheme (''https://'' @ a) = a"
proof -
  have "\<not> suffix ''/'' a" using assms by (auto simp: suffix_def)
  then show ?thesis by (simp add: stripScheme_def TrimPrefix_def TrimSuffix_def)
qed

text \<open>
  A gateway named with an https URL is dialled over plain HTTP, with the bearer token: the
  scheme is cut off and the client puts http in its place.
\<close>
theorem dialClient_drops_https:
  assumes "run_state (Load E parse (cl_config f)) s = (Inr cfg, u)"
    and "cl_gateway f = ''https://'' @ a" "a \<noteq> []" "last a \<noteq> CHR ''/''"
  shows "run_state (dialClient E parse f) s =
    (Inr (cfg, BaseURL (''http://'' @ a) (text_or (cf_GatewayToken cfg) (cl_gateway_token f))), u)"
  using assms strip_https [OF assms(3,4)] by (simp add: dialClient_def NewHTTP_def)

theorem dialClient_drops_https_witness:
  "\<exists>cfg u. run_state (dialClient sunny (\<lambda>_. Some (JObj [])) \<lparr>cl_config = ''c.json'', cl_socket = [],
     cl_gateway = ''https://gw.example:443'', cl_gateway_token = ''secret''\<rparr>) server0 =
     (Inr (cfg, BaseURL ''http://gw.example:443'' ''secret''), u)"
proof -
  let ?f = "\<lparr>cl_config = ''c.json'', cl_socket = [], cl_gateway = ''https://gw.example:443'', cl_gateway_token = ''secret''\<rparr>"
  have "r_ok (answer sunny (calls server0) (ReadFile ''c.json''))" by (simp add: sunny_def)
  from load_empty [OF this, of "\<lambda>_. Some (JObj [])"] dialClient_drops_https [of sunny "\<lambda>_. Some (JObj [])" ?f server0 _ _ "''gw.example:443''"]
  show ?thesis by (fastforce simp: text_or_def)
qed

subsection \<open>Running a command\<close>

definition exec_request_of :: "string list \<Rightarrow> string \<Rightarrow> int \<Rightarrow> exec_request" where
  "exec_request_of words cwd timeout =
     \<lparr>er_Cmd = join_with '' '' words, er_Cwd = cwd, er_Env = [], er_TimeoutSec = timeout\<rparr>"

text \<open>
  What reaches the terminal: standard output, standard error, the exit code; or an error, of
  which what a broken stream had printed before is no part.
\<close>

type_synonym cli_outcome = "(client_error, string \<times> string \<times> int) result"

definition timed_out_note :: string where
  "timed_out_note = ''(command timed out)'' @ [newline]"

definition exec_exit :: "exec_result \<Rightarrow> string \<Rightarrow> string \<Rightarrow> cli_outcome" where
  "exec_exit res out err = Inr (out, err @ (if ex_TimedOut res then timed_out_note else []), ex_ExitCode res)"

definition exec_plain :: "(client_error, exec_result) result \<Rightarrow> cli_outcome" where
  "exec_plain r = (case r of Inl e \<Rightarrow> Inl e | Inr res \<Rightarrow> exec_exit res (ex_Stdout res) (ex_Stderr res))"

text \<open>Streaming prints the data of the events as they come and leaves the collected copy alone.\<close>

definition exec_streamed :: "stream_body http_body http_response \<Rightarrow> cli_outcome" where
  "exec_streamed resp =
     (let events = (case resp of Response _ _ (GoodBody (lines, _)) \<Rightarrow>
            List.map_filter (\<lambda>l. case l of EventLine ev \<Rightarrow> Some ev | _ \<Rightarrow> None) (takeWhile (\<lambda>l. l \<noteq> BadLine) lines)
          | _ \<Rightarrow> []);
          data = (\<lambda>typ. concat (map ev_Data (filter (\<lambda>ev. ev_Type ev = typ) events)))
      in case ExecStream resp of
           (_, Some e) \<Rightarrow> Inl e
         | (res, None) \<Rightarrow> exec_exit res (data EventStdout) (data EventStderr))"

lemma map_filter_events: "List.map_filter (\<lambda>l. case l of EventLine ev \<Rightarrow> Some ev | _ \<Rightarrow> None) (map (EventLine \<circ> wire_event) evs) = map wire_event evs"
  by (induction evs) (simp_all add: List.map_filter_def)

lemma printed_data:
  "concat (map ev_Data (filter (\<lambda>ev. ev_Type ev = typ) (map wire_event evs))) = data_of typ evs"
  by (induction evs) (auto simp: data_of_def wire_event_def)

lemma no_bad_line: "takeWhile (\<lambda>l. l \<noteq> BadLine) (map (EventLine \<circ> wire_event) evs) = map (EventLine \<circ> wire_event) evs"
  by (induction evs) simp_all

text \<open>For a command that \<open>agrees\<close>, the two ways of running it end the same on the terminal.\<close>

lemma exec_same_terminal:
  assumes "agrees po" "po_state po"
  shows "exec_streamed (Response 200 status (GoodBody (stream_of (stream_events sched po)))) =
    exec_plain (Inr (wire_result (exec_output po)))"
proof -
  have out: "data_of EventStdout (stream_events sched po) = concat (map coerce (po_stdout po))"
    "data_of EventStderr (stream_events sched po) = concat (map coerce (po_stderr po))"
    using stream_data [of sched "po_stdout po" "po_stderr po"]
    by (simp_all add: stream_events_def data_of_def exit_event_def)
  have printed: "exec_streamed (Response 200 status (GoodBody (stream_of evs))) =
      (case ExecStream (Response 200 status (GoodBody (stream_of evs))) of
         (_, Some e) \<Rightarrow> Inl e | (res, None) \<Rightarrow> exec_exit res (data_of EventStdout evs) (data_of EventStderr evs))" for evs
    by (simp add: exec_streamed_def stream_of_def no_bad_line map_filter_events printed_data split: prod.split option.split)
  show ?thesis
    using assms
    by (simp add: printed stream_collect out exec_plain_def exec_exit_def wire_result_def exec_output_def captured_text
        captured_def agrees_def coerce_concat coerce_valid valid_concat exit_code_def)
qed

subsection \<open>Stopping the server\<close>

text \<open>
  The processes to signal, from the names in \<open>/proc\<close>, the command line of each where it can be
  read, and the own process id.
\<close>

definition is_server :: "string list \<Rightarrow> bool" where
  "is_server argv \<longleftrightarrow> (case argv of a # b # _ \<Rightarrow> suffix ''sandbox'' a \<and> b = ''serve'' | _ \<Rightarrow> False)"

definition findServerPIDs :: "string list \<Rightarrow> (string \<Rightarrow> string option) \<Rightarrow> int \<Rightarrow> int list" where
  "findServerPIDs entries cmdline self = List.map_filter
     (\<lambda>e. case Atoi e of None \<Rightarrow> None | Some pid \<Rightarrow>
        if pid = self then None
        else (case cmdline (Join [''/proc'', e, ''cmdline'']) of None \<Rightarrow> None | Some text \<Rightarrow>
          if is_server (split_at (char_of (0::nat)) text) then Some pid else None)) entries"

text \<open>\<open>entries\<close> is None when \<open>/proc\<close> cannot be listed.\<close>

datatype stop_error = StopScan | StopKill int

definition stopServer :: "env \<Rightarrow> string list option \<Rightarrow> (string \<Rightarrow> string option) \<Rightarrow> int \<Rightarrow> bool
    \<Rightarrow> ('z, (stop_error, unit) result) action" where
  "stopServer E entries cmdline self force =
     (case entries of
        None \<Rightarrow> return (Inl StopScan)
      | Some es \<Rightarrow> each_until_error
          (\<lambda>pid. do {
             r \<leftarrow> call E (Kill pid (if force then SIGKILL else SIGTERM));
             return (if r_ok r then Inr () else Inl (StopKill pid))
           }) (findServerPIDs es cmdline self))"

lemma set_map_filter: "x \<in> set (List.map_filter f xs) \<longleftrightarrow> (\<exists>e \<in> set xs. f e = Some x)"
  by (force simp: List.map_filter_def)

lemma findServerPIDs_iff:
  "pid \<in> set (findServerPIDs entries cmdline self) \<longleftrightarrow> pid \<noteq> self \<and>
     (\<exists>e \<in> set entries. Atoi e = Some pid \<and>
        (\<exists>text. cmdline (Join [''/proc'', e, ''cmdline'']) = Some text \<and> is_server (split_at (char_of (0::nat)) text)))"
  unfolding findServerPIDs_def set_map_filter by (auto split: option.split_asm if_split_asm intro: rev_bexI)

text \<open>A run that succeeds has signalled every server but itself, and nothing else.\<close>

lemma stopServer_signals:
  assumes "run_state (stopServer E (Some entries) cmdline self force) s = (r, t)"
  shows "\<exists>k \<le> length (findServerPIDs entries cmdline self). calls t = calls s @
      map (\<lambda>pid. Kill pid (if force then SIGKILL else SIGTERM)) (take k (findServerPIDs entries cmdline self)) \<and>
    (is_ok r \<longrightarrow> k = length (findServerPIDs entries cmdline self))"
proof -
  let ?f = "\<lambda>pid. do {
      r \<leftarrow> call E (Kill pid (if force then SIGKILL else SIGTERM));
      return (if r_ok r then Inr () else Inl (StopKill pid)) }"
    and ?g = "\<lambda>pid. Kill pid (if force then SIGKILL else SIGTERM)"
  have one: "\<exists>r. run_state (?f pid) s = (r, s\<lparr>calls := calls s @ [?g pid]\<rparr>)" for pid and s :: "'a host_scheme"
    by simp
  have run: "run_state (each_until_error ?f (findServerPIDs entries cmdline self)) s = (r, t)"
    using assms unfolding stopServer_def option.case .
  from each_until_error_calls [of ?f ?g, OF one run] obtain k where
    "k \<le> length (findServerPIDs entries cmdline self)" "is_ok r \<longrightarrow> k = length (findServerPIDs entries cmdline self)"
    and t: "t = s\<lparr>calls := calls s @ map ?g (take k (findServerPIDs entries cmdline self))\<rparr>" by blast
  moreover have "calls t = calls s @ map ?g (take k (findServerPIDs entries cmdline self))"
    unfolding t by simp
  ultimately show ?thesis by blast
qed

subsection \<open>Running the gateway\<close>

datatype gateway_error = GwNeedsListen | GwNeedsToken

definition runGateway :: "string \<Rightarrow> string \<Rightarrow> int \<Rightarrow> (gateway_error, gateway) result" where
  "runGateway listen token ttl =
     (if listen = [] then Inl GwNeedsListen
      else if token = [] then Inl GwNeedsToken
      else Inr (New token ttl))"

subsection \<open>Installing the agent\<close>

definition sandboxdUnit :: string where
  "sandboxdUnit = concat (map (\<lambda>l. l @ [newline])
     [''[Unit]'', ''Description=Sandbox guest agent (exec + file API for the host)'', ''After=network.target'', [],
      ''[Service]'', ''Type=simple'', ''ExecStart=/usr/local/bin/sandboxd'', ''Restart=on-failure'', ''RestartSec=1'',
      ''Environment=HOME=/home/sandbox'', [], ''[Install]'', ''WantedBy=multi-user.target''])"

datatype install_error =
    InstallBase | InstallBinary | InstallTemp | InstallMount | InstallWrite | InstallUnit | InstallWants | InstallEnable

text \<open>What is done inside the mounted image.\<close>

definition install_files :: "env \<Rightarrow> string \<Rightarrow> string \<Rightarrow> ('z, (install_error, unit) result) action" where
  "install_files E mnt bin = do {
     a \<leftarrow> call E (WriteFile (Join [mnt, ''usr/local/bin/sandboxd'']) bin);
     if \<not> r_ok a then return (Inl InstallWrite)
     else do {
       u \<leftarrow> call E (WriteFile (Join [mnt, ''etc/systemd/system/sandboxd.service'']) sandboxdUnit);
       if \<not> r_ok u then return (Inl InstallUnit)
       else (let wants = Join [mnt, ''etc/systemd/system/multi-user.target.wants''] in do {
         d \<leftarrow> call E (MkdirAll wants);
         if \<not> r_ok d then return (Inl InstallWants)
         else do {
           _ \<leftarrow> call E (RemoveFile (Join [wants, ''sandboxd.service'']));
           l \<leftarrow> call E (Symlink ''../sandboxd.service'' (Join [wants, ''sandboxd.service'']));
           return (if r_ok l then Inr () else Inl InstallEnable)
         }
       })
     }
   }"

definition mount_cmd :: "string \<Rightarrow> string \<Rightarrow> host_call" where
  "mount_cmd rootfs mnt = Cmd [''mount'', ''-o'', ''loop'', rootfs, mnt]"

definition umount_cmd :: "string \<Rightarrow> host_call" where
  "umount_cmd mnt = Cmd [''umount'', mnt]"

text \<open>The deferred calls run in reverse order: the image is unmounted, then the directory removed.\<close>

definition installAgent :: "env \<Rightarrow> string \<Rightarrow> string \<Rightarrow> ('z, (install_error, unit) result) action" where
  "installAgent E rootfs agentBin = do {
     st \<leftarrow> call E (Stat rootfs);
     if \<not> r_ok st then return (Inl InstallBase)
     else do {
       bin \<leftarrow> call E (ReadFile agentBin);
       if \<not> r_ok bin then return (Inl InstallBinary)
       else do {
         tmp \<leftarrow> call E MkdirTemp;
         if \<not> r_ok tmp then return (Inl InstallTemp)
         else do {
           m \<leftarrow> call E (mount_cmd rootfs (r_out tmp));
           r \<leftarrow> (if \<not> r_ok m then return (Inl InstallMount)
              else do {
                r \<leftarrow> install_files E (r_out tmp) (r_out bin);
                _ \<leftarrow> call E (umount_cmd (r_out tmp));
                return r
              });
           _ \<leftarrow> call E (RemoveFile (r_out tmp));
           return r
         }
       }
     }
   }"

definition file_call :: "host_call \<Rightarrow> bool" where
  "file_call c \<longleftrightarrow> (case c of WriteFile _ _ \<Rightarrow> True | MkdirAll _ \<Rightarrow> True | RemoveFile _ \<Rightarrow> True | Symlink _ _ \<Rightarrow> True | _ \<Rightarrow> False)"

text \<open>The file operations of an installation that succeeds.\<close>

definition install_calls :: "string \<Rightarrow> string \<Rightarrow> host_call list" where
  "install_calls mnt bin = (let wants = Join [mnt, ''etc/systemd/system/multi-user.target.wants''] in
     [WriteFile (Join [mnt, ''usr/local/bin/sandboxd'']) bin,
      WriteFile (Join [mnt, ''etc/systemd/system/sandboxd.service'']) sandboxdUnit,
      MkdirAll wants, RemoveFile (Join [wants, ''sandboxd.service'']),
      Symlink ''../sandboxd.service'' (Join [wants, ''sandboxd.service''])])"

text \<open>The calls between two states.\<close>

definition since :: "'z host_scheme \<Rightarrow> 'z host_scheme \<Rightarrow> host_call list" where
  "since s t = drop (length (calls s)) (calls t)"

lemma install_files_calls:
  "wp (install_files E mnt bin) (\<lambda>r t. calls t = calls s @ since s t \<and> list_all file_call (since s t) \<and>
     (r = Inr () \<longrightarrow> since s t = install_calls mnt bin)) s"
  by (simp add: install_files_def wp Let_def file_call_def install_calls_def since_def)

text \<open>The calls of a run: up to the mount, and when there was one, what follows it.\<close>

definition install_shape :: "env \<Rightarrow> string \<Rightarrow> string \<Rightarrow> host_call list \<Rightarrow> (install_error, unit) result \<Rightarrow> host_call list \<Rightarrow> bool" where
  "install_shape E rootfs agentBin h r new \<longleftrightarrow>
     (\<exists>k. new = take k [Stat rootfs, ReadFile agentBin, MkdirTemp] \<and> r \<noteq> Inr ()) \<or>
     (\<exists>mnt mid. new = [Stat rootfs, ReadFile agentBin, MkdirTemp] @ mount_cmd rootfs mnt # mid @ [RemoveFile mnt] \<and>
        (if r_ok (answer E (h @ [Stat rootfs, ReadFile agentBin, MkdirTemp]) (mount_cmd rootfs mnt))
         then \<exists>fs. mid = fs @ [umount_cmd mnt] \<and> list_all file_call fs \<and>
           (r = Inr () \<longrightarrow> fs = install_calls mnt (r_out (answer E (h @ [Stat rootfs]) (ReadFile agentBin))))
         else mid = [] \<and> r \<noteq> Inr ()))"

lemma installAgent_shape:
  "wp (installAgent E rootfs agentBin) (\<lambda>r t. calls t = calls s @ since s t \<and>
     install_shape E rootfs agentBin (calls s) r (since s t)) s"
proof -
  let ?first = "[Stat rootfs, ReadFile agentBin, MkdirTemp]"
  let ?mnt = "r_out (answer E (calls s @ [Stat rootfs, ReadFile agentBin]) MkdirTemp)"
  let ?bin = "r_out (answer E (calls s @ [Stat rootfs]) (ReadFile agentBin))"
  have short: "install_shape E rootfs agentBin h (Inl e) [Stat rootfs]"
    "install_shape E rootfs agentBin h (Inl e) [Stat rootfs, ReadFile agentBin]"
    "install_shape E rootfs agentBin h (Inl e) [Stat rootfs, ReadFile agentBin, MkdirTemp]" for h e
    unfolding install_shape_def
    by (rule disjI1, rule exI [of _ 1], simp, rule disjI1, rule exI [of _ 2], simp, rule disjI1, rule exI [of _ 3], simp)
  let ?u = "s\<lparr>calls := calls s @ [Stat rootfs, ReadFile agentBin, MkdirTemp, mount_cmd rootfs ?mnt]\<rparr>"
  have files: "wp (install_files E ?mnt ?bin) (\<lambda>r t. length (calls s) \<le> length (calls t) \<and>
      calls t = calls s @ drop (length (calls s)) (calls t) \<and>
      install_shape E rootfs agentBin (calls s) r (drop (length (calls s)) (calls t) @ [umount_cmd ?mnt, RemoveFile ?mnt])) ?u"
    if "r_ok (answer E (calls s @ [Stat rootfs, ReadFile agentBin, MkdirTemp]) (mount_cmd rootfs ?mnt))"
  proof (rule wp_conseq [OF install_files_calls])
    fix r :: "(install_error, unit) result" and t :: "'a host_scheme"
    assume "calls t = calls ?u @ since ?u t \<and> list_all file_call (since ?u t) \<and> (r = Inr () \<longrightarrow> since ?u t = install_calls ?mnt ?bin)"
    then obtain mid where mid: "calls t = calls s @ ?first @ mount_cmd rootfs ?mnt # mid" "list_all file_call mid"
        "r = Inr () \<longrightarrow> mid = install_calls ?mnt ?bin" by auto
    have "install_shape E rootfs agentBin (calls s) r (?first @ mount_cmd rootfs ?mnt # (mid @ [umount_cmd ?mnt]) @ [RemoveFile ?mnt])"
      unfolding install_shape_def using that mid(2,3) by (intro disjI2 exI [of _ ?mnt] exI [of _ "mid @ [umount_cmd ?mnt]"]) simp
    then show "length (calls s) \<le> length (calls t) \<and> calls t = calls s @ drop (length (calls s)) (calls t) \<and>
      install_shape E rootfs agentBin (calls s) r (drop (length (calls s)) (calls t) @ [umount_cmd ?mnt, RemoveFile ?mnt])"
      by (simp add: mid(1))
  qed
  have unmounted: "install_shape E rootfs agentBin (calls s) (Inl e) (?first @ [mount_cmd rootfs ?mnt, RemoveFile ?mnt])"
    if "\<not> r_ok (answer E (calls s @ [Stat rootfs, ReadFile agentBin, MkdirTemp]) (mount_cmd rootfs ?mnt))" for e
    unfolding install_shape_def using that by (intro disjI2 exI [of _ ?mnt] exI [of _ "[]"]) simp
  show ?thesis
    using short unmounted by (simp add: installAgent_def wp since_def) (intro impI, rule wp_conseq [OF files], simp_all)
qed

lemma split_once:
  assumes "as @ x # bs = cs @ y # ds" "P y" "list_all (\<lambda>z. \<not> P z) as" "list_all (\<lambda>z. \<not> P z) bs"
  shows "cs = as \<and> y = x \<and> ds = bs"
  using assms(1,3)
proof (induction as arbitrary: cs)
  case Nil
  with assms(2,4) show ?case by (cases cs) (auto simp: list_all_iff)
next
  case (Cons a as)
  with assms(2) show ?case by (cases cs) auto
qed

text \<open>
  Installing the agent never leaves the image mounted: whatever fails, a mount that
  succeeded is followed only by file operations, then by unmounting the image, then by
  removing the mount point, and nothing comes after. When the installation succeeds, what
  was done in between is exactly writing the binary and the unit and enabling the unit.
\<close>
theorem installAgent_unmounts:
  assumes "run_state (installAgent E rootfs agentBin) s = (r, t)"
    and "calls t = calls s @ pre @ mount_cmd rootfs mnt # rest" "r_ok (answer E (calls s @ pre) (mount_cmd rootfs mnt))"
  shows "\<exists>fs. rest = fs @ [umount_cmd mnt, RemoveFile mnt] \<and> list_all file_call fs \<and>
    (r = Inr () \<longrightarrow> fs = install_calls mnt (r_out (answer E (calls s @ [Stat rootfs]) (ReadFile agentBin))))"
proof -
  let ?first = "[Stat rootfs, ReadFile agentBin, MkdirTemp]" and ?P = "\<lambda>c. \<exists>m. c = mount_cmd rootfs m"
  have new: "since s t = pre @ mount_cmd rootfs mnt # rest" using assms(2) by (simp add: since_def)
  have shape: "install_shape E rootfs agentBin (calls s) r (since s t)"
    using wp_run [OF assms(1) installAgent_shape] by blast
  have "since s t \<noteq> take k ?first" for k
  proof
    assume "since s t = take k ?first"
    then have "mount_cmd rootfs mnt \<in> set (take k ?first)" by (metis new in_set_conv_decomp)
    then have "mount_cmd rootfs mnt \<in> set ?first" by (rule in_set_takeD)
    then show False by (simp add: mount_cmd_def)
  qed
  with shape obtain m mid where m: "since s t = ?first @ mount_cmd rootfs m # mid @ [RemoveFile m]"
    and mid: "if r_ok (answer E (calls s @ ?first) (mount_cmd rootfs m))
         then \<exists>fs. mid = fs @ [umount_cmd m] \<and> list_all file_call fs \<and>
           (r = Inr () \<longrightarrow> fs = install_calls m (r_out (answer E (calls s @ [Stat rootfs]) (ReadFile agentBin))))
         else mid = [] \<and> r \<noteq> Inr ()"
    unfolding install_shape_def by blast
  have no_mount: "file_call c \<Longrightarrow> \<not> ?P c" "\<not> ?P (umount_cmd m)" "\<not> ?P (RemoveFile m)" for c
    by (auto simp: file_call_def mount_cmd_def umount_cmd_def)
  have "list_all (\<lambda>c. \<not> ?P c) (mid @ [RemoveFile m])"
  proof -
    have "list_all file_call fs \<Longrightarrow> list_all (\<lambda>c. \<not> ?P c) fs" for fs
      using no_mount(1) by (simp only: list_all_iff) blast
    then show ?thesis using mid no_mount(2,3) by (auto split: if_split_asm)
  qed
  from split_once [OF m [unfolded new, symmetric] _ _ this]
  have "pre = ?first" "mount_cmd rootfs mnt = mount_cmd rootfs m" "rest = mid @ [RemoveFile m]"
    by (auto simp: mount_cmd_def)
  with mid assms(3) show ?thesis by (auto simp: mount_cmd_def)
qed

theorem installAgent_unmounts_witness:
  "\<exists>r t fs. run_state (installAgent sunny ''/opt/base.ext4'' ''./sandboxd'') \<lparr>calls = []\<rparr> = (r, t) \<and>
     calls t = [Stat ''/opt/base.ext4'', ReadFile ''./sandboxd'', MkdirTemp, mount_cmd ''/opt/base.ext4'' ''2''] @
       fs @ [umount_cmd ''2'', RemoveFile ''2''] \<and> list_all file_call fs"
proof -
  obtain r t where run: "run_state (installAgent sunny ''/opt/base.ext4'' ''./sandboxd'') \<lparr>calls = []\<rparr> = (r, t)"
    by (metis prod.exhaust)
  have "dec 2 = ''2''" by (simp add: dec_eval)
  then have two: "dec (Suc (Suc 0)) = ''2''" by (simp add: numeral_2_eq_2)
  from run have "\<exists>rest. calls t = [] @ [Stat ''/opt/base.ext4'', ReadFile ''./sandboxd'', MkdirTemp] @ mount_cmd ''/opt/base.ext4'' ''2'' # rest"
    using two by (auto simp: installAgent_def install_files_def Let_def sunny_def mount_cmd_def split: if_splits)
  then obtain rest where "calls t = calls \<lparr>calls = []\<rparr> @ [Stat ''/opt/base.ext4'', ReadFile ''./sandboxd'', MkdirTemp] @ mount_cmd ''/opt/base.ext4'' ''2'' # rest"
    by auto
  from installAgent_unmounts [OF run this] run this show ?thesis by (auto simp: sunny_def mount_cmd_def)
qed

end
