(* ===== verification/Doctor.thy ===== *)
theory Doctor
  imports Cli
begin

text \<open>
  \<open>cmd/sandbox/doctor.go\<close>: the checks of a host, each hard or a mere warning, and the verdict.
\<close>

subsection \<open>Checks\<close>

text \<open>A check: its name, whether failing it is an error, and what it does.\<close>

type_synonym 'z doctor_check = "string \<times> bool \<times> ('z, bool) action"

definition exists_file :: "env \<Rightarrow> string \<Rightarrow> ('z, bool) action" where
  "exists_file E path = do { r \<leftarrow> call E (Stat path); return (r_ok r) }"

text \<open>The copies are removed in any case, the clone first.\<close>

definition probeReflink :: "env \<Rightarrow> string \<Rightarrow> ('z, bool) action" where
  "probeReflink E dir = do {
     d \<leftarrow> call E (MkdirAll dir);
     if \<not> r_ok d then return False
     else do {
       src \<leftarrow> call E (CreateTemp dir);
       if \<not> r_ok src then return False
       else (let srcPath = r_out src; dstPath = srcPath @ ''.clone'' in do {
         c \<leftarrow> call E (Cmd [''cp'', ''--reflink=always'', srcPath, dstPath]);
         _ \<leftarrow> call E (RemoveFile dstPath);
         _ \<leftarrow> call E (RemoveFile srcPath);
         return (r_ok c)
       })
     }
   }"

definition ip_forwarding :: "env \<Rightarrow> ('z, bool) action" where
  "ip_forwarding E = do {
     b \<leftarrow> call E (ReadFile ''/proc/sys/net/ipv4/ip_forward'');
     return (r_ok b \<and> r_out b \<noteq> [] \<and> hd (r_out b) = CHR ''1'')
   }"

definition api_socket :: "env \<Rightarrow> string \<Rightarrow> ('z, bool) action" where
  "api_socket E path = do {
     r \<leftarrow> call E (Stat path);
     if \<not> r_ok r then return False
     else do { c \<leftarrow> call E (DialUnix path); return (r_ok c) }
   }"

definition doctor_checks :: "env \<Rightarrow> bool \<Rightarrow> config \<Rightarrow> 'z doctor_check list" where
  "doctor_checks E linux cfg =
     [(''Linux'', True, return linux),
      (''KVM'', True, exists_file E ''/dev/kvm''),
      (''Binary'', True, exists_file E (cf_FirecrackerBin cfg)),
      (''Version'', False, do { r \<leftarrow> call E (Cmd [cf_FirecrackerBin cfg, ''--version'']); return (r_ok r) }),
      (''Kernel'', True, exists_file E (cf_KernelImage cfg)),
      (''Base rootfs'', True, exists_file E (cf_RootfsBase cfg)),
      (''Reflink CoW'', False, probeReflink E (cf_RootfsDir cfg)),
      (''Bridge ('' @ cf_Bridge cfg @ '')'', True, exists_file E (''/sys/class/net/'' @ cf_Bridge cfg)),
      (''IP forwarding'', False, ip_forwarding E),
      (''API socket'', False, api_socket E (cf_SocketPath cfg))]"

text \<open>The counters of passed and failed checks and of warnings.\<close>

record tally =
  passed :: nat
  failed :: nat
  warned :: nat

fun run_checks :: "'z doctor_check list \<Rightarrow> tally \<Rightarrow> ('z, tally) action" where
  "run_checks [] n = return n"
| "run_checks ((name, hard, m) # cs) n = do {
     ok \<leftarrow> m;
     run_checks cs (if ok then n\<lparr>passed := Suc (passed n)\<rparr>
       else if hard then n\<lparr>failed := Suc (failed n)\<rparr>
       else n\<lparr>warned := Suc (warned n)\<rparr>)
   }"

datatype doctor_error = DoctorLoad load_error | ChecksFailed nat

definition runDoctor :: "env \<Rightarrow> (string \<Rightarrow> json option) \<Rightarrow> bool \<Rightarrow> string \<Rightarrow> ('z, (doctor_error, tally) result) action" where
  "runDoctor E parse linux path = do {
     r \<leftarrow> Load E parse path;
     (case r of
        Inl e \<Rightarrow> return (Inl (DoctorLoad e))
      | Inr cfg \<Rightarrow> do {
          n \<leftarrow> run_checks (doctor_checks E linux cfg) \<lparr>passed = 0, failed = 0, warned = 0\<rparr>;
          return (if failed n > 0 then Inl (ChecksFailed (failed n)) else Inr n)
        })
   }"

subsection \<open>The verdict\<close>

lemma run_checks_count:
  "run_state (run_checks cs n) s = (n', t) \<Longrightarrow>
     passed n' + failed n' + warned n' = passed n + failed n + warned n + length cs \<and>
     failed n' \<le> failed n + length (filter (\<lambda>c. fst (snd c)) cs) \<and>
     warned n' \<le> warned n + length (filter (\<lambda>c. \<not> fst (snd c)) cs)"
proof (induction cs n arbitrary: s rule: run_checks.induct)
  case (2 name hard m cs n)
  obtain ok u where m: "run_state m s = (ok, u)" by (metis prod.exhaust)
  with "2.prems" "2.IH" [of ok u] show ?case by (auto split: if_split_asm)
qed simp

text \<open>Ten checks are run; at most six can fail the verdict, and at most four are warnings.\<close>

lemma doctor_verdict:
  assumes "run_state (runDoctor E parse linux path) s = (r, t)"
  shows "case r of
      Inr n \<Rightarrow> failed n = 0 \<and> passed n + warned n = 10 \<and> warned n \<le> 4
    | Inl (ChecksFailed k) \<Rightarrow> 1 \<le> k \<and> k \<le> 6
    | Inl (DoctorLoad e) \<Rightarrow> True"
proof -
  obtain l u where l: "run_state (Load E parse path) s = (l, u)" by (metis prod.exhaust)
  show ?thesis
  proof (cases l)
    case (Inr cfg)
    obtain n v where n: "run_state (run_checks (doctor_checks E linux cfg) \<lparr>passed = 0, failed = 0, warned = 0\<rparr>) u = (n, v)"
      by (metis prod.exhaust)
    have "length (doctor_checks E linux cfg :: 'a doctor_check list) = 10"
      "length (filter (\<lambda>c. fst (snd c)) (doctor_checks E linux cfg :: 'a doctor_check list)) = 6"
      "length (filter (\<lambda>c. \<not> fst (snd c)) (doctor_checks E linux cfg :: 'a doctor_check list)) = 4"
      by (simp_all add: doctor_checks_def)
    with run_checks_count [OF n] assms l n Inr show ?thesis
      by (auto simp: runDoctor_def split: if_split_asm)
  qed (use assms l in \<open>auto simp: runDoctor_def\<close>)
qed

text \<open>The probe for copy-on-write leaves none of its files behind.\<close>

lemma probeReflink_cleans:
  "wp (probeReflink E dir) (\<lambda>r t. \<forall>src dst. Cmd [''cp'', ''--reflink=always'', src, dst] \<in> set (since s t) \<longrightarrow>
     (\<exists>pre. since s t = pre @ [RemoveFile dst, RemoveFile src])) s"
  by (simp add: probeReflink_def wp Let_def since_def)

end
