(* ===== verification/Commands.thy ===== *)
theory Commands
  imports Cli
begin

text \<open>
  The commands of \<open>cmd/sandbox\<close> that make one request each: \<open>up\<close>, \<open>down\<close>, \<open>list\<close>, \<open>expose\<close>,
  \<open>ports\<close>, \<open>read\<close>, \<open>write\<close> and \<open>ls\<close> (\<open>up.go\<close>, \<open>down.go\<close>, \<open>list.go\<close>, \<open>expose.go\<close>,
  \<open>files.go\<close>), and the exit status of the program (\<open>main.go\<close>). How a request gets to its
  target and back is the argument \<open>rt\<close>; \<open>local_server\<close> is the server of this development
  behind its Unix socket. A command's outcome is what it prints and its error; tables are
  their rows, not yet padded.
\<close>

subsection \<open>Outcomes\<close>

datatype printed =
    Out string             \<comment> \<open>a line on standard output\<close>
  | Note string            \<comment> \<open>a line on standard error\<close>
  | Json sandbox
  | Row "string list"
  | Bytes string

datatype cmd_error = InvalidPort string | LoadFailed load_error | ClientFailed client_error | OpenFailed string | CopyFailed

type_synonym cmd_outcome = "printed list \<times> cmd_error option"

type_synonym ('z, 'a) transport = "client_target \<Rightarrow> http_request \<Rightarrow> ('z, 'a http_body http_response) action"

text \<open>\<open>main\<close>: cobra prints the error of the command.\<close>

definition main_status :: "cmd_outcome \<Rightarrow> int" where
  "main_status oc = (case snd oc of None \<Rightarrow> 0 | Some _ \<Rightarrow> 1)"

text \<open>\<open>do\<close> without an \<open>out\<close> argument: the body of a success is not looked at.\<close>

definition client_done :: "'a http_body http_response \<Rightarrow> (client_error, unit) result" where
  "client_done resp =
     (case resp of
        DialError \<Rightarrow> Inl CDial
      | Response code status b \<Rightarrow> if code \<ge> 400 then Inl (CServer (server_error_text status b)) else Inr ())"

text \<open>A request of a command and its printing, after the client is set up.\<close>

definition with_client :: "env \<Rightarrow> (string \<Rightarrow> json option) \<Rightarrow> client_flags \<Rightarrow> (client_target \<Rightarrow> ('z, cmd_outcome) action)
    \<Rightarrow> ('z, cmd_outcome) action" where
  "with_client E parse f k = do {
     r \<leftarrow> dialClient E parse f;
     (case r of Inl e \<Rightarrow> return ([], Some (LoadFailed e)) | Inr (_, c) \<Rightarrow> k c)
   }"

definition on_ok :: "(client_error, 'a) result \<Rightarrow> ('a \<Rightarrow> printed list) \<Rightarrow> cmd_outcome" where
  "on_ok r print = (case r of Inl e \<Rightarrow> ([], Some (ClientFailed e)) | Inr x \<Rightarrow> (print x, None))"

subsection \<open>Commands\<close>

definition zero_sandbox :: sandbox where
  "zero_sandbox = \<lparr>sb_id = [], sb_pid = 0, sb_vm_id = [], sb_socket_path = [], sb_tap_device = [], sb_guest_ip = [],
     sb_host_port = 0, sb_rootfs_path = [], sb_status = [], sb_created_at = - 62135596800000000000, sb_stopped_at = None,
     sb_expires_at = None\<rparr>"

definition up_lines :: "sandbox \<Rightarrow> printed list" where
  "up_lines sb =
     [Note (''sandbox '' @ sb_id sb @ '' ready '' @ [CHR 0xE2, CHR 0x86, CHR 0x92] @ '' http://localhost:'' @ itoa (sb_host_port sb)),
      Json sb]"

definition runUp :: "env \<Rightarrow> (string \<Rightarrow> json option) \<Rightarrow> ('z, sandbox) transport \<Rightarrow> client_flags \<Rightarrow> int \<Rightarrow> ('z, cmd_outcome) action" where
  "runUp E parse rt f ttl = with_client E parse f (\<lambda>c. do {
     resp \<leftarrow> rt c (client_request (ClientCreate ttl));
     return (on_ok (client_do zero_sandbox resp) up_lines)
   })"

definition runDown :: "env \<Rightarrow> (string \<Rightarrow> json option) \<Rightarrow> ('z, unit) transport \<Rightarrow> client_flags \<Rightarrow> string \<Rightarrow> ('z, cmd_outcome) action" where
  "runDown E parse rt f sid = with_client E parse f (\<lambda>c. do {
     resp \<leftarrow> rt c (client_request (ClientDestroy sid));
     return (on_ok (client_done resp) (\<lambda>_. [Out (''sandbox '' @ sid @ '' stopped.'')]))
   })"

definition runList :: "env \<Rightarrow> (string \<Rightarrow> json option) \<Rightarrow> ('z, sandbox list) transport \<Rightarrow> client_flags \<Rightarrow> ('z, cmd_outcome) action" where
  "runList E parse rt f = with_client E parse f (\<lambda>c. do {
     resp \<leftarrow> rt c (client_request ClientList);
     return (on_ok (client_do [] resp) (\<lambda>sbs.
       if sbs = [] then [Out ''no running sandboxes'']
       else Row [''ID'', ''GUEST'', ''HOST PORT'', ''TAP'', ''PID''] #
         map (\<lambda>sb. Row [sb_id sb, sb_guest_ip sb, itoa (sb_host_port sb), sb_tap_device sb, itoa (sb_pid sb)]) sbs))
   })"

definition zero_mapping :: port_mapping where
  "zero_mapping = \<lparr>pm_guest_port = 0, pm_host_port = 0\<rparr>"

definition exposeCmd :: "env \<Rightarrow> (string \<Rightarrow> json option) \<Rightarrow> ('z, port_mapping) transport \<Rightarrow> client_flags \<Rightarrow> string \<Rightarrow> string
    \<Rightarrow> ('z, cmd_outcome) action" where
  "exposeCmd E parse rt f sid port =
     (case Atoi port of
        None \<Rightarrow> return ([], Some (InvalidPort port))
      | Some guestPort \<Rightarrow> with_client E parse f (\<lambda>c. do {
          resp \<leftarrow> rt c (client_request (ClientExposePort sid guestPort));
          return (on_ok (client_do zero_mapping resp) (\<lambda>pm.
            [Out (''guest '' @ itoa (pm_guest_port pm) @ '' '' @ [CHR 0xE2, CHR 0x86, CHR 0x92] @ '' host '' @ itoa (pm_host_port pm))]))
        }))"

definition portsCmd :: "env \<Rightarrow> (string \<Rightarrow> json option) \<Rightarrow> ('z, port_mapping list) transport \<Rightarrow> client_flags \<Rightarrow> string
    \<Rightarrow> ('z, cmd_outcome) action" where
  "portsCmd E parse rt f sid = with_client E parse f (\<lambda>c. do {
     resp \<leftarrow> rt c (client_request (ClientListPorts sid));
     return (on_ok (client_do [] resp) (\<lambda>pms.
       Row [''GUEST PORT'', ''HOST PORT''] # map (\<lambda>pm. Row [itoa (pm_guest_port pm), itoa (pm_host_port pm)]) pms))
   })"

text \<open>The body of a file: its bytes as far as they come, and whether reading or printing them fails then.\<close>

definition readCmd :: "env \<Rightarrow> (string \<Rightarrow> json option) \<Rightarrow> ('z, string \<times> bool) transport \<Rightarrow> client_flags \<Rightarrow> string \<Rightarrow> string
    \<Rightarrow> ('z, cmd_outcome) action" where
  "readCmd E parse rt f sid path = with_client E parse f (\<lambda>c. do {
     resp \<leftarrow> rt c (client_request (ClientReadFile sid path));
     return (case client_doRaw resp of
         Inl e \<Rightarrow> ([], Some (ClientFailed e))
       | Inr (GoodBody (bytes, broken)) \<Rightarrow> ([Bytes bytes], if broken then Some CopyFailed else None)
       | Inr _ \<Rightarrow> ([], Some CopyFailed))
   })"

text \<open>The local file is opened after the client is set up; \<open>stdin\<close> is what standard input has.\<close>

definition writeCmd :: "env \<Rightarrow> (string \<Rightarrow> json option) \<Rightarrow> ('z, unit) transport \<Rightarrow> client_flags \<Rightarrow> string \<Rightarrow> string \<Rightarrow> string \<Rightarrow> string
    \<Rightarrow> ('z, cmd_outcome) action" where
  "writeCmd E parse rt f stdin source sid path = with_client E parse f (\<lambda>c. do {
     src \<leftarrow> (if source \<noteq> [] then do { b \<leftarrow> call E (ReadFile source); return (if r_ok b then Some (r_out b) else None) }
            else return (Some stdin));
     (case src of
        None \<Rightarrow> return ([], Some (OpenFailed source))
      | Some bytes \<Rightarrow> do {
          resp \<leftarrow> rt c (client_request (ClientWriteFile sid path bytes));
          return (on_ok (client_done resp) (\<lambda>_. []))
        })
   })"

text \<open>\<open>fmt\<close> is \<open>time.Format\<close> with the layout of the command.\<close>

definition lsCmd :: "env \<Rightarrow> (string \<Rightarrow> json option) \<Rightarrow> (int \<Rightarrow> string) \<Rightarrow> ('z, dir_entry list) transport \<Rightarrow> client_flags \<Rightarrow> string
    \<Rightarrow> string option \<Rightarrow> ('z, cmd_outcome) action" where
  "lsCmd E parse fmt rt f sid path = with_client E parse f (\<lambda>c. do {
     resp \<leftarrow> rt c (client_request (ClientListDir sid (case path of None \<Rightarrow> [] | Some p \<Rightarrow> p)));
     return (on_ok (client_do [] resp) (\<lambda>es. map (\<lambda>e. Row [de_Mode e, itoa (de_Size e), fmt (de_MTime e), de_Name e]) es))
   })"

subsection \<open>Against the server\<close>

text \<open>
  The server behind its socket: what \<open>enc\<close> makes of a body is what the client decodes. No
  handler is a 404 of the mux.
\<close>

definition local_server :: "env \<Rightarrow> server_config \<Rightarrow> (agent_request \<Rightarrow> agent_answer) \<Rightarrow> (string \<Rightarrow> body_views)
    \<Rightarrow> (client_body \<Rightarrow> string) \<Rightarrow> (body \<Rightarrow> 'a http_body) \<Rightarrow> client_target \<Rightarrow> http_request
    \<Rightarrow> 'a http_body http_response server_action" where
  "local_server E cfg agent raw marshal enc c rq = do {
     r \<leftarrow> serve_request E cfg agent (arrives raw marshal rq);
     return (case r of None \<Rightarrow> Response 404 ''404 Not Found'' BadBody | Some (code, b) \<Rightarrow> Response code [] (enc b))
   }"

lemma local_serves:
  assumes "\<And>sid. op_sandbox op = Some sid \<Longrightarrow> sandbox_id sid"
    and "run_state (handle E cfg agent (arrives raw marshal (client_request op)) (op_handler op)
      (case op_sandbox op of None \<Rightarrow> [] | Some sid \<Rightarrow> sid)) s = ((code, b), t)"
  shows "run_state (local_server E cfg agent raw marshal enc c (client_request op)) s = (Response code [] (enc b), t)"
  using client_reached [where op = op and raw = raw and marshal = marshal, OF assms(1)] assms(2) by (simp add: local_server_def serve_request_def)

lemma dialClient_reads:
  "\<exists>r. run_state (dialClient E parse f) s = (r, s\<lparr>calls := calls s @ [ReadFile (cl_config f)]\<rparr>)"
  by (simp add: dialClient_def Load_def call_def)

subsection \<open>Up, and down again\<close>

text \<open>What the client decodes from the bodies of these handlers.\<close>

definition decodes_sandbox :: "(body \<Rightarrow> sandbox http_body) \<Rightarrow> bool" where
  "decodes_sandbox enc \<longleftrightarrow> (\<forall>sb. enc (BSandbox sb) = GoodBody sb)"

definition after_load :: "client_flags \<Rightarrow> server \<Rightarrow> server" where
  "after_load f s = s\<lparr>calls := calls s @ [ReadFile (cl_config f)]\<rparr>"

lemma after_load_simps [simp]: "reg_db (after_load f s) = reg_db s" "machines (after_load f s) = machines s"
  "tracked_ok (after_load f s) = tracked_ok s"
  by (simp_all add: after_load_def tracked_ok_def)

lemma with_client_runs:
  assumes "run_state (with_client E parse f k) s = (r, t)"
  shows "(\<exists>e. r = ([], Some (LoadFailed e)) \<and> t = after_load f s) \<or> (\<exists>c. run_state (k c) (after_load f s) = (r, t))"
proof -
  obtain d where d: "run_state (dialClient E parse f) s = (d, after_load f s)"
    using dialClient_reads [of E parse f s] unfolding after_load_def by blast
  then show ?thesis using assms by (cases d) (auto simp: with_client_def)
qed

definition timeout_body :: "int \<Rightarrow> int request_body" where
  "timeout_body ttl = (if ttl > 0 then Decoded ttl else NoBody)"

lemma up_runs:
  assumes "run_state (runUp E parse (local_server E cfg agent raw marshal enc) f ttl) s = (r, t)"
  obtains (load) e where "r = ([], Some (LoadFailed e))" "t = after_load f s"
    | (served) code b where "run_state (handleCreate E cfg (timeout_body ttl)) (after_load f s) = ((code, b), t)"
        "r = on_ok (client_do zero_sandbox (Response code [] (enc b))) up_lines"
proof -
  consider e where "r = ([], Some (LoadFailed e))" "t = after_load f s"
    | c where "run_state (local_server E cfg agent raw marshal enc c (client_request (ClientCreate ttl)) \<bind> (\<lambda>resp.
        return (on_ok (client_do zero_sandbox resp) up_lines))) (after_load f s) = (r, t)"
    using with_client_runs [OF assms [unfolded runUp_def]] by blast
  then show ?thesis
  proof cases
    case 1
    then show ?thesis by (rule load)
  next
    case 2
    obtain code b u where create: "run_state (handleCreate E cfg (timeout_body ttl)) (after_load f s) = ((code, b), u)"
      by (metis prod.exhaust)
    have "rq_timeout (arrives raw marshal (client_request (ClientCreate ttl))) = timeout_body ttl"
      by (simp add: arrives_def views_of_def timeout_body_def split: prod.split)
    with create local_serves [where op = "ClientCreate ttl" and c = c and enc = enc] 2
    show ?thesis by (intro that(2) [of code b]) auto
  qed
qed

lemma down_runs:
  assumes "run_state (runDown E parse (local_server E cfg agent raw marshal enc) f sid) s = (r, t)" "sandbox_id sid"
  obtains (load) e where "r = ([], Some (LoadFailed e))" "t = after_load f s"
    | (served) code b where "run_state (handleDestroy E cfg sid) (after_load f s) = ((code, b), t)"
        "r = on_ok (client_done (Response code [] (enc b))) (\<lambda>_. [Out (''sandbox '' @ sid @ '' stopped.'')])"
proof -
  consider e where "r = ([], Some (LoadFailed e))" "t = after_load f s"
    | c where "run_state (local_server E cfg agent raw marshal enc c (client_request (ClientDestroy sid)) \<bind> (\<lambda>resp.
        return (on_ok (client_done resp) (\<lambda>_. [Out (''sandbox '' @ sid @ '' stopped.'')])))) (after_load f s) = (r, t)"
    using with_client_runs [OF assms(1) [unfolded runDown_def]] by blast
  then show ?thesis
  proof cases
    case 1
    then show ?thesis by (rule load)
  next
    case 2
    obtain code b u where del: "run_state (handleDestroy E cfg sid) (after_load f s) = ((code, b), u)"
      by (metis prod.exhaust)
    with local_serves [where op = "ClientDestroy sid" and c = c and enc = enc] 2 assms(2)
    show ?thesis by (intro that(2) [of code b]) auto
  qed
qed

lemma bring_up_code: "wp (bring_up E cfg sid sb m rt err n) (\<lambda>r _. fst r = 201 \<or> fst r \<ge> 400) s"
  unfolding bring_up_def by (auto simp: wp split: sum.split intro!: wp_any)

lemma create_code: "wp (handleCreate E cfg rb) (\<lambda>r _. fst r = 201 \<or> fst r \<ge> 400) s"
  unfolding handleCreate_def Let_def
  by (auto simp: wp split: sum.split prod.split intro!: bring_up_code wp_any)

text \<open>
  \<open>sandbox up\<close> is all or nothing, from the command line to the registry: when it prints
  a sandbox and exits with 0, that sandbox is on record and its machine is tracked; when it
  exits with 1, whatever failed at the client or at the server, the registry and the tracked
  machines are as before.
\<close>
theorem up_all_or_nothing:
  assumes "registry_ok (reg_db s)" "cleanup_ok E" "tracked_ok s" "decodes_sandbox enc"
    and "run_state (runUp E parse (local_server E cfg agent raw marshal enc) f ttl) s = (r, t)"
  shows "if main_status r = 0
    then \<exists>sb m. fst r = up_lines sb \<and> machines t = (machines s)(sb_id sb \<mapsto> m) \<and>
           Get no_faults (sb_id sb) (reg_db t) = Inr (whole_seconds sb) \<and>
           (\<forall>x. x = sb_id sb \<or> Get no_faults x (reg_db t) = Get no_faults x (reg_db s))
    else reg_db t = reg_db s \<and> machines t = machines s"
  using assms(5)
proof (cases rule: up_runs)
  case (load e)
  then show ?thesis by (simp add: main_status_def)
next
  case (served code b)
  have pre: "registry_ok (reg_db (after_load f s))" "tracked_ok (after_load f s)" using assms(1,3) by simp_all
  note post = wp_run [OF served(1) handleCreate_wp [OF assms(2) pre], unfolded create_post_def fst_conv snd_conv]
  show ?thesis
  proof (cases "code = 201")
    case True
    with post obtain sb m where "b = BSandbox sb" "sb_id sb = fresh_id E (after_load f s)"
        "machines t = (machines s)(sb_id sb \<mapsto> m)" "Get no_faults (sb_id sb) (reg_db t) = Inr (whole_seconds sb)"
        "\<forall>x. x = sb_id sb \<or> Get no_faults x (reg_db t) = Get no_faults x (reg_db s)"
      by auto
    moreover from this True served(2) assms(4) have "r = (up_lines sb, None)"
      by (simp add: on_ok_def client_do_def decodes_sandbox_def)
    ultimately show ?thesis unfolding main_status_def by (auto intro!: exI [of _ sb])
  next
    case False
    with post have "reg_db t = reg_db s" "machines t = machines s" by simp_all
    moreover have "code \<ge> 400" using False wp_run [OF served(1) create_code] by simp
    ultimately show ?thesis using served(2) by (simp add: on_ok_def client_do_def main_status_def)
  qed
qed

lemma create_keeps_ok:
  assumes "registry_ok (reg_db s)" "run_state (handleCreate E cfg rb) s = (r, t)"
  shows "registry_ok (reg_db t)"
proof -
  have "(reg_step (RegPools cfg))\<^sup>*\<^sup>* (reg_db s) (reg_db t)"
    using moves.io_run [OF handler_moves(1) assms(2)] by (simp add: registry_moves_def)
  then show ?thesis using assms(1) by (induction rule: rtranclp_induct) (auto intro: reg_step_ok)
qed

text \<open>
  C12: \<open>sandbox down\<close> undoes \<open>sandbox up\<close>: after an \<open>up\<close> that exits with 0, a \<open>down\<close> with the
  printed identifier fails only if it cannot load its configuration; when it exits with 0,
  every sandbox reads back as it did before the \<open>up\<close>, and the same machines are tracked.
\<close>
theorem up_down:
  assumes "registry_ok (reg_db s)" "cleanup_ok E" "tracked_ok s" "decodes_sandbox enc"
    and fresh: "\<And>h. sandbox_id (r_out (answer E h NewUUID)) \<and> find_sandbox (r_out (answer E h NewUUID)) (reg_db s) = None"
    and up: "run_state (runUp E parse (local_server E cfg agent raw marshal enc) f ttl) s = ((up_lines sb, None), t)"
    and down: "run_state (runDown E parse (local_server E cfg agent raw marshal enc') f (sb_id sb)) t = (r, u)"
  shows "if main_status r = 0
    then (\<forall>x. Get no_faults x (reg_db u) = Get no_faults x (reg_db s)) \<and> machines u = machines s
    else (\<exists>e. snd r = Some (LoadFailed e)) \<and> reg_db u = reg_db t \<and> machines u = machines t"
  using up
proof (cases rule: up_runs)
  case (served code b)
  let ?s = "after_load f s"
  let ?sid = "fresh_id E ?s"
  have pre: "registry_ok (reg_db ?s)" "tracked_ok ?s" using assms(1,3) by simp_all
  note post = wp_run [OF served(1) handleCreate_wp [OF assms(2) pre], unfolded create_post_def fst_conv snd_conv]
  have "code = 201"
    using wp_run [OF served(1) create_code] served(2) by (auto simp: on_ok_def client_do_def)
  with post obtain sb' m where b: "b = BSandbox sb'" "sb_id sb' = ?sid" "machines t = (machines s)(?sid \<mapsto> m)"
      "Get no_faults ?sid (reg_db t) = Inr (whole_seconds sb')"
      "\<And>x. x = ?sid \<or> Get no_faults x (reg_db t) = Get no_faults x (reg_db s)"
    by auto
  have "up_lines sb = up_lines sb'"
    using served(2) b(1) \<open>code = 201\<close> assms(4) by (simp add: on_ok_def client_do_def decodes_sandbox_def)
  then have sid: "sb_id sb = ?sid" using b(2) by (simp add: up_lines_def)
  have none: "find_sandbox ?sid (reg_db s) = None" "sandbox_id ?sid" using fresh by (simp_all add: fresh_id_def)
  have ok: "registry_ok (reg_db t)" using create_keeps_ok [OF pre(1) served(1)] .
  have found: "find_sandbox ?sid (reg_db t) \<noteq> None" using b(4) by (auto simp: Get_no_faults split: option.splits)
  have id: "sandbox_id (sb_id sb)" using sid none(2) by simp
  from down id show ?thesis
  proof (cases rule: down_runs)
    case (load e)
    then show ?thesis by (simp add: main_status_def)
  next
    case del: (served code' b')
    have "code' = 204" "machines u = (machines t)(?sid := None)"
      and rows: "sandboxes (reg_db u) = filter (\<lambda>r. c_id r \<noteq> ?sid) (sandboxes (reg_db t))"
      using destroy_found [of "after_load f t" E ?sid cfg code' b' u] del(1) ok found assms(2) sid by (simp_all add: delete_all_def)
    moreover have "machines s ?sid = None" by (rule tracked_okD [OF assms(3) none(1)])
    ultimately have "machines u = machines s" using b(3) by (auto simp: fun_eq_iff)
    have "Get no_faults x (reg_db u) = Get no_faults x (reg_db s)" for x
    proof (cases "x = ?sid")
      case True
      have "find_sandbox ?sid (reg_db u) = None" by (auto simp: find_sandbox_def rows find_None_iff)
      with True none(1) show ?thesis by (simp add: Get_no_faults)
    next
      case False
      have "find_sandbox x (reg_db u) = find_sandbox x (reg_db t)"
        using False by (simp add: find_sandbox_def rows find_filter_key)
      then show ?thesis using b(5) [of x] False by (simp add: Get_no_faults)
    qed
    with \<open>machines u = machines s\<close> \<open>code' = 204\<close> del(2) show ?thesis
      by (simp add: on_ok_def client_done_def main_status_def)
  qed
qed simp

text \<open>Concretely, on a fresh server, with no fault.\<close>

definition sample_enc :: "body \<Rightarrow> sandbox http_body" where
  "sample_enc b = (case b of BSandbox sb \<Rightarrow> GoodBody sb | BError _ \<Rightarrow> ErrorBody ''error'' | _ \<Rightarrow> BadBody)"

definition sample_flags :: client_flags where
  "sample_flags = \<lparr>cl_config = ''c.json'', cl_socket = [], cl_gateway = [], cl_gateway_token = []\<rparr>"

lemma sample_decodes: "decodes_sandbox sample_enc"
  by (simp add: decodes_sandbox_def sample_enc_def)

lemma sunny_dials: "\<exists>cfg c. run_state (dialClient sunny (\<lambda>_. Some (JObj [])) f) s = (Inr (cfg, c), after_load f s)"
proof -
  have ok: "r_ok (answer sunny (calls s) (ReadFile (cl_config f)))" by (simp add: sunny_def)
  have "run_state (Load sunny (\<lambda>_. Some (JObj [])) (cl_config f)) s = (Inr (Defaults zero_config), after_load f s)"
    unfolding after_load_def by (rule load_empty [OF ok]) simp
  then show ?thesis by (simp add: dialClient_def)
qed

abbreviation "sample_server \<equiv> local_server sunny sample_cfg (\<lambda>_. Unreachable) (\<lambda>_. (NoBody, NoBody, NoBody)) (\<lambda>_. [])"

abbreviation "sample_up ttl \<equiv> runUp sunny (\<lambda>_. Some (JObj [])) (sample_server sample_enc) sample_flags ttl"

lemma sunny_ids: "sandbox_id (r_out (answer sunny h NewUUID))"
  using dec_digits [of _ "length h"] by (auto simp: sandbox_id_def sunny_def list_all_iff id_char_def)

lemma sample_up_runs: "\<exists>sb t. run_state (sample_up 60) server0 = ((up_lines sb, None), t)"
proof -
  obtain cfg c where dial: "run_state (dialClient sunny (\<lambda>_. Some (JObj [])) sample_flags) server0 = (Inr (cfg, c), after_load sample_flags server0)"
    using sunny_dials by blast
  obtain code b t where create: "run_state (handleCreate sunny sample_cfg (Decoded 60)) (after_load sample_flags server0) = ((code, b), t)"
    by (metis prod.exhaust)
  have "code = 201"
    by (rule handleCreate_succeeds [OF sunny_well _ _ _ _ _ _ _ _ _ create, where n = 60 and lo = "0xAC10000A" and hi = "0xAC10000B"])
      (simp_all add: server0_def empty_db_ok timeout_of_def sample_cfg_def ip_range_sample parse_gateway del: ip_range.simps,
        simp_all add: Slots_sample port_slots_sample, simp_all add: empty_db_def find_sandbox_def)
  have pre: "registry_ok (reg_db (after_load sample_flags server0))" "tracked_ok (after_load sample_flags server0)"
    by (simp_all add: server0_def empty_db_ok tracked_ok_def)
  obtain sb where "b = BSandbox sb"
    using wp_run [OF create handleCreate_wp [OF sunny_cleanup pre], unfolded create_post_def fst_conv snd_conv] \<open>code = 201\<close> by auto
  have "rq_timeout (arrives (\<lambda>_. (NoBody, NoBody, NoBody)) (\<lambda>_. []) (client_request (ClientCreate 60))) = Decoded 60"
    by (simp add: arrives_def views_of_def split: prod.split)
  then have "run_state (sample_server sample_enc c (client_request (ClientCreate 60))) (after_load sample_flags server0) =
      (Response 201 [] (GoodBody sb), t)"
    using create \<open>code = 201\<close> \<open>b = BSandbox sb\<close>
    by (subst local_serves [where code = 201 and b = "BSandbox sb" and t = t]) (simp_all add: sample_enc_def del: client_request.simps)
  then show ?thesis
    using dial by (auto simp: runUp_def with_client_def on_ok_def client_do_def simp del: client_request.simps)
qed

theorem up_all_or_nothing_witness:
  "\<exists>sb t. run_state (sample_up 60) server0 = ((up_lines sb, None), t) \<and>
     Get no_faults (sb_id sb) (reg_db t) = Inr (whole_seconds sb)"
proof -
  obtain sb t where run: "run_state (sample_up 60) server0 = ((up_lines sb, None), t)" using sample_up_runs by blast
  have "registry_ok (reg_db server0)" "tracked_ok server0" by (simp_all add: server0_def empty_db_ok tracked_ok_def)
  from up_all_or_nothing [OF this(1) sunny_cleanup this(2) sample_decodes run] obtain sb' where
    "up_lines sb = up_lines sb'" "Get no_faults (sb_id sb') (reg_db t) = Inr (whole_seconds sb')"
    by (auto simp: main_status_def)
  then show ?thesis using run by (auto simp: up_lines_def)
qed

theorem up_down_witness:
  "\<exists>sb t r u. run_state (sample_up 60) server0 = ((up_lines sb, None), t) \<and>
     run_state (runDown sunny (\<lambda>_. Some (JObj [])) (sample_server (\<lambda>_. BadBody)) sample_flags (sb_id sb)) t = (r, u) \<and>
     main_status r = 0 \<and> (\<forall>x. Get no_faults x (reg_db u) = Get no_faults x empty_db) \<and> machines u = Map.empty"
proof -
  obtain sb t where up: "run_state (sample_up 60) server0 = ((up_lines sb, None), t)" using sample_up_runs by blast
  obtain r u where down: "run_state (runDown sunny (\<lambda>_. Some (JObj [])) (sample_server (\<lambda>_. BadBody)) sample_flags (sb_id sb)) t = (r, u)"
    by fastforce
  have pre: "registry_ok (reg_db server0)" "tracked_ok server0" by (simp_all add: server0_def empty_db_ok tracked_ok_def)
  have fresh: "sandbox_id (r_out (answer sunny h NewUUID)) \<and> find_sandbox (r_out (answer sunny h NewUUID)) (reg_db server0) = None" for h
    using sunny_ids by (simp add: server0_def empty_db_def find_sandbox_def)
  note post = up_down [OF pre(1) sunny_cleanup pre(2) sample_decodes fresh up down]
  obtain cfg c where "run_state (dialClient sunny (\<lambda>_. Some (JObj [])) sample_flags) t = (Inr (cfg, c), after_load sample_flags t)"
    using sunny_dials by blast
  then have "snd r \<noteq> Some (LoadFailed e)" for e
    using down by (auto simp: runDown_def with_client_def on_ok_def split: prod.splits sum.splits)
  with post have "main_status r = 0" by (auto split: if_splits)
  with post have "\<forall>x. Get no_faults x (reg_db u) = Get no_faults x empty_db" "machines u = Map.empty"
    by (simp_all add: server0_def)
  with up down \<open>main_status r = 0\<close> show ?thesis by blast
qed

text \<open>A port that is no number is refused before anything is read or sent.\<close>

lemma expose_bad_port:
  "Atoi port = None \<Longrightarrow> run_state (exposeCmd E parse rt f sid port) s = (([], Some (InvalidPort port)), s)"
  by (simp add: exposeCmd_def)

text \<open>\<open>up --ttl\<close> with a negative number asks for a sandbox that never expires; the server is not told the number.\<close>

lemma up_negative_ttl: "ttl \<le> 0 \<Longrightarrow> runUp E parse rt f ttl = runUp E parse rt f 0"
  by (simp add: runUp_def)

end
