(* ===== verification/Terminal.thy ===== *)
theory Terminal
  imports Cli
begin

text \<open>
  \<open>runShell\<close> of \<open>cmd/sandbox/shell.go\<close> and \<open>DialShell\<close> of \<open>internal/client/client.go\<close>: the
  local end of an interactive session. The goroutine that relays resizes, the one that relays
  keys and the loop that prints are turns taken in any order. Joined to the session of the
  guest agent (Shell) by a connection that keeps the order of what is sent and may be lost at
  any time, they make up the system as its user sees it.
\<close>

subsection \<open>Dialling\<close>

definition wsURL :: "client_target \<Rightarrow> string" where
  "wsURL c = (case c of UnixSocket _ \<Rightarrow> ''ws://sandbox'' | BaseURL base _ \<Rightarrow> ''ws://'' @ drop (length ''http://'') base)"

definition target_token :: "client_target \<Rightarrow> string" where
  "target_token c = (case c of UnixSocket _ \<Rightarrow> [] | BaseURL _ token \<Rightarrow> token)"

text \<open>The URL and the authorization of the handshake.\<close>

definition DialShell :: "client_target \<Rightarrow> string \<Rightarrow> 16 word \<Rightarrow> 16 word \<Rightarrow> string \<times> string option" where
  "DialShell c sid cols rows =
     (wsURL c @ hq_target (client_request (ClientShell sid cols rows)), client_authorization (target_token c))"

subsection \<open>The local end\<close>

datatype shell_error = NotATerminal | ShellDialFailed | RawModeFailed

datatype ending = ReturnedNil | ExitCode int

text \<open>
  \<open>raw_mode\<close> is the state of the user's terminal, \<open>cancelled\<close> that of the context, \<open>typing\<close>
  whether the goroutine of standard input runs. \<open>keys\<close> records what it has read.
\<close>

record terminal =
  raw_mode :: bool
  cancelled :: bool
  typing :: bool
  keys :: string
  frames_sent :: "frame list"
  shown :: string
  over :: "ending option"

definition terminal0 :: terminal where
  "terminal0 = \<lparr>raw_mode = True, cancelled = False, typing = True, keys = [], frames_sent = [], shown = [], over = None\<rparr>"

text \<open>
  Up to the loop: \<open>tty\<close> whether standard input is a terminal, \<open>win\<close> what \<open>GetSize\<close> gives,
  \<open>dial\<close> whether the handshake succeeds, \<open>raw_ok\<close> whether \<open>MakeRaw\<close> does. \<open>uint16\<close> wraps.
\<close>

definition runShell :: "client_target \<Rightarrow> string \<Rightarrow> bool \<Rightarrow> (int \<times> int) option \<Rightarrow> (string \<times> string option \<Rightarrow> bool) \<Rightarrow> bool
    \<Rightarrow> (shell_error, terminal) result" where
  "runShell c sid tty win dial raw_ok =
     (if \<not> tty then Inl NotATerminal
      else (case (case win of None \<Rightarrow> (80, 24) | Some wh \<Rightarrow> wh) of (cols, rows) \<Rightarrow>
        if \<not> dial (DialShell c sid (word_of_int cols) (word_of_int rows)) then Inl ShellDialFailed
        else if \<not> raw_ok then Inl RawModeFailed
        else Inr terminal0))"

text \<open>One round of the goroutine of standard input: what \<open>Read\<close> gives, whether \<open>Write\<close> succeeds, whether \<open>Read\<close> has failed.\<close>

definition stop_typing :: "terminal \<Rightarrow> terminal" where
  "stop_typing t = t\<lparr>typing := False, cancelled := True\<rparr>"

definition stdin_turn :: "string \<Rightarrow> bool \<Rightarrow> bool \<Rightarrow> terminal \<Rightarrow> terminal" where
  "stdin_turn data ok eof t =
     (let t = t\<lparr>keys := keys t @ data\<rparr> in
      if data \<noteq> [] \<and> \<not> ok then stop_typing t
      else let t = (if data \<noteq> [] then t\<lparr>frames_sent := frames_sent t @ [Binary data]\<rparr> else t)
        in if eof then stop_typing t else t)"

definition winch_turn :: "(int \<times> int) option \<Rightarrow> bool \<Rightarrow> terminal \<Rightarrow> terminal" where
  "winch_turn win ok t =
     (case win of
        None \<Rightarrow> t
      | Some (cols, rows) \<Rightarrow>
          if ok then t\<lparr>frames_sent := frames_sent t @
            [TextFrame (Some \<lparr>sc_Type = ShellResize, sc_Cols = word_of_int cols, sc_Rows = word_of_int rows\<rparr>)]\<rparr>
          else t)"

datatype incoming = InBinary string | InText | InClose string | InError

text \<open>Returning runs the deferred \<open>Stop\<close>, \<open>restore\<close>, \<open>CloseNow\<close> and \<open>cancel\<close>; \<open>os.Exit\<close> runs none, so \<open>restore\<close> goes before it.\<close>

definition read_turn :: "incoming \<Rightarrow> terminal \<Rightarrow> terminal" where
  "read_turn i t =
     (let returned = t\<lparr>raw_mode := False, cancelled := True, over := Some ReturnedNil\<rparr> in
      case i of
        InBinary d \<Rightarrow> t\<lparr>shown := shown t @ d\<rparr>
      | InText \<Rightarrow> t
      | InError \<Rightarrow> returned
      | InClose reason \<Rightarrow>
          (case client_exit reason of
             None \<Rightarrow> returned
           | Some code \<Rightarrow> t\<lparr>raw_mode := False, over := Some (ExitCode code)\<rparr>))"

subsection \<open>Both ends\<close>

text \<open>
  What the agent takes in are the frames sent, in order; what is printed is what it has sent;
  its close is read after that. A read may fail at any time. A write with the context
  cancelled does not succeed.
\<close>

inductive shell_step :: "terminal \<times> session \<Rightarrow> terminal \<times> session \<Rightarrow> bool" where
  Keys: "over t = None \<Longrightarrow> typing t \<Longrightarrow> (ok \<longrightarrow> \<not> cancelled t) \<Longrightarrow> shell_step (t, s) (stdin_turn data ok eof t, s)"
| Winch: "over t = None \<Longrightarrow> (ok \<longrightarrow> \<not> cancelled t) \<Longrightarrow> shell_step (t, s) (winch_turn win ok t, s)"
| Guest: "session_step s s' \<Longrightarrow> prefix (received s') (frames_sent t) \<Longrightarrow> shell_step (t, s) (t, s')"
| Output: "over t = None \<Longrightarrow> prefix (shown t @ d) (sent s) \<Longrightarrow> shell_step (t, s) (read_turn (InBinary d) t, s)"
| Closed: "over t = None \<Longrightarrow> close_reason s = Some reason \<Longrightarrow> shown t = sent s \<Longrightarrow>
    shell_step (t, s) (read_turn (InClose reason) t, s)"
| Lost: "over t = None \<Longrightarrow> shell_step (t, s) (read_turn InError t, s)"

inductive_cases shell_stepE: "shell_step (t, s) (t', s')"

definition shell_init :: "terminal \<times> session \<Rightarrow> bool" where
  "shell_init p \<longleftrightarrow> fst p = terminal0 \<and> session_init (snd p)"

definition terminal_inv :: "terminal \<Rightarrow> bool" where
  "terminal_inv t \<longleftrightarrow> (raw_mode t \<longleftrightarrow> over t = None) \<and> prefix (typed (frames_sent t)) (keys t) \<and>
     (typing t \<longrightarrow> typed (frames_sent t) = keys t)"

definition shell_inv :: "terminal \<times> session \<Rightarrow> bool" where
  "shell_inv p \<longleftrightarrow> (case p of (t, s) \<Rightarrow>
     terminal_inv t \<and> session_inv s \<and> prefix (received s) (frames_sent t) \<and> prefix (shown t) (sent s) \<and>
     (\<forall>n. over t = Some (ExitCode n) \<longrightarrow>
        (\<exists>reason. close_reason s = Some reason \<and> client_exit reason = Some n) \<and> shown t = sent s))"

lemma stdin_turn_inv: "terminal_inv t \<Longrightarrow> typing t \<Longrightarrow> terminal_inv (stdin_turn data ok eof t)"
  by (auto simp: terminal_inv_def stdin_turn_def stop_typing_def Let_def typed_def)

lemma winch_turn_inv: "terminal_inv t \<Longrightarrow> terminal_inv (winch_turn win ok t)"
  by (auto simp: terminal_inv_def winch_turn_def typed_def split: option.split)

lemma read_turn_inv: "terminal_inv t \<Longrightarrow> over t = None \<Longrightarrow> terminal_inv (read_turn i t)"
  by (auto simp: terminal_inv_def read_turn_def Let_def split: incoming.split option.split)

lemma turn_frame:
  "shown (stdin_turn data ok eof t) = shown t" "over (stdin_turn data ok eof t) = over t"
  "prefix (frames_sent t) (frames_sent (stdin_turn data ok eof t))"
  "shown (winch_turn win ok t) = shown t" "over (winch_turn win ok t) = over t"
  "prefix (frames_sent t) (frames_sent (winch_turn win ok t))"
  "frames_sent (read_turn i t) = frames_sent t"
  by (auto simp: stdin_turn_def winch_turn_def stop_typing_def read_turn_def Let_def split: option.split incoming.split)

text \<open>Once the agent has closed with an exit code, what it has sent stays.\<close>

lemma closed_stays:
  assumes "session_inv s" "session_step s s'" "close_reason s = Some r"
  shows "close_reason s' = Some r \<and> sent s' = sent s"
  using assms(2,1,3) by (elim session_stepE) (auto simp: session_inv_def on_frame_def split: frame.split option.split)

lemma sent_grows: "session_step s s' \<Longrightarrow> prefix (sent s) (sent s')"
  by (erule session_stepE) (auto simp: on_frame_def split: frame.split option.split)

lemma shell_inv_step: "shell_inv p \<Longrightarrow> shell_step p q \<Longrightarrow> shell_inv q"
proof -
  assume inv: "shell_inv p" and step: "shell_step p q"
  from step inv show ?thesis
  proof (induction rule: shell_step.induct)
    case (Keys t ok s data eof)
    then show ?case by (auto simp: shell_inv_def stdin_turn_inv turn_frame intro: prefix_order.trans)
  next
    case (Winch t ok s win)
    then show ?case by (auto simp: shell_inv_def winch_turn_inv turn_frame intro: prefix_order.trans)
  next
    case (Guest s s' t)
    then have "prefix (shown t) (sent s')" using sent_grows by (auto simp: shell_inv_def intro: prefix_order.trans)
    with Guest show ?case using closed_stays session_inv_step by (fastforce simp: shell_inv_def)
  next
    case (Output t d s)
    then show ?case by (auto simp: shell_inv_def read_turn_inv turn_frame) (auto simp: read_turn_def)
  next
    case (Closed t s reason)
    then show ?case
      by (auto simp: shell_inv_def read_turn_inv turn_frame) (auto simp: read_turn_def Let_def split: option.splits)
  next
    case (Lost t s)
    then show ?case by (auto simp: shell_inv_def read_turn_inv turn_frame) (auto simp: read_turn_def)
  qed
qed

lemma shell_inv_init: "shell_init p \<Longrightarrow> shell_inv p"
  by (cases p) (auto simp: shell_init_def shell_inv_def terminal_inv_def terminal0_def session_inv_init typed_def session_init_def)

interpretation shell: inductive_invariant shell_init shell_step shell_inv
  by unfold_locales (fact shell_inv_init, fact shell_inv_step)

text \<open>
  C11: In every run of an interactive session, from the keyboard to the shell in the guest and
  back: the user's terminal is in raw mode exactly as long as the command runs; what the shell
  has been given is a prefix of what was typed and what is printed is a prefix of what the
  agent sent; and when the command exits with a code, that is the code the shell exited with,
  and everything the shell wrote has been printed unless a write of the agent failed.
\<close>
theorem shell_session_faithful:
  assumes "reach shell_init shell_step (t, s)"
    and "\<And>code. Shell.exit_status s = Some code \<Longrightarrow> - (2 ^ 63) \<le> code \<and> code < 2 ^ 63"
  shows "(raw_mode t \<longleftrightarrow> over t = None) \<and> prefix (pty_in s) (keys t) \<and> prefix (shown t) (sent s) \<and>
    (\<forall>n. over t = Some (ExitCode n) \<longrightarrow> Shell.exit_status s = Some n \<and> (write_failed s \<or> shown t = produced s))"
proof -
  have inv: "shell_inv (t, s)" by (rule shell.reach_inv [OF assms(1)])
  then have parts: "terminal_inv t" "session_inv s" "prefix (received s) (frames_sent t)" "prefix (shown t) (sent s)"
    by (simp_all add: shell_inv_def)
  have "prefix (typed (received s)) (typed (frames_sent t))"
    using parts(3) by (auto simp: prefix_def typed_def)
  then have "prefix (pty_in s) (keys t)"
    using parts(1,2) by (auto simp: terminal_inv_def session_inv_def intro: prefix_order.trans)
  moreover have "Shell.exit_status s = Some n \<and> (write_failed s \<or> shown t = produced s)" if n: "over t = Some (ExitCode n)" for n
  proof -
    obtain reason where r: "close_reason s = Some reason" "client_exit reason = Some n" "shown t = sent s"
      using inv n by (auto simp: shell_inv_def)
    then obtain code where code: "Shell.exit_status s = Some code" "reason = ShellExitPrefix @ itoa code" "output_done s"
      using parts(2) by (auto simp: session_inv_def)
    then have "n = code"
      using r(2) assms(2) Atoi_itoa_int by (simp add: client_exit_def atoi_value_def)
    with code r(3) parts(2) show ?thesis by (auto simp: session_inv_def)
  qed
  ultimately show ?thesis using parts by (auto simp: terminal_inv_def)
qed

text \<open>Concretely: a key is typed, the shell echoes it and exits with 7.\<close>

definition ended_pair :: "terminal \<times> session" where
  "ended_pair = (terminal0\<lparr>raw_mode := False, keys := ''q'', frames_sent := [Binary ''q''], shown := ''q'', over := Some (ExitCode 7)\<rparr>,
     session0\<lparr>pty_in := ''q'', received := [Binary ''q''], produced := ''q'', sent := ''q'', exit_status := Some 7, output_done := True,
       chosen := Some ShellExited, close_reason := Some (ShellExitPrefix @ itoa 7), group_killed := True, finished := True\<rparr>)"

lemma ended_pair_reach: "reach shell_init shell_step ended_pair"
proof -
  define t1 where "t1 = terminal0\<lparr>keys := ''q'', frames_sent := [Binary ''q'']\<rparr>"
  define s1 where "s1 = session0\<lparr>pty_in := ''q'', received := [Binary ''q'']\<rparr>"
  define s2 where "s2 = s1\<lparr>pending := [''q''], produced := ''q''\<rparr>"
  define s3 where "s3 = s2\<lparr>pending := [], sent := ''q''\<rparr>"
  define s4 where "s4 = s3\<lparr>exit_status := Some 7\<rparr>"
  define s5 where "s5 = s4\<lparr>output_done := True\<rparr>"
  define s6 where "s6 = s5\<lparr>chosen := Some ShellExited\<rparr>"
  define s7 where "s7 = s6\<lparr>close_reason := Some (ShellExitPrefix @ itoa 7), group_killed := True, finished := True\<rparr>"
  note defs = t1_def s1_def s2_def s3_def s4_def s5_def s6_def s7_def session0_def terminal0_def
  have guest: "reach shell_init shell_step (t1, s) \<Longrightarrow> session_step s s' \<Longrightarrow> received s' = [Binary ''q''] \<Longrightarrow> reach shell_init shell_step (t1, s')"
    for s s' by (erule reach_step) (rule Guest, simp_all add: t1_def)
  have "reach shell_init shell_step (terminal0, session0)"
    by (rule reach_init) (simp add: shell_init_def session_init_def session0_def)
  then have "reach shell_init shell_step (t1, session0)"
    by (rule reach_step) (use Keys [of terminal0 True session0 "''q''" False] in \<open>simp add: defs stdin_turn_def\<close>)
  then have "reach shell_init shell_step (t1, s1)"
    by (rule guest) (use Frame [of session0 "Binary ''q''"] in \<open>simp add: defs on_frame_def\<close>, simp add: defs)
  then have "reach shell_init shell_step (t1, s2)"
    by (rule guest) (use Produce [of s1 "''q''"] in \<open>simp add: defs\<close>, simp add: defs)
  then have "reach shell_init shell_step (t1, s3)"
    by (rule guest) (use Pump [of s2 "''q''" "[]"] in \<open>simp add: defs\<close>, simp add: defs)
  then have "reach shell_init shell_step (t1, s4)"
    by (rule guest) (use Exit [of s3 7] in \<open>simp add: defs\<close>, simp add: defs)
  then have "reach shell_init shell_step (t1, s5)"
    by (rule guest) (use PumpEnds [of s4] in \<open>simp add: defs\<close>, simp add: defs)
  then have "reach shell_init shell_step (t1, s6)"
    by (rule guest) (use SelectExited [of s5] in \<open>simp add: defs\<close>, simp add: defs)
  then have "reach shell_init shell_step (t1, s7)"
    by (rule guest) (use Close [of s6 7] in \<open>simp add: defs\<close>, simp add: defs)
  then have "reach shell_init shell_step (t1\<lparr>shown := ''q''\<rparr>, s7)"
    by (rule reach_step) (use Output [of t1 "''q''" s7] in \<open>simp add: defs read_turn_def\<close>)
  moreover have "client_exit (ShellExitPrefix @ itoa 7) = Some 7"
    using Atoi_itoa_int [of 7] by (simp add: client_exit_def atoi_value_def)
  ultimately have "reach shell_init shell_step (t1\<lparr>shown := ''q'', raw_mode := False, over := Some (ExitCode 7)\<rparr>, s7)"
    by - (erule reach_step, use Closed [of "t1\<lparr>shown := ''q''\<rparr>" s7 "ShellExitPrefix @ itoa 7"] in \<open>simp add: defs read_turn_def\<close>)
  then show ?thesis by (simp add: ended_pair_def defs)
qed

theorem shell_session_faithful_witness:
  "\<exists>t s. reach shell_init shell_step (t, s) \<and> over t = Some (ExitCode 7) \<and> Shell.exit_status s = Some 7 \<and>
     shown t = ''q'' \<and> produced s = ''q'' \<and> \<not> raw_mode t"
proof -
  obtain t s where p: "ended_pair = (t, s)" by fastforce
  have r: "reach shell_init shell_step (t, s)" using ended_pair_reach p by simp
  have f: "over t = Some (ExitCode 7)" "Shell.exit_status s = Some 7" "\<not> write_failed s" "shown t = ''q''"
    using p by (auto simp: ended_pair_def session0_def)
  have "raw_mode t = (over t = None)" "produced s = shown t"
    using shell_session_faithful [OF r] f by auto
  then show ?thesis using r f by auto
qed

text \<open>Before the loop, every failure leaves the terminal as it was: raw mode is the last thing to be set.\<close>

lemma runShell_starts: "runShell c sid tty win dial raw_ok = Inr t \<Longrightarrow> t = terminal0 \<and> tty \<and> raw_ok"
  by (auto simp: runShell_def split: if_splits prod.splits)

end
