(* ===== verification/Fleet_System.thy ===== *)
theory Fleet_System
  imports Fleet Races
begin

text \<open>
  The gateway and its hosts as one asynchronous system. Each host runs any number of jobs at
  once, one atomic step at a time; a heartbeat is read from its registry and arrives later, in
  any order or never; the gateway places creations and learns of their answers later; hosts
  and the gateway crash and start again. Whatever happens, a request for a sandbox is never
  sent to a host that does not have it while another has; and what is not excluded: a
  heartbeat overtaken by a creation hides the new sandbox.
\<close>

subsection \<open>Steps that only add rows of given identifiers\<close>

definition row_ids :: "server \<Rightarrow> string set" where
  "row_ids s = c_id ` set (sandboxes (reg_db s))"

definition adds_only :: "string set \<Rightarrow> server \<Rightarrow> server \<Rightarrow> bool" where
  "adds_only A s t \<longleftrightarrow> (registry_ok (reg_db s) \<longrightarrow> registry_ok (reg_db t)) \<and> row_ids t \<subseteq> row_ids s \<union> A"

interpretation adding: state_relation "adds_only A" for A
  by unfold_locales (auto simp: adds_only_def)

named_theorems io_adds \<open>programs that add rows of given identifiers only\<close>

lemma host_only_adds: "state_io_rel host_only m \<Longrightarrow> state_io_rel (adds_only A) m"
  by (simp add: state_io_rel_def adds_only_def row_ids_def) (metis host_onlyD order_refl le_supI1)

lemmas host_adds = io_host [THEN host_only_adds] call_host_only [THEN host_only_adds] stop_host_only [THEN host_only_adds]

lemma query_adds [io_adds]: "state_io_rel (adds_only A) (db_query E op f)"
  by (simp add: state_io_rel_def db_query_def adds_only_def row_ids_def)

lemma machines_adds [io_adds]:
  "state_io_rel (adds_only A) (machines_Store sid m)"
  "state_io_rel (adds_only A) (machines_Load sid)"
  "state_io_rel (adds_only A) (machines_LoadAndDelete sid)"
  by (simp_all add: state_io_rel_def adds_only_def row_ids_def machines_Store_def machines_Load_def machines_LoadAndDelete_def)

lemma update_adds:
  assumes "\<And>fl db. reg_step p db (snd (f fl db))"
    and "\<And>fl db. c_id ` set (sandboxes (snd (f fl db))) \<subseteq> c_id ` set (sandboxes db) \<union> A"
  shows "state_io_rel (adds_only A) (db_update E op f)"
  unfolding state_io_rel_def db_update_def
proof
  fix s :: server
  obtain r d where rd: "f (db_faults E (calls s) op) (reg_db s) = (r, d)" by fastforce
  show "adds_only A s (snd (run_state (State (\<lambda>s. case f (db_faults E (calls s) op) (reg_db s) of
      (r, d) \<Rightarrow> (r, s\<lparr>calls := calls s @ [DbOp op], reg_db := d\<rparr>))) s))"
    using assms(1) [THEN reg_step_ok [rotated], of "reg_db s" "db_faults E (calls s) op"]
      assms(2) [of "db_faults E (calls s) op" "reg_db s"]
    by (simp add: adds_only_def row_ids_def rd)
qed

lemma rows_inserted:
  "insert_sandbox r db = Inr db' \<Longrightarrow> sandboxes db' = sandboxes db @ [r]"
  "insert_port q db = Inr db' \<Longrightarrow> sandboxes db' = sandboxes db"
  "insert_snapshot n db = Inr db' \<Longrightarrow> sandboxes db' = sandboxes db"
  by (auto simp: insert_sandbox_def insert_port_def insert_snapshot_def split: if_splits)

lemma rows_created:
  "sid \<in> A \<Longrightarrow> c_id ` set (sandboxes (snd (Create p fl now sid path e db))) \<subseteq> c_id ` set (sandboxes db) \<union> A"
  "sid \<in> A \<Longrightarrow> c_id ` set (sandboxes (snd (CreateRestore p fl now sid path tap ip e db))) \<subseteq> c_id ` set (sandboxes db) \<union> A"
proof -
  obtain res db' where c: "Create p fl now sid path e db = (res, db')" by fastforce
  then show "sid \<in> A \<Longrightarrow> c_id ` set (sandboxes (snd (Create p fl now sid path e db))) \<subseteq> c_id ` set (sandboxes db) \<union> A"
    by (cases rule: Create_cases) (auto simp: c rows_inserted)
  obtain res db' where c: "CreateRestore p fl now sid path tap ip e db = (res, db')" by fastforce
  then show "sid \<in> A \<Longrightarrow> c_id ` set (sandboxes (snd (CreateRestore p fl now sid path tap ip e db))) \<subseteq> c_id ` set (sandboxes db) \<union> A"
    by (cases rule: CreateRestore_cases) (auto simp: c rows_inserted)
qed

lemma rows_kept:
  "c_id ` set (sandboxes (snd (Destroy fl sid db))) \<subseteq> c_id ` set (sandboxes db) \<union> A"
  "c_id ` set (sandboxes (snd (AddPort p fl sid gp db))) \<subseteq> c_id ` set (sandboxes db) \<union> A"
  "c_id ` set (sandboxes (snd (DeletePort fl sid gp db))) \<subseteq> c_id ` set (sandboxes db) \<union> A"
  "c_id ` set (sandboxes (snd (CreateSnapshot fl sn db))) \<subseteq> c_id ` set (sandboxes db) \<union> A"
  "c_id ` set (sandboxes (snd (DeleteSnapshot fl sid db))) \<subseteq> c_id ` set (sandboxes db) \<union> A"
proof -
  obtain res db' where c: "AddPort p fl sid gp db = (res, db')" by fastforce
  then show "c_id ` set (sandboxes (snd (AddPort p fl sid gp db))) \<subseteq> c_id ` set (sandboxes db) \<union> A"
    by (cases rule: AddPort_cases) (auto simp: c rows_inserted)
  obtain res db' where c: "CreateSnapshot fl sn db = (res, db')" by fastforce
  then show "c_id ` set (sandboxes (snd (CreateSnapshot fl sn db))) \<subseteq> c_id ` set (sandboxes db) \<union> A"
    unfolding CreateSnapshot_def by (auto simp: rows_inserted split: if_splits sum.splits)
qed (auto simp: Destroy_def DeletePort_def DeleteSnapshot_def delete_sandbox_def delete_ports_of_def
    delete_port_def delete_snapshot_def)

lemma rows_updated:
  "c_id ` set (sandboxes (snd (FinishStart fl sid pid vm sock db))) \<subseteq> c_id ` set (sandboxes db) \<union> A"
  "c_id ` set (sandboxes (snd (SetExpiry fl sid t db))) \<subseteq> c_id ` set (sandboxes db) \<union> A"
  by (auto simp: FinishStart_def SetExpiry_def update_sandbox_def)

lemmas update_io [io_adds] = update_adds [OF reg_step_ops(3) rows_updated(1)] update_adds [OF reg_step_ops(4) rows_updated(2)]
  update_adds [OF reg_step_ops(5) rows_kept(1)] update_adds [OF reg_step_ops(6) rows_kept(2)]
  update_adds [OF reg_step_ops(7) rows_kept(3)] update_adds [OF reg_step_ops(8) rows_kept(4)]
  update_adds [OF reg_step_ops(9) rows_kept(5)]

lemma registry_adds [io_adds]:
  "state_io_rel (adds_only A) (reg_Get E sid)"
  "state_io_rel (adds_only A) (reg_Ports E sid)"
  "state_io_rel (adds_only A) (reg_Destroy E sid)"
  "state_io_rel (adds_only A) (reg_FinishStart E sid pid rt)"
  "state_io_rel (adds_only A) (reg_GetSnapshot E snapID)"
  "sid \<in> A \<Longrightarrow> state_io_rel (adds_only A) (reg_Create E cfg sid path e)"
  "sid \<in> A \<Longrightarrow> state_io_rel (adds_only A) (reg_CreateRestore E cfg sid snap e)"
proof -
  note create = update_adds [OF reg_step_ops(1) rows_created(1)] update_adds [OF reg_step_ops(2) rows_created(2)]
  note now = adding.io_bind [OF call_host_only [THEN host_only_adds]]
  show "sid \<in> A \<Longrightarrow> state_io_rel (adds_only A) (reg_Create E cfg sid path e)"
    unfolding reg_Create_def by (intro now create)
  show "sid \<in> A \<Longrightarrow> state_io_rel (adds_only A) (reg_CreateRestore E cfg sid snap e)"
    unfolding reg_CreateRestore_def by (intro now create)
qed (unfold reg_Get_def reg_Ports_def reg_Destroy_def reg_FinishStart_def reg_GetSnapshot_def, (intro io_adds)+)

lemma start_adds: "state_io_rel (adds_only A) (serve_start E cfg)"
  unfolding serve_start_def reconcile_def reconcile_row_def
  by (intro adding.io_intros adding.io_each io_adds host_adds)+

subsection \<open>Jobs confined to the identifiers of their host\<close>

text \<open>
  Every step of a job keeps the registry well-formed and all its rows within \<open>A\<close>, whatever
  other jobs that do the same have done in between.
\<close>

definition rows_within :: "string set \<Rightarrow> server \<Rightarrow> bool" where
  "rows_within A s \<longleftrightarrow> registry_ok (reg_db s) \<and> row_ids s \<subseteq> A"

lemma adds_within: "adds_only A s t \<Longrightarrow> rows_within A s \<Longrightarrow> rows_within A t"
  by (auto simp: adds_only_def rows_within_def)

definition confined :: "string set \<Rightarrow> ('a \<Rightarrow> bool) \<Rightarrow> 'a server_task \<Rightarrow> bool" where
  "confined A Q t \<longleftrightarrow> safe (\<lambda>_. rows_within A) (\<lambda>x _. Q x) t ()"

text \<open>The identifiers a host gives its sandboxes.\<close>

definition issues :: "env \<Rightarrow> string set \<Rightarrow> bool" where
  "issues E A \<longleftrightarrow> (\<forall>cs. r_out (answer E cs NewUUID) \<in> A)"

lemma confined_Done: "Q x \<Longrightarrow> confined A Q (Done x)"
  by (simp add: confined_def safe_Done)

lemma confined_act:
  assumes "state_io_rel (adds_only A) m" "\<And>r. confined A Q (k r)"
  shows "confined A Q (act m k)"
  unfolding confined_def
  by (rule safe_act) (use assms(2) adds_within [OF adding.io_run [OF assms(1)]] in \<open>auto simp: confined_def\<close>)

text \<open>Steps whose answer matters: a new identifier, the rows of a creation.\<close>

lemma confined_answer:
  assumes "state_io_rel (adds_only A) m" "\<And>s r t. rows_within A s \<Longrightarrow> run_state m s = (r, t) \<Longrightarrow> P r"
    and "\<And>r. P r \<Longrightarrow> confined A Q (k r)"
  shows "confined A Q (act m k)"
  unfolding confined_def
  by (rule safe_act) (use assms(2,3) adds_within [OF adding.io_run [OF assms(1)]] in \<open>fastforce simp: confined_def\<close>)

lemma confined_uuid:
  "issues E A \<Longrightarrow> (\<And>u. r_out u \<in> A \<Longrightarrow> confined A Q (k u)) \<Longrightarrow> confined A Q (act (call E NewUUID) k)"
  by (rule confined_answer [where P = "\<lambda>u. r_out u \<in> A"]) (auto simp: issues_def host_adds)

lemma confined_create:
  assumes "sid \<in> A" "\<And>e. confined A Q (f e)" "\<And>sb. sb_id sb = sid \<Longrightarrow> confined A Q (g sb)"
  shows "confined A Q (act (reg_Create E cfg sid path ex) (\<lambda>r. case r of Inl e \<Rightarrow> f e | Inr sb \<Rightarrow> g sb))"
    and "confined A Q (act (reg_CreateRestore E cfg sid snap ex) (\<lambda>r. case r of Inl e \<Rightarrow> f e | Inr sb \<Rightarrow> g sb))"
proof -
  let ?P = "\<lambda>r. case r of Inl _ \<Rightarrow> True | Inr sb \<Rightarrow> sb_id sb = sid"
  have k: "confined A Q (case r of Inl e \<Rightarrow> f e | Inr sb \<Rightarrow> g sb)" if "?P r" for r
    using that assms(2,3) by (cases r) auto
  show "confined A Q (act (reg_Create E cfg sid path ex) (\<lambda>r. case r of Inl e \<Rightarrow> f e | Inr sb \<Rightarrow> g sb))"
    by (rule confined_answer [where P = ?P, OF registry_adds(6) [OF assms(1)] _ k])
      (auto simp: reg_Create_def db_update_def new_sandbox_def split: prod.splits elim!: Create_cases)
  show "confined A Q (act (reg_CreateRestore E cfg sid snap ex) (\<lambda>r. case r of Inl e \<Rightarrow> f e | Inr sb \<Rightarrow> g sb))"
    by (rule confined_answer [where P = ?P, OF registry_adds(7) [OF assms(1)] _ k])
      (auto simp: reg_CreateRestore_def db_update_def new_sandbox_def split: prod.splits elim!: CreateRestore_cases)
qed

lemma confined_bind:
  "confined A R t \<Longrightarrow> (\<And>x. R x \<Longrightarrow> confined A Q (k x)) \<Longrightarrow> confined A Q (t_bind t k)"
  unfolding confined_def
proof (erule safe_bind)
  show "(\<And>x. R x \<Longrightarrow> safe (\<lambda>_. rows_within A) (\<lambda>x _. Q x) (k x) ()) \<Longrightarrow> R x \<Longrightarrow>
      safe (\<lambda>_. rows_within A) (\<lambda>x _. Q x) (k x) g'" for x and g' :: unit
    by (cases g') simp
qed

lemma confined_mono: "confined A R t \<Longrightarrow> (\<And>x. R x \<Longrightarrow> Q x) \<Longrightarrow> confined A Q t"
  unfolding confined_def by (erule safe_mono) simp

lemma confined_weaken: "confined A R t \<Longrightarrow> confined A (\<lambda>_. True) t"
  by (erule confined_mono) simp

lemma confined_cases:
  "(\<And>e. confined A Q (f e)) \<Longrightarrow> (\<And>v. confined A Q (g v)) \<Longrightarrow> confined A Q (case r of Inl e \<Rightarrow> f e | Inr v \<Rightarrow> g v)"
  "confined A Q n \<Longrightarrow> (\<And>w. confined A Q (h w)) \<Longrightarrow> confined A Q (case x of None \<Rightarrow> n | Some w \<Rightarrow> h w)"
  "(\<And>a b. confined A Q (j a b)) \<Longrightarrow> confined A Q (case q of (a, b) \<Rightarrow> j a b)"
  "confined A Q t \<Longrightarrow> confined A Q u \<Longrightarrow> confined A Q (if c then t else u)"
  by (simp_all split: sum.split option.split prod.split)

text \<open>A created sandbox in the answer has an identifier of the host.\<close>

definition names_own :: "string set \<Rightarrow> response \<Rightarrow> bool" where
  "names_own A r \<longleftrightarrow> (\<forall>sb. snd r = BSandbox sb \<longrightarrow> sb_id sb \<in> A)"

lemma names_own_error [simp]: "names_own A (code, BError e)"
  by (simp add: names_own_def)

lemmas confined_steps = confined_act [OF registry_adds(1)] confined_act [OF registry_adds(2)] confined_act [OF registry_adds(3)]
  confined_act [OF registry_adds(4)] confined_act [OF registry_adds(5)] host_adds [THEN confined_act]
  query_adds [THEN confined_act] machines_adds [THEN confined_act] update_io [THEN confined_act]

lemma rollback_confined: "confined A Q k \<Longrightarrow> confined A Q (rollback_task E cfg sid sb k)"
  unfolding rollback_task_def by (intro confined_steps)

lemma destroy_confined: "confined A (\<lambda>_. True) (destroy_task E cfg sid)"
  unfolding destroy_task_def by (intro confined_steps confined_cases confined_Done TrueI)

lemma bring_up_confined:
  "sb_id sb \<in> A \<Longrightarrow> confined A (names_own A) (bring_up_task E cfg sid sb m rt err n)"
  unfolding bring_up_task_def
  by (intro confined_steps confined_cases rollback_confined confined_bind [OF destroy_confined] confined_Done)
    (simp_all add: names_own_def started_def)

lemma create_confined: "issues E A \<Longrightarrow> confined A (names_own A) (create_task E cfg rb)"
  unfolding create_task_def
  by (intro confined_uuid confined_create confined_steps confined_cases rollback_confined bring_up_confined confined_Done)
    simp_all

lemma restore_confined: "issues E A \<Longrightarrow> confined A (names_own A) (restore_task E cfg snapID rb)"
  unfolding restore_task_def
  by (intro confined_uuid confined_create confined_steps confined_cases rollback_confined bring_up_confined confined_Done)
    simp_all

lemma clone_confined: "issues E A \<Longrightarrow> confined A (\<lambda>_. True) (clone_task E cfg snap e)"
  unfolding clone_task_def
  by (intro confined_uuid confined_create confined_steps confined_cases rollback_confined confined_Done) simp_all

lemma finish_confined: "confined A (\<lambda>_. True) (finish_task E cfg sb m rt)"
  unfolding finish_task_def by (intro confined_cases confined_steps confined_Done TrueI)

lemma live_confined: "confined A (\<lambda>_. True) (live_task E cfg c)"
  unfolding live_task_def
  by (intro confined_cases confined_bind [OF finish_confined] confined_bind [OF destroy_confined] confined_Done TrueI)

lemma reap_rest_confined: "confined A (\<lambda>_. True) (reap_rest E cfg sbs)"
  by (induction sbs) (auto intro!: confined_bind [OF destroy_confined] confined_Done)

lemma request_confined:
  "confined A (\<lambda>_. True) (handleDestroy_task E cfg sid)"
  "confined A (\<lambda>_. True) (expose_task E cfg sid rb)"
  "confined A (\<lambda>_. True) (set_timeout_task E sid rb')"
  "confined A (\<lambda>_. True) (snapshot_task E cfg sid)"
  "confined A (\<lambda>_. True) (delete_snapshot_task E cfg sid)"
  "confined A (\<lambda>_. True) (reap_task E cfg now)"
  unfolding handleDestroy_task_def expose_task_def set_timeout_task_def snapshot_task_def delete_snapshot_task_def
    reap_task_def Let_def
  by (intro confined_bind [OF destroy_confined] confined_steps confined_cases reap_rest_confined confined_Done TrueI)+

lemma job_confined: "issues E A \<Longrightarrow> confined A (\<lambda>_. True) (job_task E cfg j)"
  by (cases j) (auto intro!: confined_bind [where R = "\<lambda>_. True"] confined_Done request_confined clone_confined live_confined
      confined_weaken [OF create_confined] confined_weaken [OF restore_confined])

subsection \<open>The system\<close>

text \<open>
  A host: its server and the jobs under way on it, each with whether the gateway waits for its
  answer. The system: the gateway, the hosts by their identity, heartbeats that have been
  read and not yet registered, and answers to the gateway's creations that it has not yet seen.
\<close>

record host_node =
  hn_server :: server
  hn_jobs :: "(bool \<times> job_result server_task) list"

record system =
  sy_gateway :: gateway
  sy_hosts :: "string \<Rightarrow> host_node"
  sy_beats :: "heartbeat list"
  sy_answers :: "(string \<times> response) list"

definition advertised :: "server_config \<Rightarrow> string" where
  "advertised cfg = (if AdvertiseAddr cfg = [] then ListenAddr cfg else AdvertiseAddr cfg)"

definition set_host :: "string \<Rightarrow> server \<Rightarrow> (bool \<times> job_result server_task) list \<Rightarrow> system \<Rightarrow> system" where
  "set_host hid s js y = y\<lparr>sy_hosts := (sy_hosts y)(hid := \<lparr>hn_server = s, hn_jobs = js\<rparr>)\<rparr>"

definition begin_job :: "string \<Rightarrow> bool \<Rightarrow> job_result server_task \<Rightarrow> system \<Rightarrow> system" where
  "begin_job hid v t y = set_host hid (hn_server (sy_hosts y hid)) (hn_jobs (sy_hosts y hid) @ [(v, t)]) y"

definition answers_of :: "bool \<Rightarrow> string \<Rightarrow> job_result \<Rightarrow> (string \<times> response) list" where
  "answers_of v hid x = (case x of Responded r \<Rightarrow> if v then [(hid, r)] else [] | _ \<Rightarrow> [])"

text \<open>A job ends: its answer is on its way when the gateway waits for it.\<close>

definition end_job :: "string \<Rightarrow> nat \<Rightarrow> system \<Rightarrow> system" where
  "end_job hid i y = (let n = sy_hosts y hid in
     case hn_jobs n ! i of
       (v, Done x) \<Rightarrow> (set_host hid (hn_server n) (take i (hn_jobs n) @ drop (Suc i) (hn_jobs n)) y)
                       \<lparr>sy_answers := sy_answers y @ answers_of v hid x\<rparr>
     | _ \<Rightarrow> y)"

text \<open>The process of a host dies, with its jobs and its machines in memory; it starts again on its registry file.\<close>

definition restart_host :: "env \<Rightarrow> server_config \<Rightarrow> string \<Rightarrow> system \<Rightarrow> system" where
  "restart_host E cfg hid y =
     set_host hid (snd (run_state (serve_start E cfg) ((hn_server (sy_hosts y hid))\<lparr>machines := (\<lambda>_. None)\<rparr>))) [] y"

text \<open>The gateway starts again, knowing nothing and waiting for no answer.\<close>

definition restart_gateway :: "string \<Rightarrow> int \<Rightarrow> system \<Rightarrow> system" where
  "restart_gateway token ttl y = y\<lparr>sy_gateway := New token ttl, sy_answers := [],
     sy_hosts := (\<lambda>hid. (sy_hosts y hid)\<lparr>hn_jobs := map (\<lambda>(v, t). (False, t)) (hn_jobs (sy_hosts y hid))\<rparr>)\<rparr>"

inductive sys_step :: "(string \<Rightarrow> env) \<Rightarrow> (string \<Rightarrow> server_config) \<Rightarrow> string \<Rightarrow> int \<Rightarrow> system \<Rightarrow> system \<Rightarrow> bool"
  for Es cfgs token ttl where
  place: "visits_all (sy_gateway y) order \<Longrightarrow> pickHost clock order (sy_gateway y) = Some h \<Longrightarrow>
    sys_step Es cfgs token ttl y
      (begin_job (host_id h) True (job_task (Es (host_id h)) (cfgs (host_id h)) (JCreate (create_request timeout))) y)"
| arrive: "sys_step Es cfgs token ttl y (begin_job hid False (job_task (Es hid) (cfgs hid) j) y)"
| work: "i < length (hn_jobs (sy_hosts y hid)) \<Longrightarrow> hn_jobs (sy_hosts y hid) ! i = (v, Step m) \<Longrightarrow>
    run_state m (hn_server (sy_hosts y hid)) = (t, s) \<Longrightarrow>
    sys_step Es cfgs token ttl y (set_host hid s ((hn_jobs (sy_hosts y hid))[i := (v, t)]) y)"
| finish: "i < length (hn_jobs (sy_hosts y hid)) \<Longrightarrow> hn_jobs (sy_hosts y hid) ! i = (v, Done x) \<Longrightarrow>
    sys_step Es cfgs token ttl y (end_job hid i y)"
| beat: "run_state (sendHeartbeat (Es hid) (cfgs hid) url hid (advertised (cfgs hid))) (hn_server (sy_hosts y hid)) = (r, s) \<Longrightarrow>
    sys_step Es cfgs token ttl y ((set_host hid s (hn_jobs (sy_hosts y hid)) y)
      \<lparr>sy_beats := sy_beats y @ (case r of None \<Rightarrow> [] | Some req \<Rightarrow> [hr_body req])\<rparr>)"
| deliver: "hb \<in> set (sy_beats y) \<Longrightarrow> handleRegister now (Decoded hb) (sy_gateway y) = (code, g) \<Longrightarrow>
    sys_step Es cfgs token ttl y (y\<lparr>sy_gateway := g, sy_beats := remove1 hb (sy_beats y)\<rparr>)"
| settle: "(hid, (code, BSandbox sb)) \<in> set (sy_answers y) \<Longrightarrow> code < 400 \<Longrightarrow>
    sys_step Es cfgs token ttl y (y\<lparr>sy_gateway := charge hid (sb_id sb) (sy_gateway y),
      sy_answers := remove1 (hid, (code, BSandbox sb)) (sy_answers y)\<rparr>)"
| prune: "visits_all (sy_gateway y) order \<Longrightarrow> sys_step Es cfgs token ttl y (y\<lparr>sy_gateway := prune_tick clock order (sy_gateway y)\<rparr>)"
| gateway_restart: "sys_step Es cfgs token ttl y (restart_gateway token ttl y)"
| host_restart: "sys_step Es cfgs token ttl y (restart_host (Es hid) (cfgs hid) hid y)"

subsection \<open>No sandbox is looked for on the wrong host\<close>

text \<open>
  Each host gives its sandboxes identifiers no other host gives: \<open>owner\<close> tells whose an
  identifier is.
\<close>

definition own :: "(string \<Rightarrow> string) \<Rightarrow> string \<Rightarrow> string set" where
  "own owner hid = {sid. owner sid = hid}"

definition answer_fine :: "bool \<Rightarrow> string set \<Rightarrow> job_result \<Rightarrow> bool" where
  "answer_fine v A x \<longleftrightarrow> (\<forall>r. v \<and> x = Responded r \<longrightarrow> names_own A r)"

definition host_fine :: "string set \<Rightarrow> host_node \<Rightarrow> bool" where
  "host_fine A n \<longleftrightarrow> rows_within A (hn_server n) \<and> (\<forall>(v, t) \<in> set (hn_jobs n). confined A (answer_fine v A) t)"

definition beat_fine :: "(string \<Rightarrow> server_config) \<Rightarrow> (string \<Rightarrow> string) \<Rightarrow> heartbeat \<Rightarrow> bool" where
  "beat_fine cfgs owner hb \<longleftrightarrow> set (hb_SandboxIDs hb) \<subseteq> own owner (hb_HostID hb) \<and>
     hb_Addr hb = advertised (cfgs (hb_HostID hb)) \<and> hb_Token hb = APIToken (cfgs (hb_HostID hb))"

definition gateway_fine :: "(string \<Rightarrow> server_config) \<Rightarrow> (string \<Rightarrow> string) \<Rightarrow> gateway \<Rightarrow> bool" where
  "gateway_fine cfgs owner g \<longleftrightarrow> hosts g [] = None \<and> (\<forall>sid hid. route g sid = Some hid \<longrightarrow> owner sid = hid) \<and>
     (\<forall>hid h. hosts g hid = Some h \<longrightarrow> host_id h = hid \<and> host_addr h = advertised (cfgs hid) \<and> host_token h = APIToken (cfgs hid))"

definition system_fine :: "(string \<Rightarrow> server_config) \<Rightarrow> (string \<Rightarrow> string) \<Rightarrow> system \<Rightarrow> bool" where
  "system_fine cfgs owner y \<longleftrightarrow> (\<forall>hid. host_fine (own owner hid) (sy_hosts y hid)) \<and>
     (\<forall>hb \<in> set (sy_beats y). beat_fine cfgs owner hb) \<and>
     (\<forall>(hid, r) \<in> set (sy_answers y). names_own (own owner hid) r) \<and> gateway_fine cfgs owner (sy_gateway y)"

text \<open>At the beginning nothing is under way and each registry holds only sandboxes of its host.\<close>

definition system_init :: "(string \<Rightarrow> string) \<Rightarrow> string \<Rightarrow> int \<Rightarrow> system \<Rightarrow> bool" where
  "system_init owner token ttl y \<longleftrightarrow> sy_gateway y = New token ttl \<and> sy_beats y = [] \<and> sy_answers y = [] \<and>
     (\<forall>hid. hn_jobs (sy_hosts y hid) = [] \<and> rows_within (own owner hid) (hn_server (sy_hosts y hid)))"

lemma gateway_fine_steps:
  "gateway_fine cfgs owner (New token ttl)"
  "gateway_fine cfgs owner g \<Longrightarrow> beat_fine cfgs owner hb \<Longrightarrow> gateway_fine cfgs owner (snd (handleRegister now (Decoded hb) g))"
  "gateway_fine cfgs owner g \<Longrightarrow> sid \<in> own owner hid \<Longrightarrow> gateway_fine cfgs owner (charge hid sid g)"
  "gateway_fine cfgs owner g \<Longrightarrow> gateway_fine cfgs owner (prune_tick clock order g)"
proof -
  show "gateway_fine cfgs owner (New token ttl)" by (simp add: gateway_fine_def New_def)
  show "gateway_fine cfgs owner g \<Longrightarrow> sid \<in> own owner hid \<Longrightarrow> gateway_fine cfgs owner (charge hid sid g)"
    by (auto simp: gateway_fine_def charge_def own_def split: option.splits)
  show "gateway_fine cfgs owner g \<Longrightarrow> gateway_fine cfgs owner (prune_tick clock order g)"
    by (auto simp: gateway_fine_def prune_tick_exact_hosts prune_tick_exact_routes split: option.splits)
  assume g: "gateway_fine cfgs owner g" and hb: "beat_fine cfgs owner hb"
  show "gateway_fine cfgs owner (snd (handleRegister now (Decoded hb) g))"
  proof (cases "hb_HostID hb = [] \<or> hb_Addr hb = []")
    case False
    with g hb have "hosts (register now hb g) [] = None"
      "route (register now hb g) sid = Some hid \<Longrightarrow> owner sid = hid"
      "hosts (register now hb g) hid = Some h \<Longrightarrow>
        host_id h = hid \<and> host_addr h = advertised (cfgs hid) \<and> host_token h = APIToken (cfgs hid)" for sid hid h
      by (auto simp: gateway_fine_def beat_fine_def own_def register_def Let_def fold_upd_routes drop_routes_def
          split: option.splits if_splits)
    with False show ?thesis by (simp add: handleRegister_def gateway_fine_def)
  qed (use g in \<open>auto simp: handleRegister_def\<close>)
qed

lemma set_host_fine:
  assumes "system_fine cfgs owner y" "rows_within (own owner hid) s"
    and "\<forall>(v, t) \<in> set js. confined (own owner hid) (answer_fine v (own owner hid)) t"
  shows "system_fine cfgs owner (set_host hid s js y)"
  using assms by (auto simp: system_fine_def set_host_def host_fine_def)

lemma system_fineD:
  assumes "system_fine cfgs owner y"
  shows "rows_within (own owner hid) (hn_server (sy_hosts y hid))"
    and "\<forall>(v, t) \<in> set (hn_jobs (sy_hosts y hid)). confined (own owner hid) (answer_fine v (own owner hid)) t"
  using assms by (simp_all add: system_fine_def host_fine_def)

lemma begin_fine:
  assumes "system_fine cfgs owner y" "confined (own owner hid) (answer_fine v (own owner hid)) t"
  shows "system_fine cfgs owner (begin_job hid v t y)"
  unfolding begin_job_def
  by (rule set_host_fine [OF assms(1) system_fineD(1) [OF assms(1)]]) (use assms(2) system_fineD(2) [OF assms(1), of hid] in auto)

lemma confined_placed: "issues E A \<Longrightarrow> confined A (answer_fine v A) (job_task E cfg (JCreate rb))"
  by (auto intro!: confined_bind [OF create_confined] confined_Done simp: answer_fine_def)

lemma confined_arrived: "issues E A \<Longrightarrow> confined A (answer_fine False A) (job_task E cfg j)"
  by (erule confined_mono [OF job_confined]) (simp add: answer_fine_def)

lemma confined_step:
  assumes "confined A Q (Step m)" "rows_within A s" "run_state m s = (t, s')"
  shows "rows_within A s' \<and> confined A Q t"
proof -
  have "safe (\<lambda>_. rows_within A) (\<lambda>x _. Q x) (Step m) ()" using assms(1) by (simp add: confined_def)
  then show ?thesis
  proof (cases rule: safe.cases)
    case safe_Step
    from safe_Step(1) [where gs = "[()]" and i = 0 and s = s] assms(2,3) show ?thesis by (auto simp: confined_def)
  qed
qed

lemma confined_end: "confined A Q (Done x) \<Longrightarrow> Q x"
  unfolding confined_def by (erule safe.cases) simp_all

lemma work_fine:
  assumes "system_fine cfgs owner y" "i < length (hn_jobs (sy_hosts y hid))" "hn_jobs (sy_hosts y hid) ! i = (v, Step m)"
    and "run_state m (hn_server (sy_hosts y hid)) = (t, s)"
  shows "system_fine cfgs owner (set_host hid s ((hn_jobs (sy_hosts y hid))[i := (v, t)]) y)"
proof -
  have "(v, Step m) \<in> set (hn_jobs (sy_hosts y hid))" using assms(2,3) by (metis nth_mem)
  then have "rows_within (own owner hid) s \<and> confined (own owner hid) (answer_fine v (own owner hid)) t"
    using confined_step [OF _ system_fineD(1) [OF assms(1)] assms(4)] system_fineD(2) [OF assms(1), of hid] by fast
  then show ?thesis
    by (intro set_host_fine [OF assms(1)]) (use system_fineD(2) [OF assms(1), of hid] in \<open>auto dest!: set_update_subset_insert [THEN subsetD]\<close>)
qed

lemma end_fine:
  assumes "system_fine cfgs owner y" "i < length (hn_jobs (sy_hosts y hid))" "hn_jobs (sy_hosts y hid) ! i = (v, Done x)"
  shows "system_fine cfgs owner (end_job hid i y)"
proof -
  let ?js = "hn_jobs (sy_hosts y hid)"
  have x: "(v, Done x) \<in> set ?js" using assms(2,3) by (metis nth_mem)
  have "answer_fine v (own owner hid) x" using confined_end system_fineD(2) [OF assms(1), of hid] x by fast
  then have "\<forall>(h, r) \<in> set (answers_of v hid x). names_own (own owner h) r"
    by (auto simp: answers_of_def answer_fine_def split: job_result.splits)
  moreover have "system_fine cfgs owner (set_host hid (hn_server (sy_hosts y hid)) (take i ?js @ drop (Suc i) ?js) y)"
    using system_fineD [OF assms(1), of hid] by (intro set_host_fine [OF assms(1)]) (auto dest: in_set_takeD in_set_dropD)
  moreover have "sy_answers (set_host hid s js y) = sy_answers y" for s js by (simp add: set_host_def)
  ultimately show ?thesis by (auto simp: end_job_def Let_def assms(3) system_fine_def)
qed

lemma sent_fine:
  assumes "system_fine cfgs owner y"
    and "run_state (sendHeartbeat E (cfgs hid) url hid (advertised (cfgs hid))) (hn_server (sy_hosts y hid)) = (r, s)"
  shows "system_fine cfgs owner ((set_host hid s (hn_jobs (sy_hosts y hid)) y)
    \<lparr>sy_beats := sy_beats y @ (case r of None \<Rightarrow> [] | Some req \<Rightarrow> [hr_body req])\<rparr>)"
proof -
  have adds: "adds_only A (hn_server (sy_hosts y hid)) s" for A
    using adding.io_run [OF _ assms(2)] unfolding sendHeartbeat_def by (metis adding.io_bind adding.io_return query_adds)
  have "beat_fine cfgs owner (hr_body req)" if "r = Some req" for req
    using sendHeartbeat_body [OF assms(2) [unfolded that]] system_fineD(1) [OF assms(1), of hid]
    by (auto simp: beat_fine_def running_ids_def rows_within_def row_ids_def)
  moreover have "system_fine cfgs owner (set_host hid s (hn_jobs (sy_hosts y hid)) y)"
    using system_fineD [OF assms(1), of hid] adds_within [OF adds] by (intro set_host_fine [OF assms(1)]) auto
  moreover have "sy_beats (set_host hid s js y) = sy_beats y" for js by (simp add: set_host_def)
  ultimately show ?thesis by (auto simp: system_fine_def split: option.split)
qed

lemma step_fine:
  assumes "sys_step Es cfgs token ttl y z" "\<forall>hid. issues (Es hid) (own owner hid)" "system_fine cfgs owner y"
  shows "system_fine cfgs owner z"
  using assms(1)
proof cases
  case (place clock order h timeout)
  show ?thesis unfolding place(1) using assms(2) by (intro begin_fine [OF assms(3)] confined_placed) simp
next
  case (arrive hid j)
  show ?thesis unfolding arrive(1) using assms(2) by (intro begin_fine [OF assms(3)] confined_arrived) simp
next
  case (work i hid v m t s)
  show ?thesis unfolding work(1) by (rule work_fine [OF assms(3) work(2-4)])
next
  case (finish i hid v x)
  show ?thesis unfolding finish(1) by (rule end_fine [OF assms(3) finish(2,3)])
next
  case (beat hid url r s)
  show ?thesis unfolding beat(1) by (rule sent_fine [OF assms(3) beat(2)])
next
  case (deliver hb now code g)
  have "gateway_fine cfgs owner (snd (handleRegister now (Decoded hb) (sy_gateway y)))"
    using assms(3) deliver(2) by (intro gateway_fine_steps(2)) (auto simp: system_fine_def)
  then show ?thesis using assms(3) deliver(3) unfolding deliver(1) by (auto simp: system_fine_def dest: notin_set_remove1)
next
  case (settle hid code sb)
  have "sb_id sb \<in> own owner hid" using assms(3) settle(2) by (auto simp: system_fine_def names_own_def)
  then show ?thesis using assms(3) gateway_fine_steps(3) unfolding settle(1)
    by (simp add: system_fine_def) (meson notin_set_remove1)
next
  case (prune clock order)
  then show ?thesis using assms(3) gateway_fine_steps(4) by (auto simp: system_fine_def)
next
  case gateway_restart
  then show ?thesis using assms(3) gateway_fine_steps(1)
    by (fastforce simp: system_fine_def restart_gateway_def host_fine_def answer_fine_def elim: confined_mono)
next
  case (host_restart hid)
  have "rows_within (own owner hid) ((hn_server (sy_hosts y hid))\<lparr>machines := (\<lambda>_. None)\<rparr>)"
    using system_fineD(1) [OF assms(3), of hid] by (simp add: rows_within_def row_ids_def)
  from adds_within [OF adding.io_run [OF start_adds prod.collapse [symmetric]] this]
  show ?thesis unfolding host_restart restart_host_def by (intro set_host_fine [OF assms(3)]) auto
qed

lemma init_fine: "system_init owner token ttl y \<Longrightarrow> system_fine cfgs owner y"
  by (simp add: system_init_def system_fine_def host_fine_def gateway_fine_steps(1))

interpretation fleet_system: inductive_invariant "system_init owner token ttl" "sys_step Es cfgs token ttl"
  "\<lambda>y. (\<forall>hid. issues (Es hid) (own owner hid)) \<longrightarrow> system_fine cfgs owner y" for Es cfgs owner token ttl
  by unfold_locales (auto intro: init_fine step_fine)

lemma never_misrouted:
  assumes "\<forall>hid. issues (Es hid) (own owner hid)"
    and "reach (system_init owner token ttl) (sys_step Es cfgs token ttl) y"
    and "find_sandbox sid (reg_db (hn_server (sy_hosts y hid))) = Some r"
  shows "(\<forall>hid'. find_sandbox sid (reg_db (hn_server (sy_hosts y hid'))) \<noteq> None \<longrightarrow> hid' = hid) \<and>
    handleProxyByID sid (sy_gateway y) \<in> {NotFound, Forward (advertised (cfgs hid))
      (if APIToken (cfgs hid) \<noteq> [] then Some (''Bearer '' @ APIToken (cfgs hid)) else None)}"
proof -
  have fine: "system_fine cfgs owner y"
    using fleet_system.reach_inv [OF assms(2)] assms(1) by blast
  have owned: "owner sid = k" if "find_sandbox sid (reg_db (hn_server (sy_hosts y k))) \<noteq> None" for k
    using that system_fineD(1) [OF fine, of k] by (auto simp: rows_within_def row_ids_def own_def dest: find_sandbox_SomeD)
  have g: "gateway_fine cfgs owner (sy_gateway y)" using fine by (simp add: system_fine_def)
  have "handleProxyByID sid (sy_gateway y) \<in> {NotFound, Forward (advertised (cfgs hid))
      (if APIToken (cfgs hid) \<noteq> [] then Some (''Bearer '' @ APIToken (cfgs hid)) else None)}"
    using g owned [of hid] assms(3)
    by (cases "route (sy_gateway y) sid") (auto simp: handleProxyByID_def gateway_fine_def split: option.split)
  moreover have "\<forall>hid'. find_sandbox sid (reg_db (hn_server (sy_hosts y hid'))) \<noteq> None \<longrightarrow> hid' = hid"
    using owned owned [of hid] assms(3) by simp
  ultimately show ?thesis by blast
qed

text \<open>
  C3: However the gateway and its hosts interleave, whatever heartbeats are late, overtaken or
  lost, whatever jobs run at once on the hosts and whatever crashes and starts again: a
  sandbox is on record at one host only, and a request for it is either sent to that host, at
  its own address and with its own token, or answered as unknown; it never reaches another.
\<close>
theorem fleet_never_misroutes:
  assumes "\<forall>hid. issues (Es hid) (own owner hid)"
    and "reach (system_init owner token ttl) (sys_step Es cfgs token ttl) y"
    and "find_sandbox sid (reg_db (hn_server (sy_hosts y hid))) = Some r"
  shows "(\<forall>hid'. find_sandbox sid (reg_db (hn_server (sy_hosts y hid'))) \<noteq> None \<longrightarrow> hid' = hid) \<and>
    handleProxyByID sid (sy_gateway y) \<in> {NotFound, Forward (advertised (cfgs hid))
      (if APIToken (cfgs hid) \<noteq> [] then Some (''Bearer '' @ APIToken (cfgs hid)) else None)}"
  by (rule never_misrouted [OF assms])

subsection \<open>Routes come back\<close>

abbreviation sys_steps :: "(string \<Rightarrow> env) \<Rightarrow> (string \<Rightarrow> server_config) \<Rightarrow> string \<Rightarrow> int \<Rightarrow> system \<Rightarrow> system \<Rightarrow> bool" where
  "sys_steps Es cfgs token ttl \<equiv> (sys_step Es cfgs token ttl)\<^sup>*\<^sup>*"

lemma reach_steps: "(step)\<^sup>*\<^sup>* y z \<Longrightarrow> reach I step y \<Longrightarrow> reach I step z"
  by (induction rule: rtranclp_induct) (auto intro: reach_step)

lemma set_host_simps [simp]:
  "sy_gateway (set_host hid s js y) = sy_gateway y" "sy_beats (set_host hid s js y) = sy_beats y"
  "sy_answers (set_host hid s js y) = sy_answers y"
  "sy_hosts (set_host hid s js y) k = (if k = hid then \<lparr>hn_server = s, hn_jobs = js\<rparr> else sy_hosts y k)"
  "set_host hid s js (set_host hid s' js' y) = set_host hid s js y"
  by (simp_all add: set_host_def)

text \<open>The rows of a host as its last heartbeat, delivered at once, makes the gateway see them.\<close>

lemma beat_and_deliver:
  assumes "hid \<noteq> []" "advertised (cfgs hid) \<noteq> []"
    and "db_faults (Es hid) (calls (hn_server (sy_hosts y hid))) OpList = no_faults"
  shows "\<exists>z. sys_steps Es cfgs token ttl y z \<and>
    reg_db (hn_server (sy_hosts z hid)) = reg_db (hn_server (sy_hosts y hid)) \<and>
    (\<forall>sid. route (sy_gateway z) sid = Some hid \<longleftrightarrow> sid \<in> running_ids (reg_db (hn_server (sy_hosts y hid)))) \<and>
    (\<exists>h. hosts (sy_gateway z) hid = Some h \<and> host_addr h = advertised (cfgs hid) \<and> host_token h = APIToken (cfgs hid))"
proof -
  let ?s = "hn_server (sy_hosts y hid)" and ?js = "hn_jobs (sy_hosts y hid)"
  obtain req s where run: "run_state (sendHeartbeat (Es hid) (cfgs hid) [] hid (advertised (cfgs hid))) ?s = (Some req, s)"
    using assms(3) by (fastforce simp: sendHeartbeat_def db_query_def List_def)
  note body = sendHeartbeat_body [OF run]
  define x where "x = (set_host hid s ?js y)\<lparr>sy_beats := sy_beats y @ [hr_body req]\<rparr>"
  define z where "z = x\<lparr>sy_gateway := register 0 (hr_body req) (sy_gateway y), sy_beats := remove1 (hr_body req) (sy_beats x)\<rparr>"
  have "sys_step Es cfgs token ttl y x"
    using beat [of Es hid cfgs "[]" y "Some req" s token ttl] run by (simp add: x_def)
  moreover have "handleRegister 0 (Decoded (hr_body req)) (sy_gateway x) = (204, register 0 (hr_body req) (sy_gateway y))"
    using body assms(1,2) by (simp add: handleRegister_def x_def)
  then have "sys_step Es cfgs token ttl x z"
    unfolding z_def by (intro deliver) (auto simp: x_def)
  ultimately have "sys_steps Es cfgs token ttl y z" by (metis converse_rtranclp_into_rtranclp r_into_rtranclp)
  moreover have "route (sy_gateway z) sid = Some hid \<longleftrightarrow> sid \<in> running_ids (reg_db ?s)" for sid
    using body by (simp add: z_def register_route)
  moreover have "\<exists>h. hosts (sy_gateway z) hid = Some h \<and> host_addr h = advertised (cfgs hid) \<and> host_token h = APIToken (cfgs hid)"
    using body by (simp add: z_def register_def Let_def split: option.split)
  moreover have "reg_db (hn_server (sy_hosts z hid)) = reg_db ?s"
    using body by (simp add: z_def x_def)
  ultimately show ?thesis by blast
qed


subsection \<open>A heartbeat that a creation overtakes\<close>

text \<open>A job that has the host to itself.\<close>

lemma undisturbed_job:
  "run_state (run_task t) s = (x, s') \<Longrightarrow>
     sys_steps Es cfgs token ttl (set_host hid s (js @ [(v, t)]) y) (set_host hid s' (js @ [(v, Done x)]) y)"
proof (induction t arbitrary: s rule: task_induct)
  case (Done z)
  then show ?case by simp
next
  case (Step m)
  obtain t u where m: "run_state m s = (t, u)" by fastforce
  have "sys_step Es cfgs token ttl (set_host hid s (js @ [(v, Step m)]) y) (set_host hid u (js @ [(v, t)]) y)"
    using work [of "length js" "set_host hid s (js @ [(v, Step m)]) y" hid v m t u Es cfgs token ttl] m by simp
  moreover have "sys_steps Es cfgs token ttl (set_host hid u (js @ [(v, t)]) y) (set_host hid s' (js @ [(v, Done x)]) y)"
    using Step.IH [of s u] Step.prems m by simp
  ultimately show ?case by (rule converse_rtranclp_into_rtranclp)
qed

definition node_at :: "(string \<Rightarrow> env) \<Rightarrow> (string \<Rightarrow> server_config) \<Rightarrow> system \<Rightarrow> string \<Rightarrow> node" where
  "node_at Es cfgs y hid = \<lparr>node_env = Es hid, node_cfg = cfgs hid, node_state = hn_server (sy_hosts y hid)\<rparr>"

text \<open>A creation through the gateway, from the placement to the answer to the client, undisturbed.\<close>

lemma create_through:
  assumes "visits_all (sy_gateway y) order" "pickHost clock order (sy_gateway y) = Some h" "host_id h = hid"
    and "hosts (sy_gateway y) hid = Some h" "node_ready (node_at Es cfgs y hid)"
    and "int (length (sandboxes (reg_db (hn_server (sy_hosts y hid))))) < Slots (RegPools (cfgs hid))"
  shows "\<exists>z. sys_steps Es cfgs token ttl y z \<and> sy_beats z = sy_beats y \<and>
    (let sid = fresh_id (Es hid) (hn_server (sy_hosts y hid)) in
     find_sandbox sid (reg_db (hn_server (sy_hosts z hid))) \<noteq> None \<and> machines (hn_server (sy_hosts z hid)) sid \<noteq> None \<and>
     (\<exists>auth. handleProxyByID sid (sy_gateway z) = Forward (host_addr h) auth))"
proof -
  let ?E = "Es hid" and ?cfg = "cfgs hid" and ?s = "hn_server (sy_hosts y hid)" and ?js = "hn_jobs (sy_hosts y hid)"
  let ?t = "job_task ?E ?cfg (JCreate (create_request 0))" and ?sid = "fresh_id (Es hid) (hn_server (sy_hosts y hid))"
  obtain lo hi where ready: "all_well ?E" "registry_ok (reg_db ?s)" "tracked_ok ?s"
      "ip_range (RegPools ?cfg) = Some (lo, hi)" "lo \<le> hi" "hi \<noteq> - 1"
      "length (sandboxes (reg_db ?s)) + length (sandbox_ports (reg_db ?s)) < length (port_slots (RegPools ?cfg))"
      "find_sandbox (fresh_id ?E ?s) (reg_db ?s) = None" "ParseIP (ServerGatewayIP ?cfg) \<noteq> None"
    using assms(5) by (auto simp: node_ready_def node_at_def Let_def split: option.splits)
  obtain code b t where run: "run_state (handleCreate ?E ?cfg (create_request 0)) ?s = ((code, b), t)"
    by (metis prod.exhaust)
  have "code = 201"
    using wp_run [OF run create_well [OF ready(1,2) create_request_timeout ready(4-6) assms(6) ready(7-9)]] by simp
  then obtain sb m where sb: "b = BSandbox sb" "sb_id sb = ?sid" "machines t = (machines ?s)(?sid \<mapsto> m)"
      "Get no_faults ?sid (reg_db t) = Inr (whole_seconds sb)"
    using wp_run [OF run handleCreate_wp [OF all_well_cleanup [OF ready(1)] ready(2,3)]] by (auto simp: create_post_def)
  have "run_state (run_task ?t) ?s = (Responded (201, BSandbox sb), t)"
    using run sb(1) \<open>code = 201\<close> by (simp add: requests_alone)
  note runs = undisturbed_job [OF this, of Es cfgs token ttl hid ?js True y]
  let ?w = "set_host hid t (?js @ [(True, Done (Responded (201, BSandbox sb)))]) y"
  let ?a = "(set_host hid t ?js y)\<lparr>sy_answers := sy_answers y @ [(hid, (201, BSandbox sb))]\<rparr>"
  let ?z = "?a\<lparr>sy_gateway := charge hid ?sid (sy_gateway y), sy_answers := remove1 (hid, (201, BSandbox sb)) (sy_answers ?a)\<rparr>"
  have "sys_step Es cfgs token ttl y (set_host hid ?s (?js @ [(True, ?t)]) y)"
    using place [OF assms(1,2), of Es cfgs token ttl 0] assms(3) by (simp add: begin_job_def)
  moreover have "sys_step Es cfgs token ttl ?w ?a"
    using finish [of "length ?js" ?w hid True "Responded (201, BSandbox sb)" Es cfgs token ttl]
    by (simp add: end_job_def answers_of_def Let_def)
  moreover have "sys_step Es cfgs token ttl ?a ?z"
    using settle [of hid 201 sb ?a Es cfgs token ttl] sb(2) by simp
  ultimately have "sys_steps Es cfgs token ttl y ?z" using runs by (meson converse_rtranclp_into_rtranclp rtranclp.rtrancl_into_rtrancl)
  moreover have "find_sandbox ?sid (reg_db t) \<noteq> None" using sb(4) by (auto simp: Get_no_faults split: option.splits)
  moreover have "hosts (charge hid ?sid (sy_gateway y)) hid = Some (h\<lparr>slotsUsed := wrap64 (slotsUsed h + 1)\<rparr>)"
    "route (charge hid ?sid (sy_gateway y)) ?sid = Some hid"
    using assms(4) by (simp_all add: charge_def)
  then have "\<exists>auth. handleProxyByID ?sid (sy_gateway ?z) = Forward (host_addr h) auth"
    by (simp add: handleProxyByID_def)
  ultimately show ?thesis using sb(3) by (intro exI [of _ ?z]) (simp add: Let_def)
qed


subsection \<open>Placements before the first answer\<close>

lemma begin_job_simps [simp]:
  "sy_gateway (begin_job hid v t y) = sy_gateway y" "sy_answers (begin_job hid v t y) = sy_answers y"
  "hn_server (sy_hosts (begin_job hid v t y) k) = hn_server (sy_hosts y k)"
  "hn_jobs (sy_hosts (begin_job hid v t y) k) = hn_jobs (sy_hosts y k) @ (if k = hid then [(v, t)] else [])"
  by (simp_all add: begin_job_def)


subsection \<open>Witnesses\<close>

text \<open>Hosts that give their sandboxes their own name, with and without a sandbox at the beginning.\<close>

definition named_env :: "string \<Rightarrow> env" where
  "named_env hid = sunny\<lparr>answer := (\<lambda>cs c. if c = NewUUID then \<lparr>r_ok = True, r_out = hid, r_num = 0, r_ns = 0\<rparr> else answer sunny cs c)\<rparr>"

lemma named_issues: "\<forall>hid. issues (named_env hid) (own (\<lambda>x. x) hid)"
  by (simp add: issues_def own_def named_env_def)

lemma named_faults [simp]: "db_faults (named_env hid) h op = no_faults"
  by (simp add: named_env_def sunny_def)

definition system_a :: system where
  "system_a = \<lparr>sy_gateway = New ''t'' 10,
     sy_hosts = (\<lambda>hid. \<lparr>hn_server = (if hid = ''a'' then server_a else server0), hn_jobs = []\<rparr>), sy_beats = [], sy_answers = []\<rparr>"

lemma system_a_init: "system_init (\<lambda>x. x) ''t'' 10 system_a"
  by (simp add: system_init_def system_a_def rows_within_def row_ids_def own_def server_a_def server0_def db_a_ok empty_db_ok)
    (simp add: db_a_def row_a_def new_row_def empty_db_def)

lemma host_cfg_facts: "advertised host_cfg = ''10.0.0.9:8080''" "APIToken host_cfg = []"
  by (simp_all add: advertised_def host_cfg_def sample_cfg_def)

lemma a_found: "find_sandbox ''a'' (reg_db server_a) = Some row_a" "''a'' \<in> running_ids (reg_db server_a)"
  by (simp_all add: find_sandbox_def running_ids_def server_a_def db_a_def row_a_def new_row_def running_def)

lemma a_reach: "reach (system_init (\<lambda>x. x) ''t'' 10) (sys_step named_env (\<lambda>_. host_cfg) ''t'' 10) system_a"
  by (rule reach_init) (rule system_a_init)


theorem fleet_never_misroutes_witness:
  "\<exists>z. sys_steps named_env (\<lambda>_. host_cfg) ''t'' 10 system_a z \<and> handleProxyByID ''a'' (sy_gateway z) = Forward ''10.0.0.9:8080'' None \<and>
     find_sandbox ''a'' (reg_db (hn_server (sy_hosts z ''b''))) = None"
proof -
  have a: "sy_hosts system_a ''a'' = \<lparr>hn_server = server_a, hn_jobs = []\<rparr>" by (simp add: system_a_def)
  obtain z h where z: "sys_steps named_env (\<lambda>_. host_cfg) ''t'' 10 system_a z"
      "reg_db (hn_server (sy_hosts z ''a'')) = reg_db server_a" "route (sy_gateway z) ''a'' = Some ''a''"
      "hosts (sy_gateway z) ''a'' = Some h"
    using beat_and_deliver [of "''a''" "\<lambda>_. host_cfg" named_env system_a "''t''" 10] a_found(2) by (auto simp: host_cfg_facts a)
  have "find_sandbox ''a'' (reg_db (hn_server (sy_hosts z ''a''))) = Some row_a" using z(2) a_found(1) by simp
  from fleet_never_misroutes [OF named_issues reach_steps [OF z(1) a_reach] this] z
  show ?thesis by (intro exI [of _ z]) (auto simp: host_cfg_facts handleProxyByID_def)
qed

definition hb_idle :: heartbeat where
  "hb_idle = \<lparr>hb_HostID = ''h'', hb_Addr = ''10.0.0.9:8080'', hb_Token = [], hb_SlotsTotal = 2, hb_SlotsUsed = 0, hb_SandboxIDs = []\<rparr>"

definition system_idle :: "gateway \<Rightarrow> host_call list \<Rightarrow> heartbeat list \<Rightarrow> system" where
  "system_idle g cs hbs = \<lparr>sy_gateway = g,
     sy_hosts = (\<lambda>hid. \<lparr>hn_server = (if hid = ''h'' then server0\<lparr>calls := cs\<rparr> else server0), hn_jobs = []\<rparr>),
     sy_beats = hbs, sy_answers = []\<rparr>"

lemma idle_simps [simp]:
  "sy_gateway (system_idle g cs hbs) = g" "sy_beats (system_idle g cs hbs) = hbs"
  "sy_hosts (system_idle g cs hbs) ''h'' = \<lparr>hn_server = server0\<lparr>calls := cs\<rparr>, hn_jobs = []\<rparr>"
  "(system_idle g cs hbs)\<lparr>sy_gateway := g', sy_beats := hbs'\<rparr> = system_idle g' cs hbs'"
  by (simp_all add: system_idle_def)

lemma idle_beat:
  "sys_step named_env (\<lambda>_. host_cfg) ''t'' 10 (system_idle g cs hbs) (system_idle g (cs @ [DbOp OpList]) (hbs @ [hb_idle]))"
proof -
  have "run_state (sendHeartbeat (named_env ''h'') host_cfg [] ''h'' (advertised host_cfg)) (server0\<lparr>calls := cs\<rparr>) =
    (Some \<lparr>hr_url = [], hr_body = hb_idle, hr_authorization = None\<rparr>, server0\<lparr>calls := cs @ [DbOp OpList]\<rparr>)"
    by (simp add: sendHeartbeat_def db_query_def List_def heartbeat_of_def collectSandboxes_def server0_def empty_db_def
        no_faults_def host_cfg_def sample_cfg_def Slots_sample hb_idle_def advertised_def)
  then have "sys_step named_env (\<lambda>_. host_cfg) ''t'' 10 (system_idle g cs hbs)
      ((set_host ''h'' (server0\<lparr>calls := cs @ [DbOp OpList]\<rparr>) [] (system_idle g cs hbs))\<lparr>sy_beats := hbs @ [hb_idle]\<rparr>)"
    using beat [of named_env "''h''" "\<lambda>_. host_cfg" "[]" "system_idle g cs hbs"
        "Some \<lparr>hr_url = [], hr_body = hb_idle, hr_authorization = None\<rparr>" _ "''t''" 10] by simp
  moreover have "(set_host ''h'' (server0\<lparr>calls := cs @ [DbOp OpList]\<rparr>) [] (system_idle g cs hbs))\<lparr>sy_beats := hbs @ [hb_idle]\<rparr> =
      system_idle g (cs @ [DbOp OpList]) (hbs @ [hb_idle])"
    by (auto simp: system_idle_def set_host_def fun_eq_iff)
  ultimately show ?thesis by simp
qed

lemma idle_reach:
  "reach (system_init (\<lambda>x. x) ''t'' 10) (sys_step named_env (\<lambda>_. host_cfg) ''t'' 10)
     (system_idle gw_one [DbOp OpList, DbOp OpList] [hb_idle])"
proof -
  have "reach (system_init (\<lambda>x. x) ''t'' 10) (sys_step named_env (\<lambda>_. host_cfg) ''t'' 10) (system_idle (New ''t'' 10) [] [])"
    by (rule reach_init) (simp add: system_init_def system_idle_def rows_within_def row_ids_def server0_def empty_db_ok,
      simp add: empty_db_def)
  note beaten = reach_step [OF this idle_beat, simplified]
  have "handleRegister 3 (Decoded hb_idle) (New ''t'' 10) = (204, gw_one)"
    by (simp add: handleRegister_def hb_idle_def gw_one_def)
  then have "sys_step named_env (\<lambda>_. host_cfg) ''t'' 10 (system_idle (New ''t'' 10) [DbOp OpList] [hb_idle])
      (system_idle gw_one [DbOp OpList] [])"
    using deliver [of hb_idle "system_idle (New ''t'' 10) [DbOp OpList] [hb_idle]"] by fastforce
  from reach_step [OF beaten this]
  have "reach (system_init (\<lambda>x. x) ''t'' 10) (sys_step named_env (\<lambda>_. host_cfg) ''t'' 10) (system_idle gw_one [DbOp OpList] [])" .
  from reach_step [OF this idle_beat] show ?thesis by simp
qed

lemma named_well: "all_well (named_env hid)"
  by (simp add: all_well_def named_env_def sunny_def db_reliable_def)



end
