(* ===== verification/Fleet_Requests.thy ===== *)
theory Fleet_Requests
  imports Fleet_System Gateway_Api
begin

text \<open>
  A request about a sandbox on its way through the gateway: authorised there, matched by the
  gateway's mux, sent to the owning host with that host's token in place of the client's, and
  served by the host behind its own token. The client gets what the host would have answered
  it on its socket.
\<close>

text \<open>
  The reverse proxy of \<open>handleProxyByID\<close> with the host at its other end; \<open>dial\<close> tells which
  host, if any, listens at an address. Without a token for the host the client's header is deleted.
\<close>

datatype gateway_reply = Refused nat | Relayed "response option"

definition gateway_forward :: "(string \<Rightarrow> 'digest) \<Rightarrow> (string \<Rightarrow> env) \<Rightarrow> (string \<Rightarrow> server_config)
    \<Rightarrow> (string \<Rightarrow> agent_request \<Rightarrow> agent_answer) \<Rightarrow> (string \<Rightarrow> string option) \<Rightarrow> string \<Rightarrow> api_request \<Rightarrow> system
    \<Rightarrow> gateway_reply \<times> system" where
  "gateway_forward sha256 Es cfgs agents dial sid rq y =
     (case handleProxyByID sid (sy_gateway y) of
        NotFound \<Rightarrow> (Refused 404, y)
      | Forward addr auth \<Rightarrow>
     (case dial addr of
        None \<Rightarrow> (Refused 502, y)
      | Some hid \<Rightarrow>
     (case run_state (serve_tcp sha256 (Es hid) (cfgs hid) (agents hid) (case auth of None \<Rightarrow> [] | Some a \<Rightarrow> a) rq)
         (hn_server (sy_hosts y hid)) of
        (r, s) \<Rightarrow> (Relayed r, set_host hid s (hn_jobs (sy_hosts y hid)) y))))"

text \<open>What an authorised request about a sandbox comes to at the gateway.\<close>

definition gateway_request :: "(string \<Rightarrow> 'digest) \<Rightarrow> (string \<Rightarrow> env) \<Rightarrow> (string \<Rightarrow> server_config)
    \<Rightarrow> (string \<Rightarrow> agent_request \<Rightarrow> agent_answer) \<Rightarrow> (string \<Rightarrow> string option) \<Rightarrow> string \<Rightarrow> api_request \<Rightarrow> system
    \<Rightarrow> (gateway_reply \<times> system) option" where
  "gateway_request sha256 Es cfgs agents dial authorization rq y =
     (case gateway_serve sha256 (sy_gateway y) authorization (rq_method rq) (rq_path rq) of
        GwUnauthorized \<Rightarrow> Some (Refused 401, y)
      | GwHandled GProxy sid \<Rightarrow> Some (gateway_forward sha256 Es cfgs agents dial sid rq y)
      | _ \<Rightarrow> None)"

lemma proxied_route:
  "route_request rq = Some (h, sid) \<Longrightarrow> stands_in h = Some GProxy \<Longrightarrow> gateway_route (rq_method rq) (rq_path rq) = Some (GProxy, sid)"
proof -
  assume "route_request rq = Some (h, sid)" and h: "stands_in h = Some GProxy"
  then obtain p where "p \<in> set api_routes" "match_route rq p = Some (h, sid)" using routed by blast
  with h show ?thesis
    by (auto simp: api_routes_def match_route_def match_path_iff gateway_route_def Let_def split: if_splits)
qed

text \<open>
  C8: The gateway is transparent: in every state the system can get into, a request about a
  sandbox that carries the gateway's token is answered exactly as the sandbox's host answers
  it on its own socket, and only that host's state changes; or, while the gateway has no
  route to it, with 404 and no effect. No other host ever sees the request.
\<close>
theorem gateway_transparent:
  assumes "\<forall>hid. issues (Es hid) (own owner hid)"
    and "reach (system_init owner token ttl) (sys_step Es cfgs token ttl) y"
    and "find_sandbox sid (reg_db (hn_server (sy_hosts y hid))) = Some row"
    and "dial (advertised (cfgs hid)) = Some hid" "APIToken (cfgs hid) \<noteq> []"
    and "route_request rq = Some (h, sid)" "stands_in h = Some GProxy"
    and "run_state (serve_request (Es hid) (cfgs hid) (agents hid) rq) (hn_server (sy_hosts y hid)) = (r, s)"
  shows "gateway_request sha256 Es cfgs agents dial (''Bearer '' @ gw_token (sy_gateway y)) rq y \<in>
    {Some (Relayed r, set_host hid s (hn_jobs (sy_hosts y hid)) y), Some (Refused 404, y)}"
proof -
  have "handleProxyByID sid (sy_gateway y) \<in> {NotFound, Forward (advertised (cfgs hid)) (Some (''Bearer '' @ APIToken (cfgs hid)))}"
    using never_misrouted [OF assms(1-3)] assms(5) by simp
  then show ?thesis
    using assms(4,8) proxied_route [OF assms(6,7)]
    by (auto simp: gateway_request_def gateway_serve_def bearerAuth_def gateway_forward_def serve_tcp_def)
qed

definition get_a :: api_request where
  "get_a = get_rq\<lparr>rq_method := ''GET'', rq_path := [''sandboxes'', ''a'']\<rparr>"

theorem gateway_transparent_witness:
  "\<exists>z r s. sys_steps named_env (\<lambda>_. tcp_cfg) ''t'' 10 system_a z \<and> handleProxyByID ''a'' (sy_gateway z) \<noteq> NotFound \<and>
     gateway_request (\<lambda>x. x) named_env (\<lambda>_. tcp_cfg) (\<lambda>_ _. Unreachable) (\<lambda>_. Some ''a'') (''Bearer '' @ gw_token (sy_gateway z)) get_a z \<in>
       {Some (Relayed r, set_host ''a'' s (hn_jobs (sy_hosts z ''a'')) z), Some (Refused 404, z)}"
proof -
  have cfg: "advertised tcp_cfg = ''10.0.0.9:8080''" "APIToken tcp_cfg \<noteq> []"
    by (simp_all add: advertised_def tcp_cfg_def host_cfg_def sample_cfg_def)
  have a: "sy_hosts system_a ''a'' = \<lparr>hn_server = server_a, hn_jobs = []\<rparr>" by (simp add: system_a_def)
  obtain z k where z: "sys_steps named_env (\<lambda>_. tcp_cfg) ''t'' 10 system_a z"
      "reg_db (hn_server (sy_hosts z ''a'')) = reg_db server_a" "route (sy_gateway z) ''a'' = Some ''a''"
      "hosts (sy_gateway z) ''a'' = Some k"
    using beat_and_deliver [of "''a''" "\<lambda>_. tcp_cfg" named_env system_a "''t''" 10] a_found(2) by (auto simp: cfg a)
  have "reach (system_init (\<lambda>x. x) ''t'' 10) (sys_step named_env (\<lambda>_. tcp_cfg) ''t'' 10) system_a"
    by (rule reach_init) (rule system_a_init)
  note reach = reach_steps [OF z(1) this]
  have row: "find_sandbox ''a'' (reg_db (hn_server (sy_hosts z ''a''))) = Some row_a" using z(2) a_found(1) by simp
  have rq: "route_request get_a = Some (HGet, ''a'')" "stands_in HGet = Some GProxy"
    by (simp_all add: get_a_def get_rq_def route_request_def api_routes_def match_route_def List.map_filter_def)
  obtain r s where run: "run_state (serve_request (named_env ''a'') tcp_cfg (\<lambda>_. Unreachable) get_a) (hn_server (sy_hosts z ''a'')) = (r, s)"
    by fastforce
  have "handleProxyByID ''a'' (sy_gateway z) \<noteq> NotFound" using proxy_route [OF z(3,4)] by simp
  with z(1) gateway_transparent [OF named_issues reach row _ cfg(2) rq run, of "\<lambda>_. Some ''a''" "\<lambda>x. x"] show ?thesis by blast
qed

end
