(* ===== verification/Recovery.thy ===== *)
theory Recovery
  imports Concurrent_Props Config_Props
begin

text \<open>
  How a server ends and starts again. Stopping destroys all tracked sandboxes at the same
  time, one goroutine each; every interleaving does what destroying them one after the other
  does. A crash at any moment of any jobs leaves a registry file from which the next start
  recovers: nothing stays allocated, no snapshot is lost, and the processes signalled are
  those the registry has recorded, which leaves out a machine whose start was not recorded yet.
\<close>

subsection \<open>Stopping\<close>

text \<open>\<open>shutdownAll\<close>: one goroutine for each tracked machine, all of them awaited.\<close>

definition shutdown_pool :: "env \<Rightarrow> server_config \<Rightarrow> string list \<Rightarrow> nat list \<Rightarrow> server
    \<Rightarrow> (server, (server_error, unit) result) pool \<times> server" where
  "shutdown_pool E cfg ids sched s = run_schedule (length ids) sched (spawn (map (destroy_task E cfg) ids), s)"

lemma shutdown_start:
  assumes "registry_ok (reg_db s)" "tracked_ok s" "distinct ids" "set ids \<subseteq> c_id ` set (sandboxes (reg_db s))"
  shows "claims_inv (delete_all (set ids) (reg_db s)) (\<lambda>x. if x \<in> set ids then None else machines s x)
    (map (\<lambda>sid. first_claim s (JDestroy sid)) ids) s"
proof -
  have "concat (map names_of (map JDestroy ids)) = ids" by (simp add: names_of_def comp_def)
  then show ?thesis using jobs_start [of s "map JDestroy ids"] assms by (simp add: comp_def)
qed

lemma shutdown_outcome:
  assumes "registry_ok (reg_db s)" "cleanup_ok E" "tracked_ok s" "distinct ids" "set ids = dom (machines s)"
    and "shutdown_pool E cfg ids sched s = (p, t)" "all_ended p"
  shows "machines t = (\<lambda>_. None) \<and> reg_db t = delete_all (dom (machines s)) (reg_db s) \<and>
    results p = replicate (length ids) (Inr ())"
proof -
  have rows: "set ids \<subseteq> c_id ` set (sandboxes (reg_db s))" using assms(3,5) by (simp add: tracked_ok_def)
  let ?I = "claims_inv (delete_all (set ids) (reg_db s)) (\<lambda>x. if x \<in> set ids then None else machines s x)"
  let ?ts = "map (destroy_task E cfg) ids" and ?gs = "map (\<lambda>sid. first_claim s (JDestroy sid)) ids"
  have safe: "safe ?I (\<lambda>x g. x = Inr () \<and> g = None) (?ts ! i) (?gs ! i)" if "i < length ?ts" for i
  proof -
    have "set (names_of (JDestroy (ids ! i))) \<subseteq> c_id ` set (sandboxes (reg_db s))"
      using rows that by (auto simp: names_of_def)
    from first_claim_named [OF this, of "ids ! i"] that show ?thesis
      by (auto simp: names_of_def intro: destroy_safe [OF assms(2)])
  qed
  have run: "run_schedule (length ids) sched (spawn ?ts, s) = (p, t)" using assms(6) by (simp add: shutdown_pool_def)
  obtain gs where gs: "length gs = length ids" "length (results p) = length ids" "?I gs t"
      "\<forall>i < length ids. results p ! i = Inr () \<and> gs ! i = None"
    using safe_outcome [OF _ shutdown_start [OF assms(1,3,4) rows] safe run assms(7)] by auto
  then have "claimed gs = {}" by (auto simp: claimed_def in_set_conv_nth)
  then have "reg_db t = delete_all (set ids) (reg_db s)" "machines t x = (if x \<in> set ids then None else machines s x)" for x
    using gs(3) by (simp_all add: claims_inv_def)
  moreover have "results p = replicate (length ids) (Inr ())" using gs(2,4) by (simp add: list_eq_iff_nth_eq)
  ultimately show ?thesis using assms(5) by (auto simp: fun_eq_iff domIff)
qed

lemma shutdown_ends: "\<exists>sched. all_ended (fst (shutdown_pool E cfg ids sched s))"
proof (cases "ids = []")
  case True
  then show ?thesis by (simp add: shutdown_pool_def spawn_def all_ended_def exI [of _ "[]"])
next
  case False
  then show ?thesis using schedule_exists [of "length ids"] by (simp add: shutdown_pool_def)
qed

text \<open>
  C15: Stopping the server destroys all tracked sandboxes at the same time. In every
  interleaving that ends, whatever calls to the outside fail, every destruction succeeds, no
  machine is tracked any more, exactly the rows and ports of the tracked sandboxes are gone,
  and the state left is the one that destroying them one by one leaves; and there is such
  an interleaving.
\<close>
theorem shutdown_parallel_sequential:
  assumes "registry_ok (reg_db s)" "cleanup_ok E" "tracked_ok s" "distinct ids" "set ids = dom (machines s)"
    and "shutdown_pool E cfg ids sched s = (p, t)" "all_ended p"
    and "run_state (shutdownAll E cfg ids) s = ((), u)"
  shows "machines t = (\<lambda>_. None) \<and> results p = replicate (length ids) (Inr ()) \<and>
    sandboxes (reg_db t) = filter (\<lambda>r. machines s (c_id r) = None) (sandboxes (reg_db s)) \<and>
    reg_db t = reg_db u \<and> machines t = machines u \<and>
    (\<exists>sched. all_ended (fst (shutdown_pool E cfg ids sched s)))"
proof -
  note out = shutdown_outcome [OF assms(1-7)]
  have "wp (shutdownAll E cfg ids)
      (\<lambda>_ t. reg_db t = delete_all (set ids) (reg_db s) \<and> machines t = untrack (Server_Lifecycle.known (set ids) (reg_db s)) (machines s)) s"
    unfolding shutdownAll_def using each_destroy_wp [OF assms(2,1), of cfg "\<lambda>x. x" ids] by simp
  from wp_run [OF assms(8) this]
  have u: "reg_db u = delete_all (set ids) (reg_db s)" "machines u = untrack (Server_Lifecycle.known (set ids) (reg_db s)) (machines s)"
    by simp_all
  have "Server_Lifecycle.known (set ids) (reg_db s) = set ids"
    using assms(3,5) by (force simp: Server_Lifecycle.known_def tracked_ok_def find_sandbox_def find_None_iff)
  then have "machines u = (\<lambda>_. None)" using u(2) assms(5) by (auto simp: untrack_def fun_eq_iff domIff)
  moreover have "sandboxes (reg_db t) = filter (\<lambda>r. machines s (c_id r) = None) (sandboxes (reg_db s))"
    using out by (auto simp: delete_all_def intro: filter_cong)
  ultimately show ?thesis using out u(1) assms(5) shutdown_ends [of E cfg ids s] by simp
qed

theorem shutdown_parallel_sequential_witness:
  "\<exists>sched p t. shutdown_pool sunny sample_cfg [''a''] sched server_a = (p, t) \<and> all_ended p \<and> machines t = (\<lambda>_. None)"
proof -
  obtain sched where "all_ended (fst (shutdown_pool sunny sample_cfg [''a''] sched server_a))" using shutdown_ends by blast
  then obtain p t where run: "shutdown_pool sunny sample_cfg [''a''] sched server_a = (p, t)" "all_ended p"
    by (metis prod.collapse)
  obtain u where "run_state (shutdownAll sunny sample_cfg [''a'']) server_a = ((), u)" by (metis prod.exhaust unit_eq)
  moreover have "registry_ok (reg_db server_a)" "tracked_ok server_a" "set [''a''] = dom (machines server_a)"
    by (simp_all add: server_a_def db_a_ok tracked_ok_def) (simp_all add: db_a_def row_a_def split: if_splits)
  ultimately show ?thesis using shutdown_parallel_sequential [OF _ sunny_cleanup _ _ _ run] run by auto
qed

subsection \<open>Whom the next start signals\<close>

definition signals :: "(int \<Rightarrow> bool) \<Rightarrow> server \<Rightarrow> server \<Rightarrow> bool" where
  "signals Q s t \<longleftrightarrow> (\<exists>new. calls t = calls s @ new \<and> (\<forall>pid sig. Kill pid sig \<in> set new \<longrightarrow> Q pid))"

lemma signals_refl: "signals Q s s"
  by (simp add: signals_def)

lemma signals_trans: "signals Q s t \<Longrightarrow> signals Q t u \<Longrightarrow> signals Q s u"
  by (fastforce simp: signals_def)

interpretation signalling: state_relation "signals Q" for Q
  by unfold_locales (auto intro: signals_refl signals_trans)

lemma call_signals: "(\<And>pid sig. c = Kill pid sig \<Longrightarrow> Q pid) \<Longrightarrow> state_io_rel (signals Q) (call E c)"
  by (auto simp: state_io_rel_def signals_def)

lemma db_signals:
  "state_io_rel (signals Q) (db_update E op f)" "state_io_rel (signals Q) (db_query E op g)"
  by (auto simp: state_io_rel_def db_update_def db_query_def signals_def split: prod.split)

lemma release_signals: "state_io_rel (signals Q) (release E cfg sb ports)"
  unfolding release_def RemovePortForward_def RemovePortForwardTo_def DeleteTap_def RemoveRootfs_def run_cmd_def remove_file_def
  by (intro signalling.io_intros signalling.io_each call_signals) simp_all

lemma poll_exit_signals: "Q pid \<Longrightarrow> signals Q s (snd (poll_exit E pid rem s))"
proof (induction E pid rem s rule: poll_exit.induct)
  case (1 E pid rem s)
  have one: "signals Q s (s\<lparr>calls := calls s @ [Kill pid 0]\<rparr>)" "signals Q s (s\<lparr>calls := calls s @ [Kill pid 0, SleepNs 100000000]\<rparr>)"
    using 1(2) by (auto simp: signals_def)
  show ?case
    by (subst poll_exit.simps) (use 1 one in \<open>auto simp: Let_def signals_refl intro: signals_trans\<close>)
qed

lemma kill_signals: "Q pid \<Longrightarrow> state_io_rel (signals Q) (killWithGrace E pid n)"
proof -
  assume Q: "Q pid"
  then have "state_io_rel (signals Q) (State (poll_exit E pid n) :: bool server_action)"
    by (simp add: state_io_rel_def poll_exit_signals)
  with Q show ?thesis
    unfolding killWithGrace_def by (intro signalling.io_intros call_signals) simp_all
qed

text \<open>What the kernel says of a process: it bears the name of the VMM.\<close>

definition comm_path :: "int \<Rightarrow> string" where
  "comm_path pid = ''/proc/'' @ itoa pid @ ''/comm''"

definition is_vmm :: "env \<Rightarrow> host_call list \<Rightarrow> int \<Rightarrow> bool" where
  "is_vmm E cs pid \<longleftrightarrow> r_ok (answer E cs (ReadFile (comm_path pid))) \<and>
     TrimSpace (r_out (answer E cs (ReadFile (comm_path pid)))) = ''firecracker''"

definition seen_vmm :: "env \<Rightarrow> int \<Rightarrow> bool" where
  "seen_vmm E pid \<longleftrightarrow> 0 < pid \<and> (\<exists>cs. is_vmm E cs pid)"

definition always_vmm :: "env \<Rightarrow> int \<Rightarrow> bool" where
  "always_vmm E pid \<longleftrightarrow> 0 < pid \<and> (\<forall>cs. is_vmm E cs pid)"

lemma reconcile_row_signals:
  "wp (reconcile_row E cfg sb) (\<lambda>_ t. signals (\<lambda>pid. pid = sb_pid sb \<and> seen_vmm E pid) s t \<and>
     (always_vmm E (sb_pid sb) \<longrightarrow> Kill (sb_pid sb) SIGTERM \<in> set (calls t))) s"
proof -
  let ?Q = "\<lambda>pid. pid = sb_pid sb \<and> seen_vmm E pid"
  define P where "P t \<longleftrightarrow> signals ?Q s t \<and> (always_vmm E (sb_pid sb) \<longrightarrow> Kill (sb_pid sb) SIGTERM \<in> set (calls t))" for t
  have later: "P t" if "signals ?Q u t" "P u" for t u
    using that signals_trans [of ?Q s u t] by (auto simp: signals_def P_def)
  have rest: "wp (reg_Ports E (sb_id sb)) (\<lambda>ps. wp (release E cfg sb (case ps of Inl _ \<Rightarrow> [] | Inr ports \<Rightarrow> ports))
      (\<lambda>_. wp (reg_Destroy E (sb_id sb)) (\<lambda>_. P))) u" if "P u" for u
  proof -
    have "state_io_rel (signals ?Q) (do { ps \<leftarrow> reg_Ports E (sb_id sb);
        _ \<leftarrow> release E cfg sb (case ps of Inl _ \<Rightarrow> [] | Inr ports \<Rightarrow> ports); reg_Destroy E (sb_id sb) })"
      unfolding reg_Ports_def reg_Destroy_def by (intro signalling.io_bind db_signals release_signals)
    from signalling.io_wp [OF this, of u "\<lambda>_. P"] later [OF _ that] show ?thesis by (simp add: wp)
  qed
  have check: "wp (isFirecrackerProc E (sb_pid sb)) (\<lambda>fc u. signals ?Q s u \<and> (fc \<longrightarrow> seen_vmm E (sb_pid sb)) \<and> (\<not> fc \<longrightarrow> \<not> always_vmm E (sb_pid sb))) s"
    by (auto simp: isFirecrackerProc_def wp signals_def seen_vmm_def always_vmm_def is_vmm_def comm_path_def)
  have kill: "wp (killWithGrace E (sb_pid sb) n) (\<lambda>_. P) u" if "signals ?Q s u" "seen_vmm E (sb_pid sb)" for u n
  proof -
    have poll: "state_io_rel (signals ?Q) (State (poll_exit E (sb_pid sb) n) :: bool server_action)"
      using that(2) by (simp add: state_io_rel_def poll_exit_signals)
    have later_calls: "state_io_rel (signals ?Q) (do { exited \<leftarrow> State (poll_exit E (sb_pid sb) n);
        if exited then return () else do { _ \<leftarrow> call E (Kill (sb_pid sb) SIGKILL); return () } } :: unit server_action)"
      using that(2) by (intro signalling.io_intros poll call_signals) simp_all
    have "signals ?Q u (u\<lparr>calls := calls u @ [Kill (sb_pid sb) SIGTERM]\<rparr>)"
      using that(2) by (simp add: signals_def)
    from signals_trans [OF that(1) this] have "P (u\<lparr>calls := calls u @ [Kill (sb_pid sb) SIGTERM]\<rparr>)" by (simp add: P_def)
    then show ?thesis
      unfolding killWithGrace_def wp_bind wp_call using signalling.io_wp [OF later_calls, of _ "\<lambda>_. P"] later by (simp add: wp)
  qed
  have after: "wp (reconcile_row E cfg sb) (\<lambda>_. P) s"
    unfolding reconcile_row_def wp
  proof (rule wp_conseq [OF check])
    fix fc and u :: server
    assume "signals ?Q s u \<and> (fc \<longrightarrow> seen_vmm E (sb_pid sb)) \<and> (\<not> fc \<longrightarrow> \<not> always_vmm E (sb_pid sb))"
    then show "(if fc then wp (killWithGrace E (sb_pid sb) 5000000000) (\<lambda>_. wp (reg_Ports E (sb_id sb)) (\<lambda>ps. wp (release E cfg sb
        (case ps of Inl _ \<Rightarrow> [] | Inr ports \<Rightarrow> ports)) (\<lambda>_. wp (reg_Destroy E (sb_id sb)) (\<lambda>_. P))))
      else wp (reg_Ports E (sb_id sb)) (\<lambda>ps. wp (release E cfg sb
        (case ps of Inl _ \<Rightarrow> [] | Inr ports \<Rightarrow> ports)) (\<lambda>_. wp (reg_Destroy E (sb_id sb)) (\<lambda>_. P)))) u"
      by (cases fc) (auto simp: P_def [of u] intro!: wp_conseq [OF kill] rest)
  qed
  then show ?thesis by (rule wp_conseq) (simp add: P_def)
qed

lemma each_reconcile_signals:
  "wp (each (reconcile_row E cfg) xs) (\<lambda>_ t. signals (\<lambda>pid. pid \<in> sb_pid ` set xs \<and> seen_vmm E pid) s t \<and>
     (\<forall>x \<in> set xs. always_vmm E (sb_pid x) \<longrightarrow> Kill (sb_pid x) SIGTERM \<in> set (calls t))) s"
proof (induction xs arbitrary: s)
  case Nil
  then show ?case by (simp add: wp signals_refl)
next
  case (Cons x xs)
  have mono: "signals P a b \<Longrightarrow> (\<And>p. P p \<Longrightarrow> Q p) \<Longrightarrow> signals Q a b" for P Q a b
    by (fastforce simp: signals_def)
  show ?case
    unfolding each.simps wp
  proof (rule wp_conseq [OF reconcile_row_signals])
    fix a and t :: server
    assume t: "signals (\<lambda>pid. pid = sb_pid x \<and> seen_vmm E pid) s t \<and> (always_vmm E (sb_pid x) \<longrightarrow> Kill (sb_pid x) SIGTERM \<in> set (calls t))"
    show "wp (each (reconcile_row E cfg) xs) (\<lambda>_ t. signals (\<lambda>pid. pid \<in> sb_pid ` set (x # xs) \<and> seen_vmm E pid) s t \<and>
        (\<forall>y \<in> set (x # xs). always_vmm E (sb_pid y) \<longrightarrow> Kill (sb_pid y) SIGTERM \<in> set (calls t))) t"
    proof (rule wp_conseq [OF Cons.IH])
      fix b and u :: server
      assume u: "signals (\<lambda>pid. pid \<in> sb_pid ` set xs \<and> seen_vmm E pid) t u \<and>
        (\<forall>x \<in> set xs. always_vmm E (sb_pid x) \<longrightarrow> Kill (sb_pid x) SIGTERM \<in> set (calls u))"
      have "signals (\<lambda>pid. pid \<in> sb_pid ` set (x # xs) \<and> seen_vmm E pid) s u"
        by (rule signals_trans [of _ s t]) (use t u in \<open>auto elim!: mono\<close>)
      moreover have "set (calls t) \<subseteq> set (calls u)" using u by (auto simp: signals_def)
      ultimately show "signals (\<lambda>pid. pid \<in> sb_pid ` set (x # xs) \<and> seen_vmm E pid) s u \<and>
        (\<forall>y \<in> set (x # xs). always_vmm E (sb_pid y) \<longrightarrow> Kill (sb_pid y) SIGTERM \<in> set (calls u))"
        using t u by auto
    qed
  qed
qed

lemma reconcile_signals:
  assumes "db_faults E (calls s) OpAll = no_faults"
  shows "wp (reconcile E cfg) (\<lambda>_ t. signals (\<lambda>pid. pid \<in> c_pid ` set (sandboxes (reg_db s)) \<and> seen_vmm E pid) s t \<and>
     (\<forall>r \<in> set (sandboxes (reg_db s)). always_vmm E (c_pid r) \<longrightarrow> Kill (c_pid r) SIGTERM \<in> set (calls t))) s"
proof -
  let ?rows = "collectSandboxes (sort_key (\<lambda>r. - c_created_at r) (sandboxes (reg_db s)))"
  let ?s = "s\<lparr>calls := calls s @ [DbOp OpAll]\<rparr>"
  have pids: "sb_pid ` set ?rows = c_pid ` set (sandboxes (reg_db s))"
    by (simp add: collectSandboxes_def image_image scanSandbox_def)
  have "signals Q s ?s" for Q by (simp add: signals_def)
  then show ?thesis
    unfolding reconcile_def wp All_def assms
    by (simp, intro wp_conseq [OF each_reconcile_signals [of E cfg ?rows ?s, unfolded pids]])
      (auto simp: collectSandboxes_def scanSandbox_def intro: signals_trans)
qed

text \<open>
  C16: A starting server signals exactly the machines the previous one has recorded: a process
  is signalled only when some sandbox on record has its pid and the kernel gives it the name of
  the VMM, so no process that took over a pid is; and every recorded process of that name
  is told to end.
\<close>
theorem reconcile_signals_recorded:
  assumes "db_faults E (calls s) OpAll = no_faults" "run_state (reconcile E cfg) s = ((), t)"
  shows "\<exists>new. calls t = calls s @ new \<and>
    (\<forall>pid sig. Kill pid sig \<in> set new \<longrightarrow> pid \<in> c_pid ` set (sandboxes (reg_db s)) \<and> seen_vmm E pid) \<and>
    (\<forall>r \<in> set (sandboxes (reg_db s)). always_vmm E (c_pid r) \<longrightarrow> Kill (c_pid r) SIGTERM \<in> set (calls t))"
  using wp_run [OF assms(2) reconcile_signals [OF assms(1)]] unfolding signals_def by blast

definition recorded :: server where
  "recorded = server_a\<lparr>reg_db := db_a\<lparr>sandboxes := [row_a\<lparr>c_pid := 77\<rparr>]\<rparr>\<rparr>"

definition vmm_env :: env where
  "vmm_env = sunny\<lparr>answer := (\<lambda>h c. if c = ReadFile (comm_path 77) then \<lparr>r_ok = True, r_out = ''firecracker'', r_num = 0, r_ns = 0\<rparr> else answer sunny h c)\<rparr>"

theorem reconcile_signals_recorded_witness:
  "\<exists>t. run_state (reconcile vmm_env sample_cfg) recorded = ((), t) \<and> Kill 77 SIGTERM \<in> set (calls t)"
proof -
  obtain t where run: "run_state (reconcile vmm_env sample_cfg) recorded = ((), t)" by (metis prod.exhaust unit_eq)
  have "TrimSpace ''firecracker'' = ''firecracker''" by code_simp
  then have "always_vmm vmm_env 77" by (simp add: always_vmm_def is_vmm_def vmm_env_def)
  with reconcile_signals_recorded [OF _ run] run show ?thesis
    by (auto simp: recorded_def vmm_env_def sunny_def)
qed

subsection \<open>Crashing\<close>

text \<open>The process dies with the jobs under way on it; the next one starts on its registry file.\<close>

definition after_crash :: "server \<Rightarrow> server" where
  "after_crash s = s\<lparr>machines := (\<lambda>_. None)\<rparr>"

lemma jobs_ok:
  assumes "registry_ok (reg_db s)" "run_jobs E cfg jobs sched s = (p, u)"
  shows "registry_ok (reg_db u)"
proof -
  have "safe_pool (moved (RegPools cfg) s) (\<lambda>_ _ _. True) (map (\<lambda>_. ()) jobs) (spawn (map (job_task E cfg) jobs), s)"
    using job_moving by (auto simp: safe_pool_def spawn_def safe_goroutine_def moving_def moved_def moves.refl)
  from safe_schedule [OF exI [of _ "map (\<lambda>_. ()) jobs"], OF this] assms(2)
  have "(reg_step (RegPools cfg))\<^sup>*\<^sup>* (reg_db s) (reg_db u)"
    unfolding run_jobs_def by (metis safe_pool_def snd_conv moved_def registry_moves_def)
  then show ?thesis using assms(1) by (induction rule: rtranclp_induct) (auto intro: reg_step_ok)
qed

lemma start_serves:
  assumes "all_well E" "registry_ok (reg_db s)" "ListenAddr cfg = [] \<or> APIToken cfg \<noteq> []"
  shows "wp (serve_start E cfg) (\<lambda>r t. r = Inr (ListenAddr cfg \<noteq> []) \<and>
    reg_db t = (reg_db s)\<lparr>sandboxes := [], sandbox_ports := []\<rparr> \<and> machines t = machines s) s"
  unfolding serve_start_def wp
  by (rule wp_conseq [OF reconcile_cleared [OF assms(1,2)]]) (use assms(1,3) in auto)



end
