(* ===== verification/Gateway_Life.thy ===== *)
theory Gateway_Life
  imports Gateway_Routing Cli
begin

text \<open>
  The gateway over time: \<open>runGateway\<close> and the start of \<open>Serve\<close>, the loop that prunes every half
  of the time to live (\<open>internal/gateway/gateway.go\<close>), and the interval at which the hosts send
  (\<open>internal/server/heartbeat.go\<close>). A time to live below two nanoseconds stops the process; a
  silent host is gone after one and a half times the time to live; and with the default
  values two heartbeats in a row may be lost.
\<close>

subsection \<open>Starting\<close>

text \<open>\<open>time.NewTicker\<close> panics unless the period is positive; durations are divided as Go divides.\<close>

definition NewTicker :: "int \<Rightarrow> int option" where
  "NewTicker d = (if d \<le> 0 then None else Some d)"

definition prune_period :: "int \<Rightarrow> int" where
  "prune_period ttl = (if ttl < 0 then - ((- ttl) div 2) else ttl div 2)"

datatype gateway_process = Panics | Serving gateway int

definition gateway_command :: "string \<Rightarrow> string \<Rightarrow> int \<Rightarrow> (gateway_error, gateway_process) result" where
  "gateway_command listen token ttl =
     (case runGateway listen token ttl of
        Inl e \<Rightarrow> Inl e
      | Inr g \<Rightarrow> Inr (case NewTicker (prune_period (gw_ttl g)) of None \<Rightarrow> Panics | Some d \<Rightarrow> Serving g d))"


subsection \<open>What a gateway has heard\<close>

text \<open>The time of the last heartbeat of a host that was accepted.\<close>

definition hears :: "string \<Rightarrow> event \<Rightarrow> int option \<Rightarrow> int option" where
  "hears hid e prev = (case e of
     Registered now (Decoded hb) \<Rightarrow> if hb_HostID hb = hid \<and> hb_HostID hb \<noteq> [] \<and> hb_Addr hb \<noteq> [] then Some now else prev
   | _ \<Rightarrow> prev)"

definition heard :: "string \<Rightarrow> event list \<Rightarrow> int option" where
  "heard hid es = fold (hears hid) es None"

lemma heard_snoc: "heard hid (es @ [e]) = hears hid e (heard hid es)"
  by (simp add: heard_def)

lemma step_host:
  "hosts (gw_step e g) hid = Some h \<Longrightarrow>
     hears hid e None = Some (lastSeen h) \<or>
     hears hid e None = None \<and> (\<exists>h'. hosts g hid = Some h' \<and> lastSeen h' = lastSeen h)"
  by (cases e) (auto simp: hears_def handleRegister_def register_def Let_def charge_def prune_tick_exact_hosts
      split: request_body.splits option.splits if_splits)

lemma hears_None: "hears hid e prev = (case hears hid e None of None \<Rightarrow> prev | Some u \<Rightarrow> Some u)"
  by (auto simp: hears_def split: event.split request_body.split)

lemma heard_None: "heard hid es = None \<longleftrightarrow> (\<forall>e \<in> set es. hears hid e None = None)"
proof (induction es rule: rev_induct)
  case (snoc e es)
  then show ?case
    using hears_None [of hid e "heard hid es"] by (auto simp: heard_snoc split: option.splits)
qed (simp add: heard_def)

lemma known_heard: "hosts (gw_run token ttl es) hid = Some h \<Longrightarrow> heard hid es = Some (lastSeen h)"
proof (induction es arbitrary: h rule: rev_induct)
  case Nil
  then show ?case by (simp add: gw_run_def New_def)
next
  case (snoc e es)
  have "hosts (gw_step e (gw_run token ttl es)) hid = Some h" using snoc.prems by (simp add: gw_run_def)
  from step_host [OF this] show ?case
    unfolding heard_snoc hears_None [of hid e "heard hid es"] using snoc.IH by auto
qed

subsection \<open>A silent host\<close>

lemma run_ttl [simp]: "gw_ttl (gw_run token ttl es) = ttl"
proof (induction es rule: rev_induct)
  case (snoc e es)
  then show ?case by (cases e) (auto simp: gw_run_def handleRegister_def split: request_body.split)
qed (simp add: gw_run_def New_def)

lemma heard_append: "heard hid es = None \<Longrightarrow> heard hid (as @ es) = heard hid as"
proof (induction es rule: rev_induct)
  case (snoc e es)
  have none: "hears hid e None = None" "heard hid es = None"
    using snoc.prems hears_None [of hid e "heard hid es"] by (auto simp: heard_snoc split: option.splits)
  then have "heard hid (as @ es @ [e]) = heard hid (as @ es)"
    using heard_snoc [of hid "as @ es" e] hears_None [of hid e "heard hid (as @ es)"] by simp
  with snoc.IH [OF none(2)] show ?case by simp
qed simp

lemma gone_stays:
  assumes "hosts (gw_run token ttl as) hid = None" "heard hid bs = None"
  shows "hosts (gw_run token ttl (as @ bs)) hid = None"
  using assms(2)
proof (induction bs rule: rev_induct)
  case Nil
  then show ?case using assms(1) by simp
next
  case (snoc e bs)
  have none: "hears hid e None = None" "heard hid bs = None"
    using snoc.prems hears_None [of hid e "heard hid bs"] by (auto simp: heard_snoc split: option.splits)
  have "gw_run token ttl (as @ bs @ [e]) = gw_step e (gw_run token ttl (as @ bs))" by (simp add: gw_run_def)
  then show ?case
    using step_host [of e "gw_run token ttl (as @ bs)" hid] none snoc.IH [OF none(2)]
    by (cases "hosts (gw_run token ttl (as @ bs @ [e])) hid") auto
qed

text \<open>The ticks of the pruning loop, started at \<open>t0\<close>.\<close>

definition tick_at :: "int \<Rightarrow> int \<Rightarrow> nat \<Rightarrow> int" where
  "tick_at t0 ttl k = t0 + int k * prune_period ttl"

lemma tick_soon:
  assumes "2 \<le> ttl" "t0 \<le> x"
  shows "\<exists>k. x < tick_at t0 ttl k \<and> tick_at t0 ttl k \<le> x + prune_period ttl"
proof -
  define p q r where "p = prune_period ttl" and "q = (x - t0) div p" and "r = (x - t0) mod p"
  have "0 < p" using assms(1) by (simp add: p_def prune_period_def)
  then have "0 \<le> q" "0 \<le> r" "r < p" "x - t0 = q * p + r"
    using assms(2) by (simp_all add: q_def r_def pos_imp_zdiv_nonneg_iff)
  then show ?thesis unfolding tick_at_def p_def [symmetric]
    by (intro exI [of _ "nat (q + 1)"]) (simp add: algebra_simps)
qed

text \<open>
  C28: A host that falls silent does not stay: when its last heartbeat arrived at \<open>u\<close> and the
  pruning loop has kept its ticks until one and a half times the time to live after \<open>u\<close>, the
  host is no longer known, no sandbox is placed on it, and requests still routed to it are
  answered as unknown.
\<close>
theorem silent_host_dropped:
  assumes "2 \<le> ttl" "t0 \<le> u + ttl" "heard hid as = Some u" "heard hid rest = None"
    and "\<And>k. tick_at t0 ttl k \<le> u + ttl + prune_period ttl \<Longrightarrow> u + ttl < tick_at t0 ttl k \<Longrightarrow>
      \<exists>bs clock order cs. rest = bs @ Pruned clock order # cs \<and> tick_at t0 ttl k \<le> clock hid \<and>
        visits_all (gw_run token ttl (as @ bs)) order"
  shows "hosts (gw_run token ttl (as @ rest)) hid = None \<and>
    (\<forall>sid. route (gw_run token ttl (as @ rest)) sid = Some hid \<longrightarrow> handleProxyByID sid (gw_run token ttl (as @ rest)) = NotFound)"
proof -
  obtain k where "u + ttl < tick_at t0 ttl k" "tick_at t0 ttl k \<le> u + ttl + prune_period ttl"
    using tick_soon [OF assms(1,2)] by blast
  with assms(5) obtain bs clock order cs where tick: "rest = bs @ Pruned clock order # cs" "u + ttl < clock hid"
      "visits_all (gw_run token ttl (as @ bs)) order" by force
  have quiet: "heard hid bs = None \<and> heard hid cs = None"
    using assms(4) heard_None [of hid bs] heard_None [of hid cs] unfolding tick(1) heard_None by simp
  let ?g = "gw_run token ttl (as @ bs)"
  have "hosts (prune_tick clock order ?g) hid = None"
  proof (cases "hosts ?g hid")
    case (Some h)
    then have "lastSeen h = u" using known_heard [OF Some] heard_append [of hid bs as] quiet assms(3) by simp
    with Some tick(2,3) show ?thesis by (auto simp: prune_tick_exact_hosts stale_def live_def visits_all_def)
  qed (simp add: prune_tick_exact_hosts)
  then have "hosts (gw_run token ttl (as @ bs @ [Pruned clock order])) hid = None" by (simp add: gw_run_def)
  from gone_stays [OF this, of cs] quiet have "hosts (gw_run token ttl (as @ rest)) hid = None" by (simp add: tick(1))
  then show ?thesis by (simp add: handleProxyByID_def)
qed

theorem silent_host_dropped_witness:
  "hosts (gw_run ''t'' 10 ([Registered 3 (Decoded hb_a)] @ [Pruned (\<lambda>_. 15) [''A'']])) ''A'' = None"
proof -
  have heard: "heard ''A'' [Registered 3 (Decoded hb_a)] = Some 3" "heard ''A'' [Pruned (\<lambda>_. 15) [''A'']] = None"
    by (simp_all add: heard_def hears_def hb_a_def)
  have "\<exists>bs clock order cs. [Pruned (\<lambda>_. 15) [''A'']] = bs @ Pruned clock order # cs \<and> tick_at 0 10 k \<le> clock ''A'' \<and>
      visits_all (gw_run ''t'' 10 ([Registered 3 (Decoded hb_a)] @ bs)) order" if "tick_at 0 10 k \<le> 3 + 10 + prune_period 10" for k
    using that by (intro exI [of _ "[]"] exI [of _ "\<lambda>_. 15"] exI [of _ "[''A'']"])
      (simp add: tick_at_def prune_period_def gw_run_def handleRegister_def register_def New_def hb_a_def visits_all_def)
  then show ?thesis using silent_host_dropped [OF _ _ heard, of 10 0 "''t''"] by simp
qed

subsection \<open>A host that sends\<close>

definition heartbeatInterval :: int where "heartbeatInterval = 5000000000"
definition default_ttl :: int where "default_ttl = 20000000000"

text \<open>
  The heartbeats of a host from \<open>s0\<close> on, one each interval: when each was registered, if it
  was. The client of the host gives up on one after as long as the interval.
\<close>

definition on_time :: "int \<Rightarrow> int option list \<Rightarrow> bool" where
  "on_time s0 ds \<longleftrightarrow> (\<forall>k < length ds. \<forall>u. ds ! k = Some u \<longrightarrow>
     s0 + heartbeatInterval * int k \<le> u \<and> u \<le> s0 + heartbeatInterval * int k + heartbeatInterval)"

definition at_most_two_lost :: "int option list \<Rightarrow> bool" where
  "at_most_two_lost ds \<longleftrightarrow> (\<forall>k. k + 2 < length ds \<longrightarrow> ds ! k \<noteq> None \<or> ds ! (k + 1) \<noteq> None \<or> ds ! (k + 2) \<noteq> None)"

definition arrived :: "int option list \<Rightarrow> int \<Rightarrow> int list" where
  "arrived ds c = filter (\<lambda>u. u \<le> c) (List.map_filter (\<lambda>d. d) ds)"

lemma last_arrived:
  "arrived ds c \<noteq> [] \<Longrightarrow> \<exists>k < length ds. ds ! k = Some (last (arrived ds c)) \<and> last (arrived ds c) \<le> c \<and>
     (\<forall>j < length ds. k < j \<longrightarrow> (\<forall>u. ds ! j = Some u \<longrightarrow> c < u))"
proof (induction ds rule: rev_induct)
  case Nil
  then show ?case by (simp add: arrived_def List.map_filter_def)
next
  case (snoc d ds)
  show ?case
  proof (cases "\<exists>u. d = Some u \<and> u \<le> c")
    case True
    then have "last (arrived (ds @ [d]) c) = the d" by (auto simp: arrived_def List.map_filter_def)
    with True show ?thesis by (intro exI [of _ "length ds"]) auto
  next
    case False
    then have same: "arrived (ds @ [d]) c = arrived ds c" by (cases d) (auto simp: arrived_def List.map_filter_def)
    with snoc obtain k where "k < length ds" "ds ! k = Some (last (arrived ds c))" "last (arrived ds c) \<le> c"
        "\<forall>j < length ds. k < j \<longrightarrow> (\<forall>u. ds ! j = Some u \<longrightarrow> c < u)" by auto
    with False show ?thesis unfolding same by (intro exI [of _ k]) (auto simp: nth_append less_Suc_eq)
  qed
qed

lemma gap_within_ttl:
  assumes "on_time s0 ds" "at_most_two_lost ds" "arrived ds c \<noteq> []" "c \<le> s0 + heartbeatInterval * int (length ds)"
  shows "c - last (arrived ds c) \<le> default_ttl"
proof -
  obtain k where k: "k < length ds" "ds ! k = Some (last (arrived ds c))"
      "\<forall>j < length ds. k < j \<longrightarrow> (\<forall>u. ds ! j = Some u \<longrightarrow> c < u)"
    using last_arrived [OF assms(3)] by blast
  have sent: "s0 + heartbeatInterval * int k \<le> last (arrived ds c)" using assms(1) k(1,2) by (simp add: on_time_def)
  show ?thesis
  proof (cases "k + 3 < length ds")
    case True
    then have "ds ! (k + 1) \<noteq> None \<or> ds ! (k + 2) \<noteq> None \<or> ds ! (k + 3) \<noteq> None"
      using assms(2) [unfolded at_most_two_lost_def, rule_format, of "k + 1"] by (simp add: numeral_eq_Suc)
    then obtain j where "j \<in> {k + 1, k + 2, k + 3}" "ds ! j \<noteq> None" by blast
    moreover from this True have "k < j" "j \<le> k + 3" "j < length ds" by auto
    ultimately obtain u where j: "k < j" "j \<le> k + 3" "j < length ds" "ds ! j = Some u" by blast
    then have "c < u" "u \<le> s0 + heartbeatInterval * int j + heartbeatInterval"
      using k(3) assms(1) by (simp_all add: on_time_def)
    moreover have "heartbeatInterval * int j \<le> heartbeatInterval * int (k + 3)"
      using j(2) by (simp add: heartbeatInterval_def)
    ultimately show ?thesis using sent by (simp add: heartbeatInterval_def default_ttl_def)
  next
    case False
    then have "heartbeatInterval * int (length ds) \<le> heartbeatInterval * int (k + 3)" by (simp add: heartbeatInterval_def)
    then show ?thesis using assms(4) sent by (simp add: heartbeatInterval_def default_ttl_def)
  qed
qed

text \<open>A host heard within the time to live at every tick is known.\<close>

lemma heard_known:
  assumes "hid \<noteq> []"
  shows "(\<And>as clock order bs v. es = as @ Pruned clock order # bs \<Longrightarrow> heard hid as = Some v \<Longrightarrow> clock hid - v \<le> ttl) \<Longrightarrow>
    heard hid es = Some u \<Longrightarrow> \<exists>h. hosts (gw_run token ttl es) hid = Some h \<and> lastSeen h = u"
proof (induction es arbitrary: u rule: rev_induct)
  case Nil
  then show ?case by (simp add: heard_def)
next
  case (snoc e es)
  let ?g = "gw_run token ttl es"
  have step: "gw_run token ttl (es @ [e]) = gw_step e ?g" by (simp add: gw_run_def)
  have kept: "\<exists>h. hosts ?g hid = Some h \<and> lastSeen h = v" if "heard hid es = Some v" for v
    using snoc.IH [OF _ that] snoc.prems(1) by (metis append.assoc append_Cons)
  show ?case
  proof (cases e)
    case (Registered now rb)
    show ?thesis
    proof (cases "hears hid e None")
      case None
      then have "heard hid es = Some u" using snoc.prems(2) hears_None [of hid e "heard hid es"] by (simp add: heard_snoc)
      from kept [OF this] None show ?thesis
        unfolding step by (auto simp: Registered hears_def handleRegister_def register_def Let_def split: request_body.splits if_splits)
    next
      case (Some v)
      then have "v = u" using snoc.prems(2) hears_None [of hid e "heard hid es"] by (simp add: heard_snoc)
      with Some show ?thesis
        unfolding step by (auto simp: Registered hears_def handleRegister_def register_def Let_def split: request_body.splits if_splits option.splits)
    qed
  next
    case (Created k sid)
    then have "heard hid es = Some u" using snoc.prems(2) by (simp add: heard_snoc hears_def)
    from kept [OF this] show ?thesis unfolding step by (auto simp: Created charge_def split: option.split)
  next
    case (Pruned clock order)
    then have u: "heard hid es = Some u" using snoc.prems(2) by (simp add: heard_snoc hears_def)
    from kept [OF this] obtain h where h: "hosts ?g hid = Some h" "lastSeen h = u" by blast
    have "clock hid - u \<le> ttl" using snoc.prems(1) [of es clock order "[]" u] Pruned u by simp
    with h show ?thesis unfolding step by (auto simp: Pruned prune_tick_exact_hosts stale_def live_def)
  qed
qed

text \<open>
  C29: With the default time to live and the interval of the hosts, a host whose heartbeats
  arrive, each within the time the host waits for it, stays known although any two in a row
  of them are lost: at no tick of the pruning loop it is dropped.
\<close>
theorem two_losses_tolerated:
  assumes "hid \<noteq> []" "on_time s0 ds" "at_most_two_lost ds"
    and "\<And>as clock order bs. es = as @ Pruned clock order # bs \<Longrightarrow> clock hid \<le> s0 + heartbeatInterval * int (length ds) \<and>
      heard hid as = (if arrived ds (clock hid) = [] then None else Some (last (arrived ds (clock hid))))"
    and "heard hid es = Some u"
  shows "\<exists>h. hosts (gw_run token default_ttl es) hid = Some h \<and> lastSeen h = u"
proof (rule heard_known [OF assms(1) _ assms(5)])
  fix as clock order bs v
  assume es: "es = as @ Pruned clock order # bs" and v: "heard hid as = Some v"
  from assms(4) [OF es] v have "arrived ds (clock hid) \<noteq> []" "v = last (arrived ds (clock hid))"
    by (auto split: if_splits)
  with gap_within_ttl [OF assms(2,3)] assms(4) [OF es] show "clock hid - v \<le> default_ttl" by simp
qed

theorem two_losses_tolerated_witness:
  "\<exists>h. hosts (gw_run ''t'' default_ttl [Registered 1 (Decoded hb_a), Pruned (\<lambda>_. 15000000001) [''A'']]) ''A'' = Some h \<and> lastSeen h = 1"
proof -
  let ?es = "[Registered 1 (Decoded hb_a), Pruned (\<lambda>_. 15000000001) [''A'']]" and ?ds = "[Some 1, None, None, Some 15000000002]"
  have ds: "on_time 0 ?ds" "at_most_two_lost ?ds"
    by (auto simp: on_time_def at_most_two_lost_def heartbeatInterval_def less_Suc_eq nth_Cons split: nat.splits)
  have arrived: "arrived ?ds 15000000001 = [1]" by (simp add: arrived_def List.map_filter_def)
  have "clock ''A'' \<le> 0 + heartbeatInterval * int (length ?ds) \<and>
      heard ''A'' as = (if arrived ?ds (clock ''A'') = [] then None else Some (last (arrived ?ds (clock ''A''))))"
    if "?es = as @ Pruned clock order # bs" for as clock order bs
  proof -
    from that have "as = [Registered 1 (Decoded hb_a)]" "clock = (\<lambda>_. 15000000001)"
      by (auto simp: Cons_eq_append_conv)
    then show ?thesis using arrived by (simp add: heartbeatInterval_def heard_def hears_def hb_a_def)
  qed
  moreover have "heard ''A'' ?es = Some 1" by (simp add: heard_def hears_def hb_a_def)
  ultimately show ?thesis using two_losses_tolerated [OF _ ds, of "''A''" ?es 1] by simp
qed

end
