(* ===== verification/Edges.thy ===== *)
theory Edges
  imports Shell Vm_Types
begin

text \<open>
  Small parts at the edges: the relay of an agent's answer to the client, flushed write by
  write (\<open>internal/server/proxy.go\<close>); how the agent opens an interactive session before the
  state machine of \<open>Shell\<close> takes over (\<open>cmd/sandboxd/main.go\<close>); and the VM driver of systems
  other than Linux (\<open>internal/vm/machine_stub.go\<close>).
\<close>

subsection \<open>Relaying an answer\<close>

text \<open>
  What the response writer of \<open>net/http\<close> holds back and what the client has received. A write
  fails when the connection is broken, which may depend on what has been received.
\<close>

record response_writer =
  rw_buffered :: string
  rw_client :: string

definition rw_Write :: "(string \<Rightarrow> bool) \<Rightarrow> string \<Rightarrow> response_writer \<Rightarrow> bool \<times> response_writer" where
  "rw_Write alive p w = (if alive (rw_client w) then (True, w\<lparr>rw_buffered := rw_buffered w @ p\<rparr>) else (False, w))"

definition rw_Flush :: "response_writer \<Rightarrow> response_writer" where
  "rw_Flush w = w\<lparr>rw_buffered := [], rw_client := rw_client w @ rw_buffered w\<rparr>"

definition flushWriter_Write :: "(string \<Rightarrow> bool) \<Rightarrow> string \<Rightarrow> response_writer \<Rightarrow> bool \<times> response_writer" where
  "flushWriter_Write alive p w = (case rw_Write alive p w of (ok, w) \<Rightarrow> (ok, if ok then rw_Flush w else w))"

text \<open>\<open>io.Copy\<close>: the chunks in the order they arrive, up to the first failing write.\<close>

fun copy_body :: "(string \<Rightarrow> response_writer \<Rightarrow> bool \<times> response_writer) \<Rightarrow> string list \<Rightarrow> response_writer \<Rightarrow> response_writer" where
  "copy_body write [] w = w"
| "copy_body write (c # cs) w = (case write c w of (ok, w) \<Rightarrow> if ok then copy_body write cs w else w)"

definition relay_body :: "bool \<Rightarrow> (string \<Rightarrow> bool) \<Rightarrow> string list \<Rightarrow> response_writer" where
  "relay_body can_flush alive chunks =
     copy_body (if can_flush then flushWriter_Write alive else rw_Write alive) chunks \<lparr>rw_buffered = [], rw_client = []\<rparr>"

lemma flushed_write:
  "flushWriter_Write alive c \<lparr>rw_buffered = [], rw_client = r\<rparr> =
     (if alive r then (True, \<lparr>rw_buffered = [], rw_client = r @ c\<rparr>) else (False, \<lparr>rw_buffered = [], rw_client = r\<rparr>))"
  by (simp add: flushWriter_Write_def rw_Write_def rw_Flush_def)

lemma copy_flushed:
  "\<exists>j \<le> length cs. copy_body (flushWriter_Write alive) cs \<lparr>rw_buffered = [], rw_client = r\<rparr> =
     \<lparr>rw_buffered = [], rw_client = r @ concat (take j cs)\<rparr> \<and> (j = length cs \<or> \<not> alive (r @ concat (take j cs)))"
proof (induction cs arbitrary: r)
  case (Cons c cs)
  show ?case
  proof (cases "alive r")
    case True
    obtain j where "j \<le> length cs" "copy_body (flushWriter_Write alive) cs \<lparr>rw_buffered = [], rw_client = r @ c\<rparr> =
        \<lparr>rw_buffered = [], rw_client = (r @ c) @ concat (take j cs)\<rparr>" "j = length cs \<or> \<not> alive ((r @ c) @ concat (take j cs))"
      using Cons.IH [of "r @ c"] by blast
    with True show ?thesis by (intro exI [of _ "Suc j"]) (simp add: flushed_write)
  qed (intro exI [of _ 0], simp add: flushed_write)
qed simp

text \<open>
  The relay holds nothing back: after any number of chunks from the agent, the client has
  received all of them in their order, or the connection broke and it has received all up to
  there; so a command's output reaches the client while the command runs.
\<close>
theorem relay_immediate:
  "\<exists>j \<le> k. relay_body True alive (take k chunks) = \<lparr>rw_buffered = [], rw_client = concat (take j chunks)\<rparr> \<and>
     (j = k \<or> length chunks \<le> j \<or> \<not> alive (concat (take j chunks)))"
proof -
  obtain j where "j \<le> length (take k chunks)" "relay_body True alive (take k chunks) =
      \<lparr>rw_buffered = [], rw_client = concat (take j (take k chunks))\<rparr>"
      "j = length (take k chunks) \<or> \<not> alive (concat (take j (take k chunks)))"
    using copy_flushed [of "take k chunks" alive "[]"] unfolding relay_body_def append_Nil if_True by blast
  then show ?thesis by (intro exI [of _ j]) (auto simp: min_def split: if_splits)
qed

theorem relay_immediate_witness:
  "relay_body True (\<lambda>_. True) (take 2 [''ab'', ''c'', ''d'']) = \<lparr>rw_buffered = [], rw_client = ''abc''\<rparr>"
proof -
  obtain j where "j \<le> 2" "relay_body True (\<lambda>_. True) (take 2 [''ab'', ''c'', ''d'']) =
      \<lparr>rw_buffered = [], rw_client = concat (take j [''ab'', ''c'', ''d''])\<rparr>" "j = 2 \<or> 3 \<le> j"
    using relay_immediate [of 2 "\<lambda>_. True" "[''ab'', ''c'', ''d'']"] by auto
  then have "j = 2" by simp
  with \<open>relay_body _ _ _ = _\<close> show ?thesis by (simp add: numeral_2_eq_2)
qed

text \<open>Without a flusher the client has nothing until the handler returns.\<close>

lemma relay_unflushed: "rw_client (relay_body False alive chunks) = []"
proof -
  have "rw_client (copy_body (rw_Write alive) cs w) = rw_client w" for cs w
    by (induction cs arbitrary: w) (simp_all add: rw_Write_def)
  then show ?thesis by (simp add: relay_body_def)
qed

subsection \<open>Opening a shell\<close>

text \<open>
  The handshake may fail, and so may the start of the shell on its terminal; otherwise the
  session begins with the window and directory the client asked for.
\<close>

datatype shell_open = HandshakeFailed | ClosedWith string | SessionBegins shell_start

definition open_shell :: "env \<Rightarrow> string list \<Rightarrow> bool \<Rightarrow> (shell_start \<Rightarrow> bool) \<Rightarrow> (string \<times> string) list
    \<Rightarrow> ('z, shell_open) action" where
  "open_shell E environ accepted pty_starts q =
     (if \<not> accepted then return HandshakeFailed
      else do {
        sh \<leftarrow> start_shell E environ q;
        return (if pty_starts sh then SessionBegins sh else ClosedWith ''start shell'')
      })"

lemma open_shell_refused: "run_state (open_shell E environ False pty q) s = (HandshakeFailed, s)"
  by (simp add: open_shell_def)

lemma open_shell_window:
  assumes "run_state (open_shell E environ True pty (shell_query cols rows)) s = (SessionBegins sh, t)"
  shows "ss_cols sh = (if cols > 0 then cols else 80) \<and> ss_rows sh = (if rows > 0 then rows else 24) \<and> pty sh"
proof -
  obtain sh' t' where run: "run_state (start_shell E environ (shell_query cols rows)) s = (sh', t')" by fastforce
  then have "sh = sh'" "pty sh" using assms by (auto simp: open_shell_def split: if_splits)
  moreover have "ss_cols sh' = (if cols > 0 then cols else 80)" "ss_rows sh' = (if rows > 0 then rows else 24)"
    using start_shell_window [of E environ cols rows s, THEN arg_cong [where f = ss_cols]]
      start_shell_window [of E environ cols rows s, THEN arg_cong [where f = ss_rows]] unfolding run fst_conv by simp_all
  ultimately show ?thesis by simp
qed

subsection \<open>The driver of other systems\<close>

datatype stub_error = ErrLinuxOnly

text \<open>A machine has no content there, and may be nil; the last argument of a start is the console.\<close>

type_synonym stub_machine = unit

definition stub_NewMachine :: "run_options \<Rightarrow> bool \<Rightarrow> (stub_error, stub_machine option \<times> runtime_config) result" where
  "stub_NewMachine opts console = Inl ErrLinuxOnly"

definition stub_NewMachineFromSnapshot :: "run_options \<Rightarrow> string \<Rightarrow> string \<Rightarrow> bool
    \<Rightarrow> (stub_error, stub_machine option \<times> runtime_config) result" where
  "stub_NewMachineFromSnapshot opts mem_path state_path console = Inl ErrLinuxOnly"

definition stub_StartClone :: "run_options \<Rightarrow> clone_params \<Rightarrow> (stub_error, stub_machine option \<times> runtime_config) result" where
  "stub_StartClone opts params = Inl ErrLinuxOnly"

text \<open>\<open>Start\<close>, \<open>StopForce\<close>, \<open>ShutdownGuest\<close>, \<open>Wait\<close>, \<open>Pause\<close> and \<open>Resume\<close> have one body.\<close>

definition stub_operation :: "stub_machine option \<Rightarrow> (stub_error, unit) result" where
  "stub_operation m = Inl ErrLinuxOnly"

definition stub_PID :: "stub_machine option \<Rightarrow> (stub_error, int) result" where
  "stub_PID m = Inl ErrLinuxOnly"

definition stub_Snapshot :: "stub_machine option \<Rightarrow> string \<Rightarrow> string \<Rightarrow> (stub_error, unit) result" where
  "stub_Snapshot m mem_path state_path = Inl ErrLinuxOnly"

end
