(* ===== verification/Spec2Isabelle.thy ===== *)
theory Spec2Isabelle
  imports Registry_Roundtrip Registry_Open Liveness Fanout_Parallel Races Gateway_Routing Thaw Doctor Commands Terminal
    Fleet_Requests Recovery Gateway_Life Edges
begin

text \<open>
  Verification development of a control plane for Firecracker sandboxes (Go).

  \<^bold>\<open>The program.\<close> A host runs \<open>sandbox serve\<close>: an HTTP API on a Unix socket and, with a
  token, on TCP. Each sandbox is a microVM with a tap device, a guest address and a host
  port taken from configured pools; a SQLite file, the registry, holds who has what. Inside
  every guest the agent \<open>sandboxd\<close> runs commands, transfers files, serves a terminal and
  adopts a new network identity after a fan-out. \<open>sandbox gateway\<close> stands in front of
  several hosts, which tell it their running sandboxes in heartbeats. The same binary is
  the command line: it reaches a server or a gateway through the client library. A request
  thus travels: command line, client, (gateway, client of the gateway,) API of the host,
  handler, registry and provisioner and VM driver, or the proxy and then the agent.

  \<^bold>\<open>Theories and code.\<close> Names of definitions are those of the Go functions; a name the
  library already has, or a fragment of a function, has one of its own. In order:

  \<^item> \<open>Prelude\<close>: results of fallible functions, decimal printing and reading, 64-bit
    wrap-around, list lemmas, collections of rules.
  \<^item> \<open>Netaddr\<close>, \<open>Pools\<close> (\<open>internal/registry/registry.go\<close>: \<open>pickFreeTap\<close>, \<open>pickFreeIP\<close>,
    \<open>pickFreePort\<close>, \<open>Slots\<close>, \<open>ipToUint32\<close>): addresses as 32-bit words, printing and
    parsing (\<open>net.ParseIP\<close>) as round trips; what the three loops find, when they find
    something, that they end, and where they wrap around.
  \<^item> \<open>Clock\<close> (\<open>server.go\<close>: deadlines): \<open>time.Duration\<close> as 64-bit nanoseconds, unix seconds.
  \<^item> \<open>Registry\<close>: the three tables as lists of rows in insertion order with the keys and
    partial unique indexes of the schema in the insertions, and every method of
    \<open>Registry\<close>, each database call of it failing or not on its own (\<open>faults\<close>).
    \<open>Registry_Inv\<close>: what the schema keeps true, and that an error changes nothing, as a
    locale over a step of the registry. \<open>Registry_Props\<close>, \<open>Registry_Roundtrip\<close>:
    exclusive resources, capacity, expiry, listing, round trips. \<open>Registry_Open\<close>: the
    database file as a catalogue, the DDL of \<open>migrate\<close> executed on it, and that opening
    upgrades every earlier version, loses nothing and is idempotent.
  \<^item> \<open>Paths\<close>, \<open>Cidr\<close>, \<open>Utf8\<close>: the functions of the standard library the code rests on
    (\<open>filepath.Clean\<close> and \<open>Join\<close>, \<open>net.ParseCIDR\<close>, the replacement of ill-formed UTF-8 by
    \<open>encoding/json\<close>).
  \<^item> \<open>Vm_Types\<close>, \<open>Host\<close>, \<open>Provisioner\<close> (\<open>provisioner.go\<close>), \<open>Vm\<close> (\<open>machine_linux.go\<close>,
    \<open>options.go\<close>): programs in the state monad that issue \<open>host_call\<close>s.
  \<^item> \<open>Server\<close> (\<open>server.go\<close>, \<open>ports.go\<close>, \<open>ttl.go\<close>, \<open>reconcile.go\<close>, \<open>waitForAgent\<close>), \<open>Snapshots\<close>
    (\<open>snapshot.go\<close>), \<open>Api\<close> (the mux, \<open>proxy.go\<close>, \<open>Serve\<close>): handlers over the state of a host,
    which is the calls made so far, the database and the map of tracked machines.
    Their properties are in \<open>Server_Core\<close>, \<open>Server_Create\<close>, \<open>Server_Lifecycle\<close>,
    \<open>Server_Ports\<close>, \<open>Snapshot_Props\<close>, \<open>Fanout_Props\<close>, \<open>Liveness\<close>, \<open>Api_Props\<close>.
  \<^item> \<open>Tasks\<close>, \<open>Concurrent\<close>: programs cut into atomic steps, pools of them under a schedule, and
    the handlers as such tasks (run alone, each is its handler). \<open>Claims\<close>: what each task
    may rely on and keeps, as claims on rows. \<open>Concurrent_Props\<close>, \<open>Fanout_Parallel\<close>, \<open>Races\<close>:
    what holds of every interleaving, the fan-out with its goroutines, and what the
    handlers do not exclude.
  \<^item> \<open>Gateway\<close> (\<open>gateway.go\<close>, \<open>cluster.go\<close>), \<open>Gateway_Props\<close>, \<open>Gateway_Routing\<close>, \<open>Gateway_Api\<close>,
    \<open>Fleet\<close> (\<open>heartbeat.go\<close> and the hosts behind the gateway): the gateway against an
    abstract fleet.
  \<^item> \<open>Fleet_System\<close>: the gateway and its hosts as one asynchronous system, a step relation over
    the gateway, the state of every host with the jobs under way on it, the heartbeats and
    the answers on their way; what no interleaving and no crash can break (no request ever
    reaches the wrong host), what one heartbeat repairs, and what is not excluded (a heartbeat
    overtaken by a creation, creations piling up on one host). \<open>Fleet_Requests\<close>: a request
    on its whole way through the gateway, answered as its host would answer it.
  \<^item> \<open>Gateway_Life\<close> (\<open>gateway.go\<close>: \<open>pruneLoop\<close>; \<open>cmd/sandbox/gateway.go\<close>; the interval of
    \<open>heartbeat.go\<close>): the gateway over time, how long a silent host is kept and how many
    losses are tolerated. \<open>Recovery\<close> (\<open>shutdownAll\<close>, \<open>reconcile.go\<close>): stopping with its
    goroutines, a crash at any moment and the start after it, and whom that start signals.
  \<^item> \<open>Edges\<close>: the flushed relay of \<open>proxy.go\<close>, how the agent opens a terminal session, and
    \<open>machine_stub.go\<close>.
  \<^item> \<open>Agent\<close>, \<open>Agent_Props\<close>, \<open>Shell\<close>, \<open>Thaw\<close> (\<open>cmd/sandboxd\<close>): capturing and streaming output,
    files, the terminal session as a step relation, the adoption of an identity.
  \<^item> \<open>Client\<close>, \<open>Client_Props\<close>, \<open>Client_Api\<close>, \<open>End_to_End\<close> (\<open>client.go\<close>): requests and responses,
    and the client, the API, the proxy and the agent put together.
  \<^item> \<open>Config\<close>, \<open>Config_Props\<close> (\<open>config.go\<close>, \<open>serve.go\<close>), \<open>Cli\<close>, \<open>Doctor\<close>: starting a server, and
    the commands with logic of their own. \<open>Commands\<close>: the commands of one request each, and
    these run against the modelled server. \<open>Terminal\<close> (\<open>shell.go\<close>): the local end of a terminal
    session, joined to the session of the agent.

  \<^bold>\<open>State and effects.\<close> What a host asks of its surroundings (external programs, files,
  the Firecracker SDK, the guest agent, the clock, randomness) is a \<open>host_call\<close>. The answer
  is the parameter \<open>env\<close>: an arbitrary function of all calls made so far and of the call.
  Nothing is assumed of it; a theorem that needs a call to succeed says so in a hypothesis
  (\<open>cleanup_ok\<close>, \<open>all_good\<close> and the like), and each has a witness with a concrete
  environment. Every call, database operations included, is recorded in order in
  \<open>calls\<close>, so the order of effects is part of the statements. \<open>wp m Q s\<close> is the condition
  under which the program \<open>m\<close> started in \<open>s\<close> ends with \<open>Q\<close>; the locale \<open>state_relation\<close>
  carries what a program leaves alone.

  Errors are values of a sum type, HTTP statuses are part of the result of a handler. Go
  strings are lists of bytes. \<open>uint32\<close> is \<open>32 word\<close>; \<open>int\<close> is \<open>int\<close> with the 64-bit wrap-around
  written out where a product can overflow. JSON is modelled as parsed values: how
  \<open>encoding/json\<close> writes and reads text is the library's, except for its treatment of
  ill-formed UTF-8, which matters to the stream of output.

  \<^bold>\<open>Loops and bounds.\<close> The pool loops count up to the bound of the pool (\<open>pickFreeIP\<close> in
  32-bit words, as \<open>partial_function\<close>, because with an inverted bound its termination is
  something to prove). The polling loops (\<open>waitForAgent\<close>, \<open>waitAPI\<close>, \<open>killWithGrace\<close>) recurse
  on the time that is left, which each sleep and each answer reduces; the time of an
  answer comes from the environment and is counted as at least the sleep. Endless loops
  (reaper, heartbeats, pruning, thaw) are one round each, run any number of times; when
  heartbeats are sent and hosts are pruned is in \<open>Gateway_Life\<close>.

  \<^bold>\<open>Order and concurrency.\<close> \<open>net/http\<close> runs every request on a goroutine of its own. A handler
  is given twice: as a program, which is the handler run alone, and as a task, whose steps
  are what the code shares (one operation of the registry, which has a single connection; one
  access to the \<open>sync.Map\<close> of machines; the calls to the outside between them). A schedule is
  a list of numbers of goroutines; the theorems hold for every schedule, and every pool
  has one that ends it. The fan-out is one pool of at most eight at a time, then one of all
  clones that came up. The two readers of a command's output interleave in every order; a
  terminal session is a step relation of its goroutines at both ends, and the connection
  between them keeps order but may be lost at any time. Go's map iteration is an argument (an
  arbitrary order of the hosts). The gateway holds its mutex for a whole operation, so
  there an operation is one step; a creation through it is three (placing, the job on the
  host, recording the route), between which anything may happen. A crash loses the jobs of a
  process and what it holds in memory, and the next start runs on its registry file. Hosts
  draw identifiers as random UUIDs; that no two hosts draw the same one is the hypothesis
  (\<open>issues\<close> within \<open>own\<close>) of the theorems on the fleet.

  \<^bold>\<open>Not modelled.\<close> The TypeScript SDK and the scripts (other languages, no logic of this
  program); logging and the padding of tables; cobra's parsing of the command line; \<open>net/http\<close>,
  \<open>database/sql\<close>, SQLite (but for what its documentation says of the statements the program
  issues), Firecracker, iptables and the kernel, which are the environment; memory races
  inside one atomic step.
\<close>

end
